theory Spec2Isabelle
  imports Main "HOL-Library.Word" "HOL-Library.AList" "HOL-Library.Product_Lexorder"
begin

unbundle bit_operations_syntax

section \<open>Errors\<close>

text \<open>
  Every \<^verbatim>\<open>throw\<close> of the source is a value. The four count checks of \<^verbatim>\<open>parseTags\<close>
  (\<^verbatim>\<open>ERRORS.INVALID_SHAPE_COUNT\<close>, "Trying to load too many MovieClips!",
  \<^verbatim>\<open>ERRORS.INVALID_TEXTFIELD_COUNT\<close>, "Trying to load too many Modifiers!") are
  \<open>CountOverflow\<close> with the kind of record that overflowed;
  \<^verbatim>\<open>ERRORS.INVALID_EXTERNAL_TEXTURE\<close> is \<open>MissingExternalTexture\<close>; a property access
  on \<^verbatim>\<open>undefined\<close> is \<open>TypeError\<close>; \<^verbatim>\<open>fs.readFileSync\<close> of a path that does not exist is
  \<open>FileNotFound\<close>.
\<close>

datatype ResourceKind = ShapeKind | MovieClipKind | TextFieldKind | ModifierKind

datatype error =
  Truncated
  | NegativeLength
  | CountOverflow ResourceKind
  | UnknownPixelFormat
  | MissingExternalTexture
  | TypeError
  | FileNotFound

section \<open>Byte buffer\<close>

text \<open>
  Modelled from the spec: the class \<^verbatim>\<open>ScBuffer\<close> (\<^verbatim>\<open>./buffer\<close>) is not among the
  sources. Section 4.2 of the specification gives its contract: little-endian scalars,
  ASCII strings with a one-byte length prefix (\<^verbatim>\<open>0xFF\<close> for the empty string), \<^verbatim>\<open>skip\<close>,
  \<^verbatim>\<open>fill\<close>, and \<^verbatim>\<open>saveTag\<close> (\<^verbatim>\<open>u8 id\<close>, \<^verbatim>\<open>i32 length\<close>, payload); a read past the end
  fails with \<open>Truncated\<close>, a negative length with \<open>NegativeLength\<close>.

  A buffer being read is represented by the bytes that are still ahead of the read
  cursor: a read takes them from the front. A buffer being written is the list of bytes
  written so far: a write appends. Numbers that do not fit their field are reduced
  modulo the field's range.
\<close>

type_synonym byte = "8 word"

definition readUInt8 :: "byte list \<Rightarrow> error + nat \<times> byte list" where
  "readUInt8 b = (case b of [] \<Rightarrow> Inl Truncated | b0 # r \<Rightarrow> Inr (unat b0, r))"

definition readUInt16 :: "byte list \<Rightarrow> error + nat \<times> byte list" where
  "readUInt16 b =
     (case b of
        b0 # b1 # r \<Rightarrow> Inr (unat b0 + 256 * unat b1, r)
      | _ \<Rightarrow> Inl Truncated)"

definition readInt32 :: "byte list \<Rightarrow> error + int \<times> byte list" where
  "readInt32 b =
     (case b of
        b0 # b1 # b2 # b3 # r \<Rightarrow>
          (let u = unat b0 + 256 * unat b1 + 65536 * unat b2 + 16777216 * unat b3
           in Inr (if u < 2147483648 then int u else int u - 4294967296, r))
      | _ \<Rightarrow> Inl Truncated)"

definition readBytes :: "nat \<Rightarrow> byte list \<Rightarrow> error + byte list \<times> byte list" where
  "readBytes n b = (if length b < n then Inl Truncated else Inr (take n b, drop n b))"

definition readASCII :: "byte list \<Rightarrow> error + string \<times> byte list" where
  "readASCII b =
     (case readUInt8 b of
        Inl e \<Rightarrow> Inl e
      | Inr (n, r) \<Rightarrow>
          if n = 255 then Inr ([], r)
          else (case readBytes n r of
                  Inl e \<Rightarrow> Inl e
                | Inr (cs, r') \<Rightarrow> Inr (map (\<lambda>w. char_of (unat w)) cs, r')))"

definition skip :: "int \<Rightarrow> byte list \<Rightarrow> error + byte list" where
  "skip n b =
     (if n < 0 then Inl NegativeLength
      else if length b < nat n then Inl Truncated
      else Inr (drop (nat n) b))"

definition writeUInt8 :: "nat \<Rightarrow> byte list" where
  "writeUInt8 n = [of_nat n]"

definition writeUInt16 :: "nat \<Rightarrow> byte list" where
  "writeUInt16 n = [of_nat n, of_nat (n div 256)]"

definition writeInt32 :: "int \<Rightarrow> byte list" where
  "writeInt32 i = [of_int i, of_int (i div 256), of_int (i div 65536), of_int (i div 16777216)]"

definition writeASCII :: "string \<Rightarrow> byte list" where
  "writeASCII s =
     (if s = [] then [255]
      else of_nat (length s) # map (\<lambda>c. of_nat (of_char c)) s)"

definition fill :: "nat \<Rightarrow> byte list" where
  "fill n = replicate n 0"

definition saveTag :: "nat \<Rightarrow> byte list \<Rightarrow> byte list" where
  "saveTag tag payload = writeUInt8 tag @ writeInt32 (int (length payload)) @ payload"

section \<open>Pixel buffer\<close>

text \<open>
  Modelled from the spec: the image class comes from the external package
  \<^verbatim>\<open>image-js\<close>. Section 6 of the specification lists the interface the codec uses:
  \<^verbatim>\<open>new(w, h, channel_kind)\<close>, \<^verbatim>\<open>get(x, y)\<close>, \<^verbatim>\<open>set(x, y, channel_array)\<close>, \<^verbatim>\<open>resize\<close>,
  \<^verbatim>\<open>clone\<close>, \<^verbatim>\<open>channels\<close>, \<^verbatim>\<open>has_alpha\<close>. An image is its width, height, channel kind and
  its pixels in row-major order, each pixel the list of its channel bytes. In a new
  image the colour channels are zero and the alpha channel, when the kind has one, is
  255, as the package fills it; \<^verbatim>\<open>new Image()\<close> without arguments is 1 by 1, RGBA. The
  package builds no image with an empty side (it raises a \<^verbatim>\<open>RangeError\<close>); the
  specification has no such failure and \<open>newImage\<close> has none. \<^verbatim>\<open>clone\<close> is the identity
  on values. The accessors are used only inside the image by the loops below.
\<close>

type_synonym pixel = "byte list"

datatype ImageKind = RGBA | RGB | GREYA | GREY

record Image =
  width :: nat
  height :: nat
  kind :: ImageKind
  pixels :: "pixel list"

fun components_of :: "ImageKind \<Rightarrow> nat" where
  "components_of RGBA = 3"
| "components_of RGB = 3"
| "components_of GREYA = 1"
| "components_of GREY = 1"

fun alpha_of :: "ImageKind \<Rightarrow> bool" where
  "alpha_of RGBA = True"
| "alpha_of RGB = False"
| "alpha_of GREYA = True"
| "alpha_of GREY = False"

definition components :: "Image \<Rightarrow> nat" where
  "components img = components_of (kind img)"

definition alpha :: "Image \<Rightarrow> bool" where
  "alpha img = alpha_of (kind img)"

definition channels :: "Image \<Rightarrow> nat" where
  "channels img = components img + (if alpha img then 1 else 0)"

definition newImage :: "nat \<Rightarrow> nat \<Rightarrow> ImageKind \<Rightarrow> Image" where
  "newImage w h k =
     \<lparr>width = w, height = h, kind = k,
      pixels = replicate (w * h)
                 (replicate (components_of k) 0 @ (if alpha_of k then [255] else []))\<rparr>"

definition defaultImage :: Image where
  "defaultImage = newImage 1 1 RGBA"

definition getPixelXY :: "Image \<Rightarrow> nat \<Rightarrow> nat \<Rightarrow> pixel" where
  "getPixelXY img x y = pixels img ! (y * width img + x)"

definition setPixelXY :: "Image \<Rightarrow> nat \<Rightarrow> nat \<Rightarrow> pixel \<Rightarrow> Image" where
  "setPixelXY img x y p = img\<lparr>pixels := (pixels img)[y * width img + x := p]\<rparr>"

section \<open>Pixel codec\<close>

text \<open>
  The pixel formats a texture can have. The source keeps the format as a string; the
  setter \<^verbatim>\<open>pixelFormat\<close> accepts only the six names listed in \<^verbatim>\<open>CHANNEL_FORMATS\<close> and
  ignores every other, so the strings form this closed set.
\<close>

datatype PixelFormat =
  GL_RGBA8 | GL_RGBA4 | GL_RGB5_A1 | GL_RGB565 | GL_LUMINANCE8_ALPHA8 | GL_LUMINANCE8

fun CHANNEL_FORMATS :: "ImageKind \<Rightarrow> PixelFormat list" where
  "CHANNEL_FORMATS RGBA = [GL_RGBA8, GL_RGBA4, GL_RGB5_A1]"
| "CHANNEL_FORMATS RGB = [GL_RGB565]"
| "CHANNEL_FORMATS GREYA = [GL_LUMINANCE8_ALPHA8]"
| "CHANNEL_FORMATS GREY = [GL_LUMINANCE8]"

definition PIXEL_CHANNELS :: "ImageKind list" where
  "PIXEL_CHANNELS = [RGBA, RGBA, RGBA, RGBA, RGB, RGBA, GREYA, RGBA, RGBA, RGBA, GREY]"

definition PIXEL_FORMATS :: "PixelFormat list" where
  "PIXEL_FORMATS =
     [GL_RGBA8, GL_RGBA8, GL_RGBA4, GL_RGB5_A1, GL_RGB565, GL_RGBA8,
      GL_LUMINANCE8_ALPHA8, GL_RGBA8, GL_RGBA8, GL_RGBA4, GL_LUMINANCE8]"

text \<open>\<^verbatim>\<open>Array.prototype.indexOf\<close>: the first position of an element (the length of the
  list when it does not occur, which does not happen for \<open>PIXEL_FORMATS\<close>).\<close>

fun indexOf :: "'a list \<Rightarrow> 'a \<Rightarrow> nat" where
  "indexOf [] a = 0"
| "indexOf (x # xs) a = (if x = a then 0 else Suc (indexOf xs a))"

text \<open>
  Modelled from the spec: the tables \<^verbatim>\<open>PIXEL_WRITE_FUNCTIONS\<close> and
  \<^verbatim>\<open>PIXEL_READ_FUNCTIONS\<close> (\<^verbatim>\<open>./pixel_write\<close>, \<^verbatim>\<open>./pixel_read\<close>) are not among the sources.
  Section 4.3 of the specification gives the packings: one byte per channel for
  \<^verbatim>\<open>GL_RGBA8\<close>, \<^verbatim>\<open>GL_LUMINANCE8_ALPHA8\<close> and \<^verbatim>\<open>GL_LUMINANCE8\<close>; a little-endian 16-bit
  word for \<^verbatim>\<open>GL_RGBA4\<close> (4-4-4-4), \<^verbatim>\<open>GL_RGB5_A1\<close> (5-5-5-1) and \<^verbatim>\<open>GL_RGB565\<close> (5-6-5), each
  channel scaled by \<^verbatim>\<open>round(v * max / 255)\<close> on write and \<^verbatim>\<open>round(v * 255 / max)\<close> on read.
  A pixel that has not the channels of the format yields no bytes.
\<close>

definition scale_down :: "nat \<Rightarrow> byte \<Rightarrow> nat" where
  "scale_down k v = (2 * (unat v * k) + 255) div 510"

definition scale_up :: "nat \<Rightarrow> nat \<Rightarrow> byte" where
  "scale_up k v = of_nat ((2 * (v * 255) + k) div (2 * k))"

fun writePixel :: "PixelFormat \<Rightarrow> pixel \<Rightarrow> byte list" where
  "writePixel GL_RGBA8 p = (case p of [r, g, b, a] \<Rightarrow> [r, g, b, a] | _ \<Rightarrow> [])"
| "writePixel GL_RGBA4 p =
     (case p of
        [r, g, b, a] \<Rightarrow>
          writeUInt16 (push_bit 12 (scale_down 15 r) OR push_bit 8 (scale_down 15 g)
                       OR push_bit 4 (scale_down 15 b) OR scale_down 15 a)
      | _ \<Rightarrow> [])"
| "writePixel GL_RGB5_A1 p =
     (case p of
        [r, g, b, a] \<Rightarrow>
          writeUInt16 (push_bit 11 (scale_down 31 r) OR push_bit 6 (scale_down 31 g)
                       OR push_bit 1 (scale_down 31 b) OR scale_down 1 a)
      | _ \<Rightarrow> [])"
| "writePixel GL_RGB565 p =
     (case p of
        [r, g, b] \<Rightarrow>
          writeUInt16 (push_bit 11 (scale_down 31 r) OR push_bit 5 (scale_down 63 g)
                       OR scale_down 31 b)
      | _ \<Rightarrow> [])"
| "writePixel GL_LUMINANCE8_ALPHA8 p = (case p of [l, a] \<Rightarrow> [l, a] | _ \<Rightarrow> [])"
| "writePixel GL_LUMINANCE8 p = (case p of [l] \<Rightarrow> [l] | _ \<Rightarrow> [])"

fun bytesPerPixel :: "PixelFormat \<Rightarrow> nat" where
  "bytesPerPixel GL_RGBA8 = 4"
| "bytesPerPixel GL_RGBA4 = 2"
| "bytesPerPixel GL_RGB5_A1 = 2"
| "bytesPerPixel GL_RGB565 = 2"
| "bytesPerPixel GL_LUMINANCE8_ALPHA8 = 2"
| "bytesPerPixel GL_LUMINANCE8 = 1"

definition field :: "nat \<Rightarrow> nat \<Rightarrow> nat \<Rightarrow> nat" where
  "field shift bits v = take_bit bits (drop_bit shift v)"

fun decodePixel :: "PixelFormat \<Rightarrow> byte list \<Rightarrow> pixel" where
  "decodePixel GL_RGBA8 bs = bs"
| "decodePixel GL_RGBA4 bs =
     (let v = unat (bs ! 0) + 256 * unat (bs ! 1)
      in [scale_up 15 (field 12 4 v), scale_up 15 (field 8 4 v),
          scale_up 15 (field 4 4 v), scale_up 15 (field 0 4 v)])"
| "decodePixel GL_RGB5_A1 bs =
     (let v = unat (bs ! 0) + 256 * unat (bs ! 1)
      in [scale_up 31 (field 11 5 v), scale_up 31 (field 6 5 v),
          scale_up 31 (field 1 5 v), scale_up 1 (field 0 1 v)])"
| "decodePixel GL_RGB565 bs =
     (let v = unat (bs ! 0) + 256 * unat (bs ! 1)
      in [scale_up 31 (field 11 5 v), scale_up 63 (field 5 6 v), scale_up 31 (field 0 5 v)])"
| "decodePixel GL_LUMINANCE8_ALPHA8 bs = bs"
| "decodePixel GL_LUMINANCE8 bs = bs"

definition readPixel :: "PixelFormat \<Rightarrow> byte list \<Rightarrow> error + pixel \<times> byte list" where
  "readPixel fmt b =
     (case readBytes (bytesPerPixel fmt) b of
        Inl e \<Rightarrow> Inl e
      | Inr (bs, r) \<Rightarrow> Inr (decodePixel fmt bs, r))"

section \<open>Texture records (src/lib/texture/index.ts)\<close>

text \<open>
  The enum \<^verbatim>\<open>FILTERS\<close> of the source, with its three members in declaration order,
  and the class \<^verbatim>\<open>Texture\<close> with the defaults of its field initialisers.
\<close>

datatype FILTERS = GL_LINEAR | GL_NEAREST | GL_LINEAR_MIPMAP_NEAREST

record Texture =
  pixelFormat :: PixelFormat
  magFilter :: FILTERS
  minFilter :: FILTERS
  linear :: bool
  downscaling :: bool
  image :: Image

definition newTexture :: Texture where
  "newTexture =
     \<lparr>pixelFormat = GL_RGBA8, magFilter = GL_LINEAR, minFilter = GL_NEAREST,
      linear = True, downscaling = True, image = defaultImage\<rparr>"

subsection \<open>Pixel traversals\<close>

text \<open>
  The linear traversal is \<^verbatim>\<open>for (y = 0; y < height; y++) for (x = 0; x < width; x++)\<close>.

  The block traversal is the four nested loops that \<^verbatim>\<open>Texture.load\<close> and
  \<^verbatim>\<open>Texture.save\<close> both contain, with \<^verbatim>\<open>blockSize = 32\<close>,
  \<^verbatim>\<open>xBlocks = Math.floor(width / 32)\<close>, \<^verbatim>\<open>yBlocks = Math.floor(height / 32)\<close>:
  \<^verbatim>\<open>yBlock\<close> runs while \<^verbatim>\<open>yBlocks + 1 > yBlock\<close>, \<^verbatim>\<open>xBlock\<close> while \<^verbatim>\<open>xBlocks + 1 > xBlock\<close>,
  \<^verbatim>\<open>y\<close> and \<^verbatim>\<open>x\<close> while below 32; the \<^verbatim>\<open>y\<close> loop breaks at the first
  \<^verbatim>\<open>yPixel >= height\<close> and the \<^verbatim>\<open>x\<close> loop at the first \<^verbatim>\<open>xPixel >= width\<close>
  (\<open>takeWhile\<close>). Each traversal is the list of the coordinates \<open>(xPixel, yPixel)\<close> in
  the order the loop body meets them.
\<close>

definition linear_coords :: "nat \<Rightarrow> nat \<Rightarrow> (nat \<times> nat) list" where
  "linear_coords w h = concat (map (\<lambda>y. map (\<lambda>x. (x, y)) [0..<w]) [0..<h])"

definition block_coords :: "nat \<Rightarrow> nat \<Rightarrow> (nat \<times> nat) list" where
  "block_coords w h =
     concat (map (\<lambda>yBlock.
       concat (map (\<lambda>xBlock.
         concat (map (\<lambda>y.
           map (\<lambda>x. (xBlock * 32 + x, yBlock * 32 + y))
             (takeWhile (\<lambda>x. \<not> xBlock * 32 + x \<ge> w) [0..<32]))
           (takeWhile (\<lambda>y. \<not> yBlock * 32 + y \<ge> h) [0..<32])))
         [0..<w div 32 + 1]))
       [0..<h div 32 + 1])"



subsection \<open>\<^verbatim>\<open>Texture.load\<close>: fields and pixels\<close>

text \<open>
  \<^verbatim>\<open>Texture.load\<close> first assigns the defaults \<^verbatim>\<open>GL_LINEAR\<close> / \<^verbatim>\<open>GL_NEAREST\<close> and then
  overrides them by tag id: \<^verbatim>\<open>[16, 19, 29].includes(tag)\<close>, else \<^verbatim>\<open>tag === 34\<close>.
  \<^verbatim>\<open>linear\<close> is \<^verbatim>\<open>![27, 28, 29].includes(tag)\<close> and \<^verbatim>\<open>downscaling\<close> is
  \<^verbatim>\<open>[1, 16, 28, 29].includes(tag)\<close>.
\<close>

definition load_magFilter :: "nat \<Rightarrow> FILTERS" where
  "load_magFilter tag =
     (if tag \<in> set [16, 19, 29] then GL_LINEAR
      else if tag = 34 then GL_LINEAR
      else GL_LINEAR)"

definition load_minFilter :: "nat \<Rightarrow> FILTERS" where
  "load_minFilter tag =
     (if tag \<in> set [16, 19, 29] then GL_LINEAR_MIPMAP_NEAREST
      else if tag = 34 then GL_LINEAR
      else GL_NEAREST)"

definition load_linear :: "nat \<Rightarrow> bool" where
  "load_linear tag = (tag \<notin> set [27, 28, 29])"

definition load_downscaling :: "nat \<Rightarrow> bool" where
  "load_downscaling tag = (tag \<in> set [1, 16, 28, 29])"

text \<open>
  The pixel loops of \<^verbatim>\<open>Texture.load\<close>: for each coordinate of the traversal, in order,
  \<^verbatim>\<open>this.image.setPixelXY(x, y, readPixel(swf.buffer))\<close>. A failed read ends the load.
\<close>

fun load_pixels ::
  "PixelFormat \<Rightarrow> (nat \<times> nat) list \<Rightarrow> Image \<Rightarrow> byte list \<Rightarrow> error + Image \<times> byte list"
where
  "load_pixels fmt [] img b = Inr (img, b)"
| "load_pixels fmt ((x, y) # cs) img b =
     (case readPixel fmt b of
        Inl e \<Rightarrow> Inl e
      | Inr (p, r) \<Rightarrow> load_pixels fmt cs (setPixelXY img x y p) r)"

subsection \<open>\<^verbatim>\<open>Texture.save\<close>\<close>

text \<open>
  \<^verbatim>\<open>textureKind = (components === 3 ? 'RGB' : 'GREY') + (alpha ? 'A' : '')\<close>.
\<close>

definition textureKind :: "Image \<Rightarrow> ImageKind" where
  "textureKind img =
     (if components img = 3 then (if alpha img then RGBA else RGB)
      else (if alpha img then GREYA else GREY))"

text \<open>
  The format the pixels are written in: \<^verbatim>\<open>this._pixelFormat\<close> after the check
  \<^verbatim>\<open>if (!CHANNEL_FORMATS[textureKind].includes(PIXEL_FORMATS[pixelTypeIndex]))\<close>, which
  replaces a format that does not fit the image by the first format of the image's
  kind. The index written into the tag is computed before that check.
\<close>

definition save_pixelTypeIndex :: "Texture \<Rightarrow> nat" where
  "save_pixelTypeIndex t = indexOf PIXEL_FORMATS (pixelFormat t)"

definition save_pixelFormat :: "Texture \<Rightarrow> PixelFormat" where
  "save_pixelFormat t =
     (if PIXEL_FORMATS ! save_pixelTypeIndex t \<notin> set (CHANNEL_FORMATS (textureKind (image t)))
      then hd (CHANNEL_FORMATS (textureKind (image t)))
      else pixelFormat t)"

text \<open>
  The tag id: \<^verbatim>\<open>let tag = 1\<close>, reassigned only inside \<^verbatim>\<open>if (hasData)\<close>, by the chain
  of comparisons on \<^verbatim>\<open>magFilter\<close>, \<^verbatim>\<open>minFilter\<close>, \<^verbatim>\<open>linear\<close> and \<^verbatim>\<open>downscaling\<close>.
\<close>

definition save_tag :: "Texture \<Rightarrow> bool \<Rightarrow> nat" where
  "save_tag t hasData =
     (if hasData then
        (if magFilter t = GL_LINEAR \<and> minFilter t = GL_NEAREST then
           (if \<not> linear t then (if downscaling t then 28 else 27)
            else if \<not> downscaling t then 24
            else 1)
         else if magFilter t = GL_LINEAR \<and> minFilter t = GL_LINEAR_MIPMAP_NEAREST then
           (if \<not> linear t \<and> \<not> downscaling t then 29
            else (if downscaling t then 16 else 19))
         else if magFilter t = GL_NEAREST \<and> minFilter t = GL_NEAREST then 34
         else 1)
      else 1)"

text \<open>
  The block rearrangement of \<^verbatim>\<open>Texture.save\<close> (\<^verbatim>\<open>if (!this.linear)\<close>): the pixels of a
  clone of the image are read at the coordinates of the block traversal and stored
  into the image at the running \<^verbatim>\<open>pixelIndex\<close>, that is at
  \<^verbatim>\<open>(pixelIndex % width, Math.floor(pixelIndex / width))\<close>.
\<close>

fun addPixels :: "Image \<Rightarrow> (nat \<times> nat) list \<Rightarrow> Image \<Rightarrow> nat \<Rightarrow> Image" where
  "addPixels originalImage [] img pixelIndex = img"
| "addPixels originalImage ((xPixel, yPixel) # cs) img pixelIndex =
     addPixels originalImage cs
       (setPixelXY img (pixelIndex mod width img) (pixelIndex div width img)
          (getPixelXY originalImage xPixel yPixel))
       (pixelIndex + 1)"

definition save_arranged :: "Texture \<Rightarrow> Image \<Rightarrow> Image" where
  "save_arranged t img =
     (if \<not> linear t then addPixels img (block_coords (width img) (height img)) img 0
      else img)"

text \<open>
  The write loop: \<^verbatim>\<open>pix = image.getPixelXY(x, y)\<close>; if the image has an alpha channel
  and \<^verbatim>\<open>pix[pix.length - 1] === 0\<close>, \<^verbatim>\<open>pix\<close> becomes \<^verbatim>\<open>new Array(image.channels).fill(0)\<close>;
  then \<^verbatim>\<open>writePixel(tagBuffer, pix)\<close>. \<open>written_pixels\<close> is the sequence of arrays handed
  to \<^verbatim>\<open>writePixel\<close>.
\<close>

definition zero_alpha :: "Image \<Rightarrow> pixel \<Rightarrow> pixel" where
  "zero_alpha img pix =
     (if alpha img \<and> pix \<noteq> [] \<and> last pix = 0 then replicate (channels img) 0 else pix)"

definition written_pixels :: "Image \<Rightarrow> pixel list" where
  "written_pixels img =
     map (\<lambda>(x, y). zero_alpha img (getPixelXY img x y))
       (linear_coords (width img) (height img))"

text \<open>
  \<^verbatim>\<open>Texture.save(swf, hasData, isLowres)\<close>. The parameter \<open>resize\<close> stands for
  \<^verbatim>\<open>image.resize({factor: 0.5})\<close> of the external image package; with factor 1 the image
  is kept. The result is the texture (its \<^verbatim>\<open>_pixelFormat\<close> may have been replaced) and
  the bytes that \<^verbatim>\<open>swf.buffer.saveTag(tag, tagBuffer)\<close> appends to the buffer. The calls of
  \<^verbatim>\<open>swf.progress\<close> only print and are left out.
\<close>

definition save_image :: "(Image \<Rightarrow> Image) \<Rightarrow> Texture \<Rightarrow> bool \<Rightarrow> Image" where
  "save_image resize t isLowres = (if isLowres then resize (image t) else image t)"

definition save_tagBuffer :: "(Image \<Rightarrow> Image) \<Rightarrow> Texture \<Rightarrow> bool \<Rightarrow> bool \<Rightarrow> byte list" where
  "save_tagBuffer resize t hasData isLowres =
     (let img = save_image resize t isLowres in
        writeUInt8 (save_pixelTypeIndex t) @ writeUInt16 (width img) @ writeUInt16 (height img) @
        (if hasData
         then concat (map (writePixel (save_pixelFormat t)) (written_pixels (save_arranged t img)))
         else []))"

definition Texture_save ::
  "(Image \<Rightarrow> Image) \<Rightarrow> Texture \<Rightarrow> bool \<Rightarrow> bool \<Rightarrow> Texture \<times> byte list"
where
  "Texture_save resize t hasData isLowres =
     (t\<lparr>pixelFormat := save_pixelFormat t\<rparr>,
      saveTag (save_tag t hasData) (save_tagBuffer resize t hasData isLowres))"

section \<open>The document (swf module)\<close>

text \<open>
  Modelled from the spec: the enum \<^verbatim>\<open>COMPRESSION\<close> and the envelope codec
  (\<^verbatim>\<open>ScBuffer.fromCompressed\<close>, \<^verbatim>\<open>toCompressed\<close>, in \<^verbatim>\<open>./buffer\<close>) are not among the
  sources. Section 4.1 of the specification names the four methods and section 8 gives
  the law \<^verbatim>\<open>decompress(compress(m, b)) == (m, b)\<close>. A file on disk is represented by
  what \<^verbatim>\<open>decompress\<close> returns for it: its method and its plain bytes.
\<close>

datatype COMPRESSION = NONE | LZMA | LZHAM | ZSTD

datatype ScFile = ScFile COMPRESSION "byte list"

fun fromCompressed :: "ScFile \<Rightarrow> COMPRESSION \<times> byte list" where
  "fromCompressed (ScFile m b) = (m, b)"

definition toCompressed :: "COMPRESSION \<Rightarrow> byte list \<Rightarrow> ScFile" where
  "toCompressed m b = ScFile m b"

text \<open>
  Modelled from the spec: \<^verbatim>\<open>TransformBank\<close> (\<^verbatim>\<open>./bank\<close>) is not among the sources.
  By section 3 a bank is two ordered sequences, its matrices and its colour
  transforms; by section 4.6 it is read and written as \<^verbatim>\<open>u16 matrix_count\<close>,
  \<^verbatim>\<open>u16 color_count\<close>, and \<^verbatim>\<open>parseTags\<close> fills the slots \<^verbatim>\<open>matrices[i]\<close> and \<^verbatim>\<open>colors[i]\<close>
  of the bank loaded last, so \<^verbatim>\<open>load\<close> allocates that many placeholders and appends the
  bank to \<^verbatim>\<open>swf.banks\<close>. Header and tag 42 use the same call \<^verbatim>\<open>load(this)\<close>.
\<close>

record ('m, 'c) TransformBank =
  matrices :: "'m list"
  colors :: "'c list"

text \<open>
  The class \<^verbatim>\<open>SupercellSWF\<close>. \<open>resources\<close> is the JavaScript object keyed by resource
  id: an association list with one entry per id (\<^verbatim>\<open>Object.entries\<close> enumerates integer
  keys in ascending order). \<open>exports\<close> lists the pairs of id and export name in file
  order. The four private counters \<^verbatim>\<open>_shapeCount\<close>, \<^verbatim>\<open>_movieClipsCount\<close>,
  \<^verbatim>\<open>_textFieldsCount\<close>, \<^verbatim>\<open>_modifiersCount\<close> lose their underscore.
\<close>

record ('r, 'm, 'c) SupercellSWF =
  compression :: COMPRESSION
  hasExternalTexture :: bool
  useUncommonTexture :: bool
  useLowresTexture :: bool
  exports :: "(nat \<times> string) list"
  textures :: "Texture list"
  highresPostfix :: string
  lowresPostfix :: string
  banks :: "('m, 'c) TransformBank list"
  resources :: "(nat \<times> 'r) list"
  buffer :: "byte list"
  shapeCount :: nat
  movieClipsCount :: nat
  textFieldsCount :: nat
  modifiersCount :: nat

definition newSupercellSWF :: "('r, 'm, 'c) SupercellSWF" where
  "newSupercellSWF =
     \<lparr>compression = NONE, hasExternalTexture = False, useUncommonTexture = False,
      useLowresTexture = False, exports = [], textures = [],
      highresPostfix = ''_highres'', lowresPostfix = ''_lowres'', banks = [],
      resources = [], buffer = [], shapeCount = 0, movieClipsCount = 0,
      textFieldsCount = 0, modifiersCount = 0\<rparr>"

text \<open>
  The record classes \<^verbatim>\<open>Shape\<close>, \<^verbatim>\<open>MovieClip\<close>, \<^verbatim>\<open>TextField\<close>, \<^verbatim>\<open>MovieClipModifier\<close>,
  \<^verbatim>\<open>Matrix\<close> and the colour transform are not among the sources, and the specification
  leaves their layouts open ("opaque tag payloads the codec treats as byte runs").
  They are parameters: a record is a value of the type variable \<open>'r\<close>, a matrix of
  \<open>'m\<close>, a colour transform of \<open>'c\<close>. \<open>kindOf\<close> is the \<^verbatim>\<open>instanceof\<close> test,
  \<open>loadResource\<close> decodes the payload of a tag into a resource id and a record,
  \<open>saveResource\<close> gives the tag id and payload that \<^verbatim>\<open>save(id, swf)\<close> writes;
  likewise for matrices and colours. By invariant 4 of section 3 of the specification a
  load consumes exactly the bytes its tag declares, so the dispatcher hands the
  decoder the payload of the declared length. \<open>resizeHalf\<close> stands for
  \<^verbatim>\<open>image.resize({factor: 0.5})\<close>.
\<close>

record ('r, 'm, 'c) Codecs =
  resizeHalf :: "Image \<Rightarrow> Image"
  kindOf :: "'r \<Rightarrow> ResourceKind"
  loadResource :: "ResourceKind \<Rightarrow> nat \<Rightarrow> byte list \<Rightarrow> error + nat \<times> 'r"
  saveResource :: "nat \<Rightarrow> 'r \<Rightarrow> nat \<times> byte list"
  newMatrix :: "'m"
  loadMatrix :: "nat \<Rightarrow> byte list \<Rightarrow> error + 'm"
  saveMatrix :: "'m \<Rightarrow> nat \<times> byte list"
  newColor :: "'c"
  loadColor :: "nat \<Rightarrow> byte list \<Rightarrow> error + 'c"
  saveColor :: "'c \<Rightarrow> nat \<times> byte list"

subsection \<open>\<^verbatim>\<open>Texture.load\<close>\<close>

text \<open>
  \<^verbatim>\<open>Texture.load(tag, swf, hasData)\<close>, with \<^verbatim>\<open>this\<close> given by \<open>slot\<close>: \<open>Some i\<close> when the
  receiver is the object \<^verbatim>\<open>swf.textures[i]\<close>, \<open>None\<close> when it is a fresh \<^verbatim>\<open>new Texture()\<close>
  that no list holds. Every field of \<^verbatim>\<open>this\<close> is assigned, so the loaded texture does not
  depend on the receiver's old fields. \<^verbatim>\<open>swf.textures.indexOf(this) < 0\<close> holds exactly
  for a fresh receiver, which is then pushed; this happens only under \<^verbatim>\<open>if (hasData)\<close>.
  An index outside \<^verbatim>\<open>PIXEL_FORMATS\<close> leaves \<^verbatim>\<open>_pixelFormat\<close> and the read function
  \<^verbatim>\<open>undefined\<close>: with pixel data the first call \<^verbatim>\<open>readPixel(swf.buffer)\<close> raises a
  \<open>TypeError\<close>. Without a pixel to read the source returns a texture whose format is
  \<^verbatim>\<open>undefined\<close>; a texture of the model always has a format, so there the load stops
  with \<open>UnknownPixelFormat\<close>, the failure that section 7 of the specification gives
  for such an index.
\<close>

definition Texture_load ::
  "nat \<Rightarrow> ('r, 'm, 'c) SupercellSWF \<Rightarrow> bool \<Rightarrow> nat option \<Rightarrow> error + ('r, 'm, 'c) SupercellSWF"
where
  "Texture_load tag swf hasData slot =
     (case readUInt8 (buffer swf) of
        Inl e \<Rightarrow> Inl e
      | Inr (pixelTypeIndex, b1) \<Rightarrow>
     (case readUInt16 b1 of
        Inl e \<Rightarrow> Inl e
      | Inr (w, b2) \<Rightarrow>
     (case readUInt16 b2 of
        Inl e \<Rightarrow> Inl e
      | Inr (h, b3) \<Rightarrow>
        if \<not> pixelTypeIndex < length PIXEL_FORMATS then
          (if hasData \<and> 0 < w * h then Inl TypeError else Inl UnknownPixelFormat)
        else
          let this = \<lparr>pixelFormat = PIXEL_FORMATS ! pixelTypeIndex,
                      magFilter = load_magFilter tag,
                      minFilter = load_minFilter tag,
                      linear = load_linear tag,
                      downscaling = load_downscaling tag,
                      image = newImage w h (PIXEL_CHANNELS ! pixelTypeIndex)\<rparr>
          in
            if hasData then
              (case load_pixels (pixelFormat this)
                      (if linear this then linear_coords w h
                       else block_coords (width (image this)) (height (image this)))
                      (image this) b3 of
                 Inl e \<Rightarrow> Inl e
               | Inr (img, b4) \<Rightarrow>
                   Inr (swf\<lparr>buffer := b4,
                            textures :=
                              (case slot of
                                 Some i \<Rightarrow> (textures swf)[i := this\<lparr>image := img\<rparr>]
                               | None \<Rightarrow> textures swf @ [this\<lparr>image := img\<rparr>])\<rparr>))
            else
              Inr (swf\<lparr>buffer := b3,
                       textures :=
                         (case slot of
                            Some i \<Rightarrow> (textures swf)[i := this]
                          | None \<Rightarrow> textures swf)\<rparr>))))"

subsection \<open>Header collaborators\<close>

text \<open>
  The payload of a record tag: the \<open>tagLength\<close> bytes that follow the tag header.
\<close>

definition payloadOf :: "int \<Rightarrow> byte list \<Rightarrow> error + byte list \<times> byte list" where
  "payloadOf tagLength b =
     (if tagLength < 0 then Inl NegativeLength else readBytes (nat tagLength) b)"

definition TransformBank_load ::
  "('r, 'm, 'c) Codecs \<Rightarrow> ('r, 'm, 'c) SupercellSWF \<Rightarrow> error + ('r, 'm, 'c) SupercellSWF"
where
  "TransformBank_load cd swf =
     (case readUInt16 (buffer swf) of
        Inl e \<Rightarrow> Inl e
      | Inr (matricesCount, b1) \<Rightarrow>
     (case readUInt16 b1 of
        Inl e \<Rightarrow> Inl e
      | Inr (colorsCount, b2) \<Rightarrow>
          Inr (swf\<lparr>buffer := b2,
                   banks := banks swf @
                     [\<lparr>matrices = replicate matricesCount (newMatrix cd),
                       colors = replicate colorsCount (newColor cd)\<rparr>]\<rparr>)))"

definition TransformBank_counts :: "('m, 'c) TransformBank \<Rightarrow> byte list" where
  "TransformBank_counts bank =
     writeUInt16 (length (matrices bank)) @ writeUInt16 (length (colors bank))"

definition TransformBank_save :: "('m, 'c) TransformBank \<Rightarrow> bool \<Rightarrow> byte list" where
  "TransformBank_save bank isTag =
     (if isTag then saveTag 42 (TransformBank_counts bank) else TransformBank_counts bank)"

text \<open>
  Modelled from the spec: \<^verbatim>\<open>Exports\<close> (\<^verbatim>\<open>./exports\<close>) is not among the sources. By
  section 4.6 the exports table is \<^verbatim>\<open>u16 count\<close>, then \<^verbatim>\<open>count\<close> ids as \<^verbatim>\<open>u16\<close>, then
  \<^verbatim>\<open>count\<close> length-prefixed ASCII names; the i-th name belongs to the i-th id.
\<close>

fun readIds :: "nat \<Rightarrow> byte list \<Rightarrow> error + nat list \<times> byte list" where
  "readIds 0 b = Inr ([], b)"
| "readIds (Suc n) b =
     (case readUInt16 b of
        Inl e \<Rightarrow> Inl e
      | Inr (i, r) \<Rightarrow>
          (case readIds n r of Inl e \<Rightarrow> Inl e | Inr (is, r') \<Rightarrow> Inr (i # is, r')))"

fun readNames :: "nat \<Rightarrow> byte list \<Rightarrow> error + string list \<times> byte list" where
  "readNames 0 b = Inr ([], b)"
| "readNames (Suc n) b =
     (case readASCII b of
        Inl e \<Rightarrow> Inl e
      | Inr (a, r) \<Rightarrow>
          (case readNames n r of Inl e \<Rightarrow> Inl e | Inr (as, r') \<Rightarrow> Inr (a # as, r')))"

definition Exports_load ::
  "('r, 'm, 'c) SupercellSWF \<Rightarrow> error + ('r, 'm, 'c) SupercellSWF"
where
  "Exports_load swf =
     (case readUInt16 (buffer swf) of
        Inl e \<Rightarrow> Inl e
      | Inr (n, b1) \<Rightarrow>
     (case readIds n b1 of
        Inl e \<Rightarrow> Inl e
      | Inr (ids, b2) \<Rightarrow>
     (case readNames n b2 of
        Inl e \<Rightarrow> Inl e
      | Inr (names, b3) \<Rightarrow>
          Inr (swf\<lparr>buffer := b3, exports := exports swf @ zip ids names\<rparr>))))"

definition Exports_save :: "(nat \<times> string) list \<Rightarrow> byte list" where
  "Exports_save ex =
     writeUInt16 (length ex) @ concat (map (\<lambda>(i, a). writeUInt16 i) ex) @
     concat (map (\<lambda>(i, a). writeASCII a) ex)"

subsection \<open>\<^verbatim>\<open>parseTags\<close>\<close>

text \<open>The local variables of \<^verbatim>\<open>parseTags\<close>, with their initial values.\<close>

record ParseState =
  hasTextureData :: bool
  shapesLoaded :: nat
  movieclipsLoaded :: nat
  textfieldsLoaded :: nat
  modifiersLoaded :: nat
  banksLoaded :: nat
  matricesLoaded :: nat
  colorsLoaded :: nat
  texturesLoaded :: nat

definition initialParseState :: ParseState where
  "initialParseState =
     \<lparr>hasTextureData = True, shapesLoaded = 0, movieclipsLoaded = 0, textfieldsLoaded = 0,
      modifiersLoaded = 0, banksLoaded = 0, matricesLoaded = 0, colorsLoaded = 0,
      texturesLoaded = 0\<rparr>"

text \<open>
  \<^verbatim>\<open>new Shape().load(tag, this)\<close> and its three siblings: the record is decoded from
  the payload and stored under its id in \<^verbatim>\<open>swf.resources\<close>.
\<close>

definition loadRecord ::
  "('r, 'm, 'c) Codecs \<Rightarrow> ResourceKind \<Rightarrow> nat \<Rightarrow> int \<Rightarrow> ('r, 'm, 'c) SupercellSWF \<Rightarrow>
   error + ('r, 'm, 'c) SupercellSWF"
where
  "loadRecord cd k tag tagLength swf =
     (case payloadOf tagLength (buffer swf) of
        Inl e \<Rightarrow> Inl e
      | Inr (payload, r) \<Rightarrow>
          (case loadResource cd k tag payload of
             Inl e \<Rightarrow> Inl e
           | Inr (i, x) \<Rightarrow>
               Inr (swf\<lparr>buffer := r, resources := AList.update i x (resources swf)\<rparr>)))"

text \<open>
  The arms of the \<^verbatim>\<open>switch (tag)\<close>, entered after the tag id and the length have been
  read. The result of an arm is the value of \<^verbatim>\<open>read\<close>, the locals and the document.
\<close>

type_synonym ('r, 'm, 'c) turn = "error + bool \<times> ParseState \<times> ('r, 'm, 'c) SupercellSWF"

text \<open>
  \<^verbatim>\<open>case 1: case 16: case 19: case 24: case 27: case 28: case 29: case 34\<close>. The
  receiver is \<^verbatim>\<open>this.textures[texturesLoaded]\<close> when that slot holds a texture, a
  \<^verbatim>\<open>new Texture()\<close> otherwise; no count is compared.
\<close>

definition caseTexture ::
  "nat \<Rightarrow> ParseState \<Rightarrow> ('r, 'm, 'c) SupercellSWF \<Rightarrow> ('r, 'm, 'c) turn"
where
  "caseTexture tag st swf =
     (case Texture_load tag swf (hasTextureData st)
             (if texturesLoaded st < length (textures swf) then Some (texturesLoaded st)
              else None) of
        Inl e \<Rightarrow> Inl e
      | Inr swf' \<Rightarrow> Inr (True, st\<lparr>texturesLoaded := texturesLoaded st + 1\<rparr>, swf'))"

text \<open>\<^verbatim>\<open>case 32\<close>: both strings are read; they replace the postfixes when both are
  non-empty (\<^verbatim>\<open>if (highresPostfix && lowresPostfix)\<close>).\<close>

definition casePostfix ::
  "ParseState \<Rightarrow> ('r, 'm, 'c) SupercellSWF \<Rightarrow> ('r, 'm, 'c) turn"
where
  "casePostfix st swf =
     (case readASCII (buffer swf) of
        Inl e \<Rightarrow> Inl e
      | Inr (highres, b1) \<Rightarrow>
     (case readASCII b1 of
        Inl e \<Rightarrow> Inl e
      | Inr (lowres, b2) \<Rightarrow>
          if highres \<noteq> [] \<and> lowres \<noteq> []
          then Inr (True, st, swf\<lparr>buffer := b2, highresPostfix := highres,
                                   lowresPostfix := lowres\<rparr>)
          else Inr (True, st, swf\<lparr>buffer := b2\<rparr>)))"

text \<open>\<^verbatim>\<open>case 2: case 18\<close>: the count check comes first, then the load, then the
  increment.\<close>

definition caseShape ::
  "('r, 'm, 'c) Codecs \<Rightarrow> nat \<Rightarrow> int \<Rightarrow> ParseState \<Rightarrow> ('r, 'm, 'c) SupercellSWF \<Rightarrow>
   ('r, 'm, 'c) turn"
where
  "caseShape cd tag tagLength st swf =
     (if shapesLoaded st \<ge> shapeCount swf then Inl (CountOverflow ShapeKind)
      else (case loadRecord cd ShapeKind tag tagLength swf of
              Inl e \<Rightarrow> Inl e
            | Inr swf' \<Rightarrow> Inr (True, st\<lparr>shapesLoaded := shapesLoaded st + 1\<rparr>, swf')))"

definition caseMovieClip ::
  "('r, 'm, 'c) Codecs \<Rightarrow> nat \<Rightarrow> int \<Rightarrow> ParseState \<Rightarrow> ('r, 'm, 'c) SupercellSWF \<Rightarrow>
   ('r, 'm, 'c) turn"
where
  "caseMovieClip cd tag tagLength st swf =
     (if movieclipsLoaded st \<ge> movieClipsCount swf then Inl (CountOverflow MovieClipKind)
      else (case loadRecord cd MovieClipKind tag tagLength swf of
              Inl e \<Rightarrow> Inl e
            | Inr swf' \<Rightarrow> Inr (True, st\<lparr>movieclipsLoaded := movieclipsLoaded st + 1\<rparr>, swf')))"

definition caseTextField ::
  "('r, 'm, 'c) Codecs \<Rightarrow> nat \<Rightarrow> int \<Rightarrow> ParseState \<Rightarrow> ('r, 'm, 'c) SupercellSWF \<Rightarrow>
   ('r, 'm, 'c) turn"
where
  "caseTextField cd tag tagLength st swf =
     (if textfieldsLoaded st \<ge> textFieldsCount swf then Inl (CountOverflow TextFieldKind)
      else (case loadRecord cd TextFieldKind tag tagLength swf of
              Inl e \<Rightarrow> Inl e
            | Inr swf' \<Rightarrow> Inr (True, st\<lparr>textfieldsLoaded := textfieldsLoaded st + 1\<rparr>, swf')))"

definition caseModifier ::
  "('r, 'm, 'c) Codecs \<Rightarrow> nat \<Rightarrow> int \<Rightarrow> ParseState \<Rightarrow> ('r, 'm, 'c) SupercellSWF \<Rightarrow>
   ('r, 'm, 'c) turn"
where
  "caseModifier cd tag tagLength st swf =
     (if modifiersLoaded st \<ge> modifiersCount swf then Inl (CountOverflow ModifierKind)
      else (case loadRecord cd ModifierKind tag tagLength swf of
              Inl e \<Rightarrow> Inl e
            | Inr swf' \<Rightarrow> Inr (True, st\<lparr>modifiersLoaded := modifiersLoaded st + 1\<rparr>, swf')))"

text \<open>\<^verbatim>\<open>case 8: case 36\<close> and \<^verbatim>\<open>case 9\<close>:
  \<^verbatim>\<open>this.banks[banksLoaded].matrices[matricesLoaded].load(tag, this)\<close> raises a
  \<open>TypeError\<close> when the bank or the slot is missing.\<close>

definition caseMatrix ::
  "('r, 'm, 'c) Codecs \<Rightarrow> nat \<Rightarrow> int \<Rightarrow> ParseState \<Rightarrow> ('r, 'm, 'c) SupercellSWF \<Rightarrow>
   ('r, 'm, 'c) turn"
where
  "caseMatrix cd tag tagLength st swf =
     (if \<not> banksLoaded st < length (banks swf) then Inl TypeError
      else if \<not> matricesLoaded st < length (matrices (banks swf ! banksLoaded st))
      then Inl TypeError
      else
        (case payloadOf tagLength (buffer swf) of
           Inl e \<Rightarrow> Inl e
         | Inr (payload, r) \<Rightarrow>
        (case loadMatrix cd tag payload of
           Inl e \<Rightarrow> Inl e
         | Inr m \<Rightarrow>
             let bank = banks swf ! banksLoaded st in
             Inr (True, st\<lparr>matricesLoaded := matricesLoaded st + 1\<rparr>,
                  swf\<lparr>buffer := r,
                      banks := (banks swf)
                        [banksLoaded st :=
                           bank\<lparr>matrices := (matrices bank)[matricesLoaded st := m]\<rparr>]\<rparr>))))"

definition caseColor ::
  "('r, 'm, 'c) Codecs \<Rightarrow> nat \<Rightarrow> int \<Rightarrow> ParseState \<Rightarrow> ('r, 'm, 'c) SupercellSWF \<Rightarrow>
   ('r, 'm, 'c) turn"
where
  "caseColor cd tag tagLength st swf =
     (if \<not> banksLoaded st < length (banks swf) then Inl TypeError
      else if \<not> colorsLoaded st < length (colors (banks swf ! banksLoaded st))
      then Inl TypeError
      else
        (case payloadOf tagLength (buffer swf) of
           Inl e \<Rightarrow> Inl e
         | Inr (payload, r) \<Rightarrow>
        (case loadColor cd tag payload of
           Inl e \<Rightarrow> Inl e
         | Inr c \<Rightarrow>
             let bank = banks swf ! banksLoaded st in
             Inr (True, st\<lparr>colorsLoaded := colorsLoaded st + 1\<rparr>,
                  swf\<lparr>buffer := r,
                      banks := (banks swf)
                        [banksLoaded st :=
                           bank\<lparr>colors := (colors bank)[colorsLoaded st := c]\<rparr>]\<rparr>))))"

text \<open>\<^verbatim>\<open>case 37\<close>: \<^verbatim>\<open>this._modifiersCount = this.buffer.readUInt16()\<close>.\<close>

definition caseModifiersCount ::
  "ParseState \<Rightarrow> ('r, 'm, 'c) SupercellSWF \<Rightarrow> ('r, 'm, 'c) turn"
where
  "caseModifiersCount st swf =
     (case readUInt16 (buffer swf) of
        Inl e \<Rightarrow> Inl e
      | Inr (n, b1) \<Rightarrow> Inr (True, st, swf\<lparr>buffer := b1, modifiersCount := n\<rparr>))"

text \<open>\<^verbatim>\<open>case 42\<close>: a new bank is loaded and the matrix and colour indices restart.\<close>

definition caseBank ::
  "('r, 'm, 'c) Codecs \<Rightarrow> ParseState \<Rightarrow> ('r, 'm, 'c) SupercellSWF \<Rightarrow> ('r, 'm, 'c) turn"
where
  "caseBank cd st swf =
     (case TransformBank_load cd swf of
        Inl e \<Rightarrow> Inl e
      | Inr swf' \<Rightarrow>
          Inr (True, st\<lparr>matricesLoaded := 0, colorsLoaded := 0,
                        banksLoaded := banksLoaded st + 1\<rparr>, swf'))"

text \<open>\<^verbatim>\<open>default\<close>: \<^verbatim>\<open>this.buffer.skip(tagLength)\<close>.\<close>

definition caseDefault ::
  "int \<Rightarrow> ParseState \<Rightarrow> ('r, 'm, 'c) SupercellSWF \<Rightarrow> ('r, 'm, 'c) turn"
where
  "caseDefault tagLength st swf =
     (case skip tagLength (buffer swf) of
        Inl e \<Rightarrow> Inl e
      | Inr r \<Rightarrow> Inr (True, st, swf\<lparr>buffer := r\<rparr>))"

text \<open>The \<^verbatim>\<open>switch (tag)\<close> itself, its labels in the order of the source.\<close>

definition switchTag ::
  "('r, 'm, 'c) Codecs \<Rightarrow> nat \<Rightarrow> int \<Rightarrow> ParseState \<Rightarrow> ('r, 'm, 'c) SupercellSWF \<Rightarrow>
   ('r, 'm, 'c) turn"
where
  "switchTag cd tag tagLength st swf =
     (if tag = 0 then Inr (False, st, swf)
      else if tag \<in> set [1, 16, 19, 24, 27, 28, 29, 34] then caseTexture tag st swf
      else if tag = 23 then Inr (True, st, swf\<lparr>useLowresTexture := True\<rparr>)
      else if tag = 26 then
        Inr (True, st\<lparr>hasTextureData := False\<rparr>, swf\<lparr>hasExternalTexture := True\<rparr>)
      else if tag = 30 then Inr (True, st, swf\<lparr>useUncommonTexture := True\<rparr>)
      else if tag = 32 then casePostfix st swf
      else if tag \<in> set [2, 18] then caseShape cd tag tagLength st swf
      else if tag \<in> set [3, 10, 12, 14, 35] then caseMovieClip cd tag tagLength st swf
      else if tag \<in> set [7, 15, 20, 21, 25, 33, 43, 44] then
        caseTextField cd tag tagLength st swf
      else if tag \<in> set [8, 36] then caseMatrix cd tag tagLength st swf
      else if tag = 9 then caseColor cd tag tagLength st swf
      else if tag = 37 then caseModifiersCount st swf
      else if tag \<in> set [38, 39, 40] then caseModifier cd tag tagLength st swf
      else if tag = 42 then caseBank cd st swf
      else caseDefault tagLength st swf)"

text \<open>
  One turn of \<^verbatim>\<open>while (read)\<close>: \<^verbatim>\<open>tag = readUInt8()\<close>, \<^verbatim>\<open>tagLength = readInt32()\<close>, then
  the switch.
\<close>

definition parseTag ::
  "('r, 'm, 'c) Codecs \<Rightarrow> ParseState \<Rightarrow> ('r, 'm, 'c) SupercellSWF \<Rightarrow> ('r, 'm, 'c) turn"
where
  "parseTag cd st swf =
     (case readUInt8 (buffer swf) of
        Inl e \<Rightarrow> Inl e
      | Inr (tag, b1) \<Rightarrow>
     (case readInt32 b1 of
        Inl e \<Rightarrow> Inl e
      | Inr (tagLength, b2) \<Rightarrow> switchTag cd tag tagLength st (swf\<lparr>buffer := b2\<rparr>)))"

text \<open>
  The loop \<^verbatim>\<open>while (read)\<close>. Every turn reads the five bytes of a tag header and no
  arm gives bytes back, so the unread part of the buffer gets shorter and the loop
  ends.
\<close>

lemma readUInt8_shrinks: "readUInt8 b = Inr (v, r) \<Longrightarrow> length r < length b"
  by (auto simp: readUInt8_def split: list.splits)

lemma readUInt16_shrinks: "readUInt16 b = Inr (v, r) \<Longrightarrow> length r < length b"
  by (auto simp: readUInt16_def split: list.splits)

lemma readInt32_shrinks: "readInt32 b = Inr (v, r) \<Longrightarrow> length r < length b"
  by (auto simp: readInt32_def Let_def split: list.splits)

lemma readBytes_shrinks: "readBytes n b = Inr (v, r) \<Longrightarrow> length r \<le> length b"
  by (auto simp: readBytes_def split: if_splits)

lemma readASCII_shrinks: "readASCII b = Inr (v, r) \<Longrightarrow> length r < length b"
  by (auto simp: readASCII_def split: sum.splits if_splits
      dest!: readUInt8_shrinks readBytes_shrinks)

lemma skip_shrinks: "skip n b = Inr r \<Longrightarrow> length r \<le> length b"
  by (auto simp: skip_def split: if_splits)

lemma payloadOf_shrinks: "payloadOf n b = Inr (v, r) \<Longrightarrow> length r \<le> length b"
  by (auto simp: payloadOf_def split: if_splits dest: readBytes_shrinks)

lemma readPixel_shrinks: "readPixel fmt b = Inr (v, r) \<Longrightarrow> length r \<le> length b"
  by (auto simp: readPixel_def split: sum.splits dest: readBytes_shrinks)

lemma load_pixels_shrinks:
  "load_pixels fmt cs img b = Inr (img', r) \<Longrightarrow> length r \<le> length b"
proof (induction cs arbitrary: img b)
  case Nil
  then show ?case by simp
next
  case (Cons c cs)
  obtain x y where c: "c = (x, y)" by (cases c)
  from Cons.prems c obtain p r0 where
    rp: "readPixel fmt b = Inr (p, r0)" and
    rest: "load_pixels fmt cs (setPixelXY img x y p) r0 = Inr (img', r)"
    by (auto split: sum.splits)
  from Cons.IH [OF rest] readPixel_shrinks [OF rp] show ?case by simp
qed

lemma Texture_load_shrinks:
  "Texture_load tag swf hasData slot = Inr swf' \<Longrightarrow> length (buffer swf') \<le> length (buffer swf)"
  unfolding Texture_load_def Let_def
  by (auto split: sum.splits if_splits prod.splits
      dest!: readUInt8_shrinks readUInt16_shrinks load_pixels_shrinks)

lemma TransformBank_load_shrinks:
  "TransformBank_load cd swf = Inr swf' \<Longrightarrow> length (buffer swf') \<le> length (buffer swf)"
  unfolding TransformBank_load_def
  by (auto split: sum.splits dest!: readUInt16_shrinks)

lemma loadRecord_shrinks:
  "loadRecord cd k tag n swf = Inr swf' \<Longrightarrow> length (buffer swf') \<le> length (buffer swf)"
  unfolding loadRecord_def
  by (auto split: sum.splits dest!: payloadOf_shrinks)


lemma caseTexture_shrinks:
  "caseTexture tag st swf = Inr (c, st', swf') \<Longrightarrow> length (buffer swf') \<le> length (buffer swf)"
  unfolding caseTexture_def by (auto split: sum.splits dest!: Texture_load_shrinks)

lemma casePostfix_shrinks:
  "casePostfix st swf = Inr (c, st', swf') \<Longrightarrow> length (buffer swf') \<le> length (buffer swf)"
  unfolding casePostfix_def
  by (auto split: sum.splits if_splits dest!: readASCII_shrinks)

lemma caseShape_shrinks:
  "caseShape cd tag n st swf = Inr (c, st', swf') \<Longrightarrow> length (buffer swf') \<le> length (buffer swf)"
  unfolding caseShape_def by (auto split: sum.splits if_splits dest!: loadRecord_shrinks)

lemma caseMovieClip_shrinks:
  "caseMovieClip cd tag n st swf = Inr (c, st', swf') \<Longrightarrow> length (buffer swf') \<le> length (buffer swf)"
  unfolding caseMovieClip_def by (auto split: sum.splits if_splits dest!: loadRecord_shrinks)

lemma caseTextField_shrinks:
  "caseTextField cd tag n st swf = Inr (c, st', swf') \<Longrightarrow> length (buffer swf') \<le> length (buffer swf)"
  unfolding caseTextField_def by (auto split: sum.splits if_splits dest!: loadRecord_shrinks)

lemma caseModifier_shrinks:
  "caseModifier cd tag n st swf = Inr (c, st', swf') \<Longrightarrow> length (buffer swf') \<le> length (buffer swf)"
  unfolding caseModifier_def by (auto split: sum.splits if_splits dest!: loadRecord_shrinks)

lemma caseMatrix_shrinks:
  "caseMatrix cd tag n st swf = Inr (c, st', swf') \<Longrightarrow> length (buffer swf') \<le> length (buffer swf)"
  unfolding caseMatrix_def Let_def
  by (auto split: sum.splits if_splits dest!: payloadOf_shrinks)

lemma caseColor_shrinks:
  "caseColor cd tag n st swf = Inr (c, st', swf') \<Longrightarrow> length (buffer swf') \<le> length (buffer swf)"
  unfolding caseColor_def Let_def
  by (auto split: sum.splits if_splits dest!: payloadOf_shrinks)

lemma caseModifiersCount_shrinks:
  "caseModifiersCount st swf = Inr (c, st', swf') \<Longrightarrow> length (buffer swf') \<le> length (buffer swf)"
  unfolding caseModifiersCount_def
  by (auto split: sum.splits dest!: readUInt16_shrinks)

lemma caseBank_shrinks:
  "caseBank cd st swf = Inr (c, st', swf') \<Longrightarrow> length (buffer swf') \<le> length (buffer swf)"
  unfolding caseBank_def by (auto split: sum.splits dest!: TransformBank_load_shrinks)

lemma caseDefault_shrinks:
  "caseDefault n st swf = Inr (c, st', swf') \<Longrightarrow> length (buffer swf') \<le> length (buffer swf)"
  unfolding caseDefault_def by (auto split: sum.splits dest!: skip_shrinks)

lemmas case_shrinks =
  caseTexture_shrinks casePostfix_shrinks caseShape_shrinks caseMovieClip_shrinks
  caseTextField_shrinks caseModifier_shrinks caseMatrix_shrinks caseColor_shrinks
  caseModifiersCount_shrinks caseBank_shrinks caseDefault_shrinks

lemma switchTag_shrinks:
  assumes "switchTag cd tag n st swf = Inr (c, st', swf')"
  shows "length (buffer swf') \<le> length (buffer swf)"
proof -
  have "switchTag cd tag n st swf = Inr (False, st, swf)
      \<or> switchTag cd tag n st swf = caseTexture tag st swf
      \<or> switchTag cd tag n st swf = Inr (True, st, swf\<lparr>useLowresTexture := True\<rparr>)
      \<or> switchTag cd tag n st swf =
          Inr (True, st\<lparr>hasTextureData := False\<rparr>, swf\<lparr>hasExternalTexture := True\<rparr>)
      \<or> switchTag cd tag n st swf = Inr (True, st, swf\<lparr>useUncommonTexture := True\<rparr>)
      \<or> switchTag cd tag n st swf = casePostfix st swf
      \<or> switchTag cd tag n st swf = caseShape cd tag n st swf
      \<or> switchTag cd tag n st swf = caseMovieClip cd tag n st swf
      \<or> switchTag cd tag n st swf = caseTextField cd tag n st swf
      \<or> switchTag cd tag n st swf = caseMatrix cd tag n st swf
      \<or> switchTag cd tag n st swf = caseColor cd tag n st swf
      \<or> switchTag cd tag n st swf = caseModifiersCount st swf
      \<or> switchTag cd tag n st swf = caseModifier cd tag n st swf
      \<or> switchTag cd tag n st swf = caseBank cd st swf
      \<or> switchTag cd tag n st swf = caseDefault n st swf"
    unfolding switchTag_def by presburger
  with assms show ?thesis
    by (elim disjE) (auto dest: case_shrinks)
qed

lemma parseTag_shrinks:
  "parseTag cd st swf = Inr (c, st', swf') \<Longrightarrow> length (buffer swf') < length (buffer swf)"
  unfolding parseTag_def
  by (auto split: sum.splits dest!: switchTag_shrinks readUInt8_shrinks readInt32_shrinks)

function parseTags_loop ::
  "('r, 'm, 'c) Codecs \<Rightarrow> ParseState \<Rightarrow> ('r, 'm, 'c) SupercellSWF \<Rightarrow>
   error + ('r, 'm, 'c) SupercellSWF"
where
  "parseTags_loop cd st swf =
     (case parseTag cd st swf of
        Inl e \<Rightarrow> Inl e
      | Inr (read, st', swf') \<Rightarrow> if read then parseTags_loop cd st' swf' else Inr swf')"
  by pat_completeness auto
termination
  by (relation "measure (\<lambda>(cd, st, swf). length (buffer swf))")
     (auto dest: parseTag_shrinks)


definition parseTags ::
  "('r, 'm, 'c) Codecs \<Rightarrow> ('r, 'm, 'c) SupercellSWF \<Rightarrow> error + ('r, 'm, 'c) SupercellSWF"
where
  "parseTags cd swf = parseTags_loop cd initialParseState swf"

subsection \<open>Loading\<close>

text \<open>
  The files on disk: a partial map from paths to files. \<^verbatim>\<open>fs.existsSync\<close> asks whether
  a path is in its domain.
\<close>

type_synonym FileSystem = "string \<Rightarrow> ScFile option"

definition existsSync :: "FileSystem \<Rightarrow> string \<Rightarrow> bool" where
  "existsSync files path = (files path \<noteq> None)"

text \<open>\<^verbatim>\<open>path.split('.').slice(0, -1).join('.')\<close>.\<close>

fun split :: "char \<Rightarrow> string \<Rightarrow> string list" where
  "split c [] = [[]]"
| "split c (x # xs) =
     (if x = c then [] # split c xs
      else (case split c xs of [] \<Rightarrow> [[x]] | w # ws \<Rightarrow> (x # w) # ws))"

fun join :: "char \<Rightarrow> string list \<Rightarrow> string" where
  "join c [] = []"
| "join c [w] = w"
| "join c (w # ws) = w @ c # join c ws"

definition withoutExtension :: "string \<Rightarrow> string" where
  "withoutExtension path = join (CHR ''.'') (butlast (split (CHR ''.'') path))"

text \<open>
  \<^verbatim>\<open>loadAsset(path)\<close>: the file is decompressed, the header is read (the texture count
  allocates that many \<^verbatim>\<open>new Texture()\<close>), then the first bank, five reserved bytes, the
  exports and the tags.
\<close>

definition loadAsset ::
  "('r, 'm, 'c) Codecs \<Rightarrow> FileSystem \<Rightarrow> string \<Rightarrow> ('r, 'm, 'c) SupercellSWF \<Rightarrow>
   error + ('r, 'm, 'c) SupercellSWF"
where
  "loadAsset cd files path swf =
     (case files path of
        None \<Rightarrow> Inl FileNotFound
      | Some file \<Rightarrow>
     (case readUInt16 (snd (fromCompressed file)) of
        Inl e \<Rightarrow> Inl e
      | Inr (shapes, b1) \<Rightarrow>
     (case readUInt16 b1 of
        Inl e \<Rightarrow> Inl e
      | Inr (movieClips, b2) \<Rightarrow>
     (case readUInt16 b2 of
        Inl e \<Rightarrow> Inl e
      | Inr (texturesCount, b3) \<Rightarrow>
     (case readUInt16 b3 of
        Inl e \<Rightarrow> Inl e
      | Inr (textFields, b4) \<Rightarrow>
     (case TransformBank_load cd
             (swf\<lparr>buffer := b4, compression := fst (fromCompressed file),
                  shapeCount := shapes, movieClipsCount := movieClips,
                  textures := replicate texturesCount newTexture,
                  textFieldsCount := textFields\<rparr>) of
        Inl e \<Rightarrow> Inl e
      | Inr swf1 \<Rightarrow>
     (case skip 5 (buffer swf1) of
        Inl e \<Rightarrow> Inl e
      | Inr b5 \<Rightarrow>
     (case Exports_load (swf1\<lparr>buffer := b5\<rparr>) of
        Inl e \<Rightarrow> Inl e
      | Inr swf2 \<Rightarrow> parseTags cd swf2))))))))"

text \<open>\<^verbatim>\<open>loadExternalTexture(path)\<close>: the tags of the texture file are parsed into the
  same document; the buffer is cleared afterwards.\<close>

definition loadExternalTexture ::
  "('r, 'm, 'c) Codecs \<Rightarrow> FileSystem \<Rightarrow> string \<Rightarrow> ('r, 'm, 'c) SupercellSWF \<Rightarrow>
   error + ('r, 'm, 'c) SupercellSWF"
where
  "loadExternalTexture cd files path swf =
     (case files path of
        None \<Rightarrow> Inl FileNotFound
      | Some file \<Rightarrow>
          (case parseTags cd (swf\<lparr>buffer := snd (fromCompressed file)\<rparr>) of
             Inl e \<Rightarrow> Inl e
           | Inr swf' \<Rightarrow> Inr (swf'\<lparr>buffer := []\<rparr>)))"

text \<open>
  The choice of the texture file in \<^verbatim>\<open>load\<close>: \<^verbatim>\<open>texturePath\<close> stays \<^verbatim>\<open>undefined\<close>
  (\<open>None\<close>) when no branch assigns it.
\<close>

definition texturePath ::
  "FileSystem \<Rightarrow> string \<Rightarrow> ('r, 'm, 'c) SupercellSWF \<Rightarrow> string option"
where
  "texturePath files path swf =
     (let commonPath = withoutExtension path @ ''_tex.sc'';
          lowresPath = withoutExtension path @ lowresPostfix swf @ ''_tex.sc'';
          highresPath = withoutExtension path @ highresPostfix swf @ ''_tex.sc''
      in
        if useUncommonTexture swf then
          (if existsSync files highresPath then Some highresPath
           else if existsSync files lowresPath then Some lowresPath
           else None)
        else if existsSync files commonPath then Some commonPath
        else None)"

definition load ::
  "('r, 'm, 'c) Codecs \<Rightarrow> FileSystem \<Rightarrow> string \<Rightarrow> ('r, 'm, 'c) SupercellSWF \<Rightarrow>
   error + ('r, 'm, 'c) SupercellSWF"
where
  "load cd files path swf =
     (case loadAsset cd files path swf of
        Inl e \<Rightarrow> Inl e
      | Inr swf' \<Rightarrow>
          if hasExternalTexture swf' then
            (case texturePath files path swf' of
               None \<Rightarrow> Inl MissingExternalTexture
             | Some p \<Rightarrow> loadExternalTexture cd files p swf')
          else Inr swf')"

subsection \<open>Saving\<close>

text \<open>
  \<^verbatim>\<open>Object.entries(this.resources)\<close> enumerates the ids in ascending order; the
  \<^verbatim>\<open>instanceof\<close> chain sorts each id into one of four lists.
\<close>

definition idsOfKind ::
  "('r, 'm, 'c) Codecs \<Rightarrow> ResourceKind \<Rightarrow> (nat \<times> 'r) list \<Rightarrow> nat list"
where
  "idsOfKind cd k rs = map fst (filter (\<lambda>(i, x). kindOf cd x = k) (sort_key fst rs))"

text \<open>\<^verbatim>\<open>for (const id of ids) this.resources[id].save(id, this)\<close>.\<close>

definition saveRecords ::
  "('r, 'm, 'c) Codecs \<Rightarrow> (nat \<times> 'r) list \<Rightarrow> nat list \<Rightarrow> byte list"
where
  "saveRecords cd rs ids =
     concat (map (\<lambda>i. case map_of rs i of
                         None \<Rightarrow> []
                       | Some x \<Rightarrow> saveTag (fst (saveResource cd i x)) (snd (saveResource cd i x)))
                 ids)"

text \<open>The loop over \<^verbatim>\<open>this.banks\<close>: tag 42 for every bank but the first, then the
  matrices, then the colours.\<close>

definition saveBanks ::
  "('r, 'm, 'c) Codecs \<Rightarrow> ('m, 'c) TransformBank list \<Rightarrow> byte list"
where
  "saveBanks cd bs =
     concat (map (\<lambda>(bankIndex, bank).
                    (if bankIndex > 0 then TransformBank_save bank True else []) @
                    concat (map (\<lambda>m. saveTag (fst (saveMatrix cd m)) (snd (saveMatrix cd m)))
                                (matrices bank)) @
                    concat (map (\<lambda>c. saveTag (fst (saveColor cd c)) (snd (saveColor cd c)))
                                (colors bank)))
                 (enumerate 0 bs))"

text \<open>\<^verbatim>\<open>for (const texture of this.textures) texture.save(this, hasData, isLowres)\<close>:
  the textures after the loop and the bytes appended.\<close>

definition saveTextures ::
  "(Image \<Rightarrow> Image) \<Rightarrow> bool \<Rightarrow> bool \<Rightarrow> Texture list \<Rightarrow> Texture list \<times> byte list"
where
  "saveTextures resize hasData isLowres ts =
     (map (\<lambda>t. fst (Texture_save resize t hasData isLowres)) ts,
      concat (map (\<lambda>t. snd (Texture_save resize t hasData isLowres)) ts))"

text \<open>The postfix tag of \<^verbatim>\<open>saveAsset\<close>, written under the condition
  \<^verbatim>\<open>useUncommonTexture && highresPostfix !== '_highres' && lowresPostfix !== '_lowres'\<close>.\<close>

definition writesPostfixTag :: "('r, 'm, 'c) SupercellSWF \<Rightarrow> bool" where
  "writesPostfixTag swf =
     (useUncommonTexture swf \<and> highresPostfix swf \<noteq> ''_highres'' \<and>
      lowresPostfix swf \<noteq> ''_lowres'')"

definition savePostfixTag :: "('r, 'm, 'c) SupercellSWF \<Rightarrow> byte list" where
  "savePostfixTag swf =
     (if writesPostfixTag swf
      then saveTag 32 (writeASCII (highresPostfix swf) @ writeASCII (lowresPostfix swf))
      else [])"

text \<open>The bytes \<^verbatim>\<open>saveAsset\<close> has put into \<^verbatim>\<open>this.buffer\<close> when it compresses it.\<close>

definition saveAsset_buffer :: "('r, 'm, 'c) Codecs \<Rightarrow> ('r, 'm, 'c) SupercellSWF \<Rightarrow> byte list" where
  "saveAsset_buffer cd swf =
     (let movieClipModifierIds = idsOfKind cd ModifierKind (resources swf);
          shapeIds = idsOfKind cd ShapeKind (resources swf);
          textFieldIds = idsOfKind cd TextFieldKind (resources swf);
          movieClipIds = idsOfKind cd MovieClipKind (resources swf);
          bank = (if length (banks swf) > 0 then banks swf ! 0
                  else \<lparr>matrices = [], colors = []\<rparr>)
      in
        writeUInt16 (length shapeIds) @
        writeUInt16 (length movieClipIds) @
        writeUInt16 (length (textures swf)) @
        writeUInt16 (length textFieldIds) @
        TransformBank_save bank False @
        fill 5 @
        Exports_save (exports swf) @
        savePostfixTag swf @
        (if useLowresTexture swf then saveTag 23 [] else []) @
        (if useUncommonTexture swf then saveTag 30 [] else []) @
        (if hasExternalTexture swf then saveTag 26 [] else []) @
        snd (saveTextures (resizeHalf cd) (\<not> hasExternalTexture swf) False (textures swf)) @
        (if length movieClipModifierIds > 0
         then saveTag 37 (writeUInt16 (length movieClipModifierIds)) else []) @
        saveRecords cd (resources swf) movieClipModifierIds @
        saveRecords cd (resources swf) shapeIds @
        saveRecords cd (resources swf) textFieldIds @
        saveBanks cd (banks swf) @
        saveRecords cd (resources swf) movieClipIds @
        saveTag 0 [])"

text \<open>
  \<^verbatim>\<open>saveAsset(path)\<close>: the document afterwards (the textures as \<^verbatim>\<open>Texture.save\<close> left
  them, the buffer cleared) and the files with the new file written.
\<close>

definition saveAsset ::
  "('r, 'm, 'c) Codecs \<Rightarrow> FileSystem \<Rightarrow> string \<Rightarrow> ('r, 'm, 'c) SupercellSWF \<Rightarrow>
   ('r, 'm, 'c) SupercellSWF \<times> FileSystem"
where
  "saveAsset cd files path swf =
     (swf\<lparr>textures :=
            fst (saveTextures (resizeHalf cd) (\<not> hasExternalTexture swf) False (textures swf)),
          buffer := []\<rparr>,
      files(path \<mapsto> toCompressed (compression swf) (saveAsset_buffer cd swf)))"

definition saveExternalTexture ::
  "('r, 'm, 'c) Codecs \<Rightarrow> FileSystem \<Rightarrow> string \<Rightarrow> bool \<Rightarrow> ('r, 'm, 'c) SupercellSWF \<Rightarrow>
   ('r, 'm, 'c) SupercellSWF \<times> FileSystem"
where
  "saveExternalTexture cd files path isLowres swf =
     (swf\<lparr>textures := fst (saveTextures (resizeHalf cd) True isLowres (textures swf)),
          buffer := []\<rparr>,
      files(path \<mapsto>
        toCompressed (compression swf)
          (snd (saveTextures (resizeHalf cd) True isLowres (textures swf)) @ saveTag 0 [])))"

definition save ::
  "('r, 'm, 'c) Codecs \<Rightarrow> FileSystem \<Rightarrow> string \<Rightarrow> ('r, 'm, 'c) SupercellSWF \<Rightarrow>
   ('r, 'm, 'c) SupercellSWF \<times> FileSystem"
where
  "save cd files path swf =
     (let (swf1, files1) = saveAsset cd files path swf in
        if hasExternalTexture swf1 then
          (let (swf2, files2) =
                 (if useUncommonTexture swf1
                  then saveExternalTexture cd files1
                         (withoutExtension path @ lowresPostfix swf1 @ ''_tex.sc'') True swf1
                  else (swf1, files1));
               externalPath =
                 (if useUncommonTexture swf1
                  then withoutExtension path @ highresPostfix swf2 @ ''_tex.sc''
                  else withoutExtension path @ ''_tex.sc'')
           in saveExternalTexture cd files2 externalPath False swf2)
        else (swf1, files1))"

section \<open>Streams of tags\<close>

text \<open>
  The vocabulary in which the theorems describe a byte stream and what loading it
  leaves behind.
\<close>

text \<open>
  \<open>setPixels\<close> is the image after \<^verbatim>\<open>setPixelXY\<close> has stored the i-th pixel of a list at
  the i-th coordinate of a traversal: what the loops of \<^verbatim>\<open>Texture.load\<close> leave behind
  when every read succeeds.
\<close>

fun setPixels :: "(nat \<times> nat) list \<Rightarrow> pixel list \<Rightarrow> Image \<Rightarrow> Image" where
  "setPixels ((x, y) # cs) (p # ps) img = setPixels cs ps (setPixelXY img x y p)"
| "setPixels cs ps img = img"

text \<open>
  A texture tag as it stands in a stream: its tag id, the pixel type index, width and
  height of its header, and the bytes of its pixels. It is well formed when the id is
  one of the eight texture ids, the index is inside \<open>PIXEL_FORMATS\<close>, width and height
  fit 16 bits and the pixel bytes are exactly those of \<open>width * height\<close> pixels of the
  format (none when the tag carries no pixel data).
\<close>

record TextureTag =
  tagId :: nat
  pixelTypeIndex :: nat
  tagWidth :: nat
  tagHeight :: nat
  pixelBytes :: "byte list"

definition textureBody :: "TextureTag \<Rightarrow> byte list" where
  "textureBody t =
     writeUInt8 (pixelTypeIndex t) @ writeUInt16 (tagWidth t) @ writeUInt16 (tagHeight t) @
     pixelBytes t"

definition textureTagBytes :: "TextureTag \<Rightarrow> byte list" where
  "textureTagBytes t = saveTag (tagId t) (textureBody t)"

definition wfTextureTag :: "bool \<Rightarrow> TextureTag \<Rightarrow> bool" where
  "wfTextureTag hasData t =
     (tagId t \<in> set [1, 16, 19, 24, 27, 28, 29, 34] \<and>
      pixelTypeIndex t < length PIXEL_FORMATS \<and>
      tagWidth t < 65536 \<and> tagHeight t < 65536 \<and>
      length (pixelBytes t) =
        (if hasData
         then tagWidth t * tagHeight t * bytesPerPixel (PIXEL_FORMATS ! pixelTypeIndex t)
         else 0) \<and>
      length (pixelBytes t) < 2147483643)"

text \<open>
  \<open>chunks k n bs\<close> cuts the first \<open>k\<close> runs of \<open>n\<close> bytes off \<open>bs\<close>. \<open>textureOf\<close> is
  the texture that a well-formed tag describes: the fields \<^verbatim>\<open>Texture.load\<close> derives
  from the tag id and the header, and the image with the decoded pixels stored along
  the traversal.
\<close>

fun chunks :: "nat \<Rightarrow> nat \<Rightarrow> 'a list \<Rightarrow> 'a list list" where
  "chunks 0 n bs = []"
| "chunks (Suc k) n bs = take n bs # chunks k n (drop n bs)"

definition textureOf :: "bool \<Rightarrow> TextureTag \<Rightarrow> Texture" where
  "textureOf hasData t =
     (let fmt = PIXEL_FORMATS ! pixelTypeIndex t;
          coords = (if load_linear (tagId t) then linear_coords (tagWidth t) (tagHeight t)
                    else block_coords (tagWidth t) (tagHeight t));
          blank = newImage (tagWidth t) (tagHeight t) (PIXEL_CHANNELS ! pixelTypeIndex t)
      in \<lparr>pixelFormat = fmt,
          magFilter = load_magFilter (tagId t),
          minFilter = load_minFilter (tagId t),
          linear = load_linear (tagId t),
          downscaling = load_downscaling (tagId t),
          image = (if hasData
                   then setPixels coords
                          (map (decodePixel fmt)
                             (chunks (length coords) (bytesPerPixel fmt) (pixelBytes t)))
                          blank
                   else blank)\<rparr>)"

text \<open>
  \<open>storeTextures\<close> is the list \<^verbatim>\<open>swf.textures\<close> after the textures \<open>ts\<close> have been loaded
  one after the other, the first of them as the texture number \<open>j\<close>: into its slot
  when the list has one, appended when it has none and the texture carries pixel data,
  dropped otherwise.
\<close>

fun storeTextures :: "bool \<Rightarrow> nat \<Rightarrow> Texture list \<Rightarrow> Texture list \<Rightarrow> Texture list" where
  "storeTextures hasData j [] xs = xs"
| "storeTextures hasData j (t # ts) xs =
     storeTextures hasData (j + 1) ts
       (if j < length xs then xs[j := t] else if hasData then xs @ [t] else xs)"

text \<open>
  Record tags as pairs of tag id and payload; \<open>tagBytes\<close> frames them. A shape tag has
  id 2 or 18 and a payload length that fits the signed 32-bit length field; it
  \<open>decodes\<close> when the record decoder accepts its payload. \<open>loadedResources\<close> is
  \<^verbatim>\<open>swf.resources\<close> after the records of a list of tags have been stored.
\<close>

definition tagBytes :: "(nat \<times> byte list) list \<Rightarrow> byte list" where
  "tagBytes ts = concat (map (\<lambda>(tag, p). saveTag tag p) ts)"

definition decodes :: "('r, 'm, 'c) Codecs \<Rightarrow> ResourceKind \<Rightarrow> nat \<times> byte list \<Rightarrow> bool" where
  "decodes cd k t = (case loadResource cd k (fst t) (snd t) of Inl e \<Rightarrow> False | Inr v \<Rightarrow> True)"

fun loadedResources ::
  "('r, 'm, 'c) Codecs \<Rightarrow> ResourceKind \<Rightarrow> (nat \<times> byte list) list \<Rightarrow> (nat \<times> 'r) list \<Rightarrow>
   (nat \<times> 'r) list"
where
  "loadedResources cd k [] rs = rs"
| "loadedResources cd k ((tag, p) # ts) rs =
     (case loadResource cd k tag p of
        Inl e \<Rightarrow> rs
      | Inr (i, x) \<Rightarrow> loadedResources cd k ts (AList.update i x rs))"

definition shapeTagHeader :: "nat \<times> byte list \<Rightarrow> bool" where
  "shapeTagHeader t = ((fst t = 2 \<or> fst t = 18) \<and> length (snd t) < 2147483648)"

definition shapeTag :: "('r, 'm, 'c) Codecs \<Rightarrow> nat \<times> byte list \<Rightarrow> bool" where
  "shapeTag cd t = (shapeTagHeader t \<and> decodes cd ShapeKind t)"

text \<open>
  The header of a file without matrices, colours and exports: the four counts, the
  two counts of the empty first bank, five reserved bytes, a zero export count.
\<close>

definition headerBytes :: "nat \<Rightarrow> nat \<Rightarrow> nat \<Rightarrow> nat \<Rightarrow> byte list" where
  "headerBytes shapes movieClips texturesCount textFields =
     writeUInt16 shapes @ writeUInt16 movieClips @ writeUInt16 texturesCount @
     writeUInt16 textFields @ writeUInt16 0 @ writeUInt16 0 @ fill 5 @ writeUInt16 0"

subsection \<open>Saved textures and documents\<close>

text \<open>
  The traversal a texture is written and read with: \<^verbatim>\<open>linear\<close> chooses between the two
  loops of \<^verbatim>\<open>Texture.save\<close>, and the \<^verbatim>\<open>linear\<close> that \<^verbatim>\<open>Texture.load\<close> derives from the tag
  id chooses between the same two loops there.
\<close>

definition traversal :: "bool \<Rightarrow> nat \<Rightarrow> nat \<Rightarrow> (nat \<times> nat) list" where
  "traversal lin w h = (if lin then linear_coords w h else block_coords w h)"

text \<open>
  The tag that \<^verbatim>\<open>Texture.save(swf, true, false)\<close> writes for a texture: the id of the
  \<^verbatim>\<open>if\<close> chain, the pixel type index, width and height, and the bytes of the write loop
  over the (rearranged) image.
\<close>

definition savedTag :: "Texture \<Rightarrow> TextureTag" where
  "savedTag t =
     \<lparr>tagId = save_tag t True,
      pixelTypeIndex = save_pixelTypeIndex t,
      tagWidth = width (image t),
      tagHeight = height (image t),
      pixelBytes =
        concat (map (writePixel (save_pixelFormat t))
                    (written_pixels (save_arranged t (image t))))\<rparr>"

text \<open>
  A texture is well formed when its pixel format is one of the formats of its image
  kind (the state the setter \<^verbatim>\<open>pixelFormat\<close> leaves behind; \<^verbatim>\<open>Texture.save\<close> replaces any
  other format), width and height are positive (the image package builds no other
  image) and fit the 16-bit fields of the tag, the pixel matrix has \<open>width * height\<close>
  pixels with the channels of the image, and the payload fits the signed 32-bit tag
  length.
\<close>

definition wellFormedTexture :: "Texture \<Rightarrow> bool" where
  "wellFormedTexture t =
     (pixelFormat t \<in> set (CHANNEL_FORMATS (kind (image t))) \<and>
      0 < width (image t) \<and> 0 < height (image t) \<and>
      width (image t) < 65536 \<and> height (image t) < 65536 \<and>
      length (pixels (image t)) = width (image t) * height (image t) \<and>
      width (image t) * height (image t) * bytesPerPixel (pixelFormat t) < 2147483643 \<and>
      (\<forall>p\<in>set (pixels (image t)). length p = channels (image t)))"

text \<open>
  What a saved texture is when it has been loaded again: the filters and the layout
  flags are those \<^verbatim>\<open>Texture.load\<close> derives from the tag id that \<^verbatim>\<open>Texture.save\<close> chose, and
  every pixel has gone through the zero-alpha rule, the packing of the pixel format
  and its unpacking.
\<close>

definition reloaded :: "Texture \<Rightarrow> Texture" where
  "reloaded t =
     \<lparr>pixelFormat = pixelFormat t,
      magFilter = load_magFilter (save_tag t True),
      minFilter = load_minFilter (save_tag t True),
      linear = load_linear (save_tag t True),
      downscaling = load_downscaling (save_tag t True),
      image = \<lparr>width = width (image t), height = height (image t), kind = kind (image t),
               pixels = map (\<lambda>p. decodePixel (pixelFormat t)
                                    (writePixel (pixelFormat t) (zero_alpha (image t) p)))
                            (pixels (image t))\<rparr>\<rparr>"

text \<open>
  The postfixes of a document survive \<^verbatim>\<open>saveAsset\<close> when they are the defaults, or when
  the postfix tag is written and holds them as two non-empty strings whose length
  fits the length byte.
\<close>

definition postfixesKept :: "('r, 'm, 'c) SupercellSWF \<Rightarrow> bool" where
  "postfixesKept D =
     ((highresPostfix D = ''_highres'' \<and> lowresPostfix D = ''_lowres'') \<or>
      (writesPostfixTag D \<and> highresPostfix D \<noteq> [] \<and> lowresPostfix D \<noteq> [] \<and>
       length (highresPostfix D) < 255 \<and> length (lowresPostfix D) < 255))"

subsection \<open>Records and banks of a saved document\<close>

text \<open>
  The tag ids under which the \<^verbatim>\<open>switch\<close> of \<^verbatim>\<open>parseTags\<close> loads a record of each kind,
  and the local counter and the declared count that it compares for that kind.
  \<open>countLoaded k n\<close> adds \<open>n\<close> to the counter of kind \<open>k\<close>.
\<close>

fun tagsOfKind :: "ResourceKind \<Rightarrow> nat list" where
  "tagsOfKind ShapeKind = [2, 18]"
| "tagsOfKind MovieClipKind = [3, 10, 12, 14, 35]"
| "tagsOfKind TextFieldKind = [7, 15, 20, 21, 25, 33, 43, 44]"
| "tagsOfKind ModifierKind = [38, 39, 40]"

fun loadedCount :: "ResourceKind \<Rightarrow> ParseState \<Rightarrow> nat" where
  "loadedCount ShapeKind st = shapesLoaded st"
| "loadedCount MovieClipKind st = movieclipsLoaded st"
| "loadedCount TextFieldKind st = textfieldsLoaded st"
| "loadedCount ModifierKind st = modifiersLoaded st"

fun declaredCount :: "ResourceKind \<Rightarrow> ('r, 'm, 'c) SupercellSWF \<Rightarrow> nat" where
  "declaredCount ShapeKind swf = shapeCount swf"
| "declaredCount MovieClipKind swf = movieClipsCount swf"
| "declaredCount TextFieldKind swf = textFieldsCount swf"
| "declaredCount ModifierKind swf = modifiersCount swf"

fun countLoaded :: "ResourceKind \<Rightarrow> nat \<Rightarrow> ParseState \<Rightarrow> ParseState" where
  "countLoaded ShapeKind n st = st\<lparr>shapesLoaded := shapesLoaded st + n\<rparr>"
| "countLoaded MovieClipKind n st = st\<lparr>movieclipsLoaded := movieclipsLoaded st + n\<rparr>"
| "countLoaded TextFieldKind n st = st\<lparr>textfieldsLoaded := textfieldsLoaded st + n\<rparr>"
| "countLoaded ModifierKind n st = st\<lparr>modifiersLoaded := modifiersLoaded st + n\<rparr>"

text \<open>
  \<open>recordTag\<close> is what \<^verbatim>\<open>this.resources[id].save(id, this)\<close> appends for one entry of
  \<^verbatim>\<open>this.resources\<close>. An entry is storable when the tag id it is saved under is one of
  the ids that \<^verbatim>\<open>parseTags\<close> loads as a record of the entry's kind, its payload fits the
  signed 32-bit tag length, and the decoder of that kind reads the payload back as the
  same id and record. The record codecs are parameters, so this is a condition on
  them.
\<close>

definition recordTag :: "('r, 'm, 'c) Codecs \<Rightarrow> nat \<times> 'r \<Rightarrow> byte list" where
  "recordTag cd e =
     saveTag (fst (saveResource cd (fst e) (snd e))) (snd (saveResource cd (fst e) (snd e)))"

definition storableRecord :: "('r, 'm, 'c) Codecs \<Rightarrow> nat \<times> 'r \<Rightarrow> bool" where
  "storableRecord cd e =
     (fst (saveResource cd (fst e) (snd e)) \<in> set (tagsOfKind (kindOf cd (snd e))) \<and>
      length (snd (saveResource cd (fst e) (snd e))) < 2147483648 \<and>
      loadResource cd (kindOf cd (snd e)) (fst (saveResource cd (fst e) (snd e)))
        (snd (saveResource cd (fst e) (snd e))) = Inr e)"

text \<open>
  The entries of one kind in ascending id, as \<^verbatim>\<open>saveAsset\<close> sorts them into its four id
  lists, and the order in which \<^verbatim>\<open>saveAsset\<close> writes all entries: modifiers, shapes,
  text fields, movie clips.
\<close>

definition recordsOfKind ::
  "('r, 'm, 'c) Codecs \<Rightarrow> ResourceKind \<Rightarrow> (nat \<times> 'r) list \<Rightarrow> (nat \<times> 'r) list" where
  "recordsOfKind cd k rs = filter (\<lambda>e. kindOf cd (snd e) = k) (sort_key fst rs)"

definition savedOrder :: "('r, 'm, 'c) Codecs \<Rightarrow> (nat \<times> 'r) list \<Rightarrow> (nat \<times> 'r) list" where
  "savedOrder cd rs =
     recordsOfKind cd ModifierKind rs @ recordsOfKind cd ShapeKind rs @
     recordsOfKind cd TextFieldKind rs @ recordsOfKind cd MovieClipKind rs"

text \<open>
  The same for the entries of a transform bank: the tag of a matrix and of a colour
  transform, and when they are storable (\<^verbatim>\<open>case 8: case 36\<close> loads a matrix,
  \<^verbatim>\<open>case 9\<close> a colour transform). A bank is storable when its two counts fit their
  16-bit fields and each entry is storable. \<open>bankEntries\<close> are the tags of one bank and
  \<open>storeFrom j vs xs\<close> is a list after the values \<open>vs\<close> have been stored into the slots
  \<open>j\<close>, \<open>j + 1\<close>, ...
\<close>

definition matrixTag :: "('r, 'm, 'c) Codecs \<Rightarrow> 'm \<Rightarrow> byte list" where
  "matrixTag cd m = saveTag (fst (saveMatrix cd m)) (snd (saveMatrix cd m))"

definition colorTag :: "('r, 'm, 'c) Codecs \<Rightarrow> 'c \<Rightarrow> byte list" where
  "colorTag cd c = saveTag (fst (saveColor cd c)) (snd (saveColor cd c))"

definition storableMatrix :: "('r, 'm, 'c) Codecs \<Rightarrow> 'm \<Rightarrow> bool" where
  "storableMatrix cd m =
     (fst (saveMatrix cd m) \<in> set [8, 36] \<and>
      length (snd (saveMatrix cd m)) < 2147483648 \<and>
      loadMatrix cd (fst (saveMatrix cd m)) (snd (saveMatrix cd m)) = Inr m)"

definition storableColor :: "('r, 'm, 'c) Codecs \<Rightarrow> 'c \<Rightarrow> bool" where
  "storableColor cd c =
     (fst (saveColor cd c) = 9 \<and>
      length (snd (saveColor cd c)) < 2147483648 \<and>
      loadColor cd (fst (saveColor cd c)) (snd (saveColor cd c)) = Inr c)"

definition storableBank :: "('r, 'm, 'c) Codecs \<Rightarrow> ('m, 'c) TransformBank \<Rightarrow> bool" where
  "storableBank cd b =
     (length (matrices b) < 65536 \<and> length (colors b) < 65536 \<and>
      (\<forall>m\<in>set (matrices b). storableMatrix cd m) \<and>
      (\<forall>c\<in>set (colors b). storableColor cd c))"

definition bankEntries :: "('r, 'm, 'c) Codecs \<Rightarrow> ('m, 'c) TransformBank \<Rightarrow> byte list" where
  "bankEntries cd b =
     concat (map (matrixTag cd) (matrices b)) @ concat (map (colorTag cd) (colors b))"

fun storeFrom :: "nat \<Rightarrow> 'a list \<Rightarrow> 'a list \<Rightarrow> 'a list" where
  "storeFrom j [] xs = xs"
| "storeFrom j (v # vs) xs = storeFrom (j + 1) vs (xs[j := v])"

text \<open>
  The bank whose counts \<^verbatim>\<open>saveAsset\<close> writes into the header
  (\<^verbatim>\<open>this.banks.length > 0 ? this.banks[0] : new TransformBank()\<close>), and the banks of the
  document loaded from the saved file: the header always loads one bank, so a document
  without banks comes back with one empty bank.
\<close>

definition primaryBank :: "('m, 'c) TransformBank list \<Rightarrow> ('m, 'c) TransformBank" where
  "primaryBank bs = (if length bs > 0 then bs ! 0 else \<lparr>matrices = [], colors = []\<rparr>)"

definition loadedBanks :: "('m, 'c) TransformBank list \<Rightarrow> ('m, 'c) TransformBank list" where
  "loadedBanks bs = (if bs = [] then [\<lparr>matrices = [], colors = []\<rparr>] else bs)"

text \<open>
  The tag that \<^verbatim>\<open>Texture.save(swf, false, false)\<close> writes for a texture (id 1 and the
  five header bytes), and the texture that \<^verbatim>\<open>Texture.load\<close> makes of it: the fields of
  tag 1 and a blank image of the saved size. This is what the main file of a document
  with external textures holds.
\<close>

definition headerTag :: "Texture \<Rightarrow> TextureTag" where
  "headerTag t =
     \<lparr>tagId = save_tag t False,
      pixelTypeIndex = save_pixelTypeIndex t,
      tagWidth = width (image t),
      tagHeight = height (image t),
      pixelBytes = []\<rparr>"

definition headerOnly :: "Texture \<Rightarrow> Texture" where
  "headerOnly t =
     \<lparr>pixelFormat = pixelFormat t,
      magFilter = load_magFilter (save_tag t False),
      minFilter = load_minFilter (save_tag t False),
      linear = load_linear (save_tag t False),
      downscaling = load_downscaling (save_tag t False),
      image = newImage (width (image t)) (height (image t)) (kind (image t))\<rparr>"

text \<open>
  The file that \<^verbatim>\<open>save\<close> writes the textures to last when they are external: the
  high resolution file of the pair, or the common file.
\<close>

definition externalPath :: "string \<Rightarrow> ('r, 'm, 'c) SupercellSWF \<Rightarrow> string" where
  "externalPath path D =
     (if useUncommonTexture D then withoutExtension path @ highresPostfix D @ ''_tex.sc''
      else withoutExtension path @ ''_tex.sc'')"

text \<open>
  A document is storable when \<^verbatim>\<open>saveAsset\<close> and \<^verbatim>\<open>parseTags\<close> agree on every field of
  its file: the resource ids are distinct (the keys of a JavaScript object), every
  record and every bank is storable, the four record counts and the export and texture
  counts fit their 16-bit fields, export ids and names fit theirs, the postfixes are
  kept, and every texture is well formed and saved under a tag id that is read with
  the traversal it was written with.
\<close>

definition storable :: "('r, 'm, 'c) Codecs \<Rightarrow> ('r, 'm, 'c) SupercellSWF \<Rightarrow> bool" where
  "storable cd D =
     (distinct (map fst (resources D)) \<and>
      (\<forall>e\<in>set (resources D). storableRecord cd e) \<and>
      (\<forall>k\<in>set [ShapeKind, MovieClipKind, TextFieldKind, ModifierKind].
         length (idsOfKind cd k (resources D)) < 65536) \<and>
      (\<forall>b\<in>set (banks D). storableBank cd b) \<and>
      length (exports D) < 65536 \<and>
      (\<forall>e\<in>set (exports D). fst e < 65536 \<and> length (snd e) < 255) \<and>
      postfixesKept D \<and>
      length (textures D) < 65536 \<and>
      (\<forall>t\<in>set (textures D).
         wellFormedTexture t \<and> load_linear (save_tag t True) = linear t))"

text \<open>
  The four private counts of a document loaded from the file of \<open>D\<close>: the three counts
  of the header and the count of tag 37, which is absent, and the count zero, when
  there is no modifier.
\<close>

definition savedCounts ::
  "('r, 'm, 'c) Codecs \<Rightarrow> ('r, 'm, 'c) SupercellSWF \<Rightarrow> ('r, 'm, 'c) SupercellSWF" where
  "savedCounts cd D =
     D\<lparr>shapeCount := length (idsOfKind cd ShapeKind (resources D)),
       movieClipsCount := length (idsOfKind cd MovieClipKind (resources D)),
       textFieldsCount := length (idsOfKind cd TextFieldKind (resources D)),
       modifiersCount := length (idsOfKind cd ModifierKind (resources D))\<rparr>"

text \<open>
  A texture is stored exactly when it is well formed, its filters are
  \<^verbatim>\<open>GL_LINEAR\<close> / \<^verbatim>\<open>GL_NEAREST\<close> (any layout) or \<^verbatim>\<open>GL_LINEAR\<close> / \<^verbatim>\<open>GL_LINEAR_MIPMAP_NEAREST\<close>
  with the linear layout (the rows of the tag table on which \<^verbatim>\<open>Texture.save\<close> and
  \<^verbatim>\<open>Texture.load\<close> agree in all four fields), and every pixel is left as it is by the
  zero-alpha rule and by the packing of the pixel format followed by its unpacking. A
  document is stored exactly when it is storable and each of its textures is stored
  exactly.
\<close>

definition exactTexture :: "Texture \<Rightarrow> bool" where
  "exactTexture t =
     (wellFormedTexture t \<and> magFilter t = GL_LINEAR \<and>
      (minFilter t = GL_NEAREST \<or> (minFilter t = GL_LINEAR_MIPMAP_NEAREST \<and> linear t)) \<and>
      (\<forall>p\<in>set (pixels (image t)).
         zero_alpha (image t) p = p \<and>
         decodePixel (pixelFormat t) (writePixel (pixelFormat t) p) = p))"

definition exactDocument :: "('r, 'm, 'c) Codecs \<Rightarrow> ('r, 'm, 'c) SupercellSWF \<Rightarrow> bool" where
  "exactDocument cd D =
     (distinct (map fst (resources D)) \<and>
      (\<forall>e\<in>set (resources D). storableRecord cd e) \<and>
      (\<forall>k\<in>set [ShapeKind, MovieClipKind, TextFieldKind, ModifierKind].
         length (idsOfKind cd k (resources D)) < 65536) \<and>
      (\<forall>b\<in>set (banks D). storableBank cd b) \<and>
      length (exports D) < 65536 \<and>
      (\<forall>e\<in>set (exports D). fst e < 65536 \<and> length (snd e) < 255) \<and>
      postfixesKept D \<and>
      length (textures D) < 65536 \<and>
      (\<forall>t\<in>set (textures D). exactTexture t))"

section \<open>Examples\<close>

text \<open>
  The concrete inputs on which the theorems below are instantiated. First two small
  textures: a linear 2 by 1 RGBA image whose first pixel has alpha zero, and a
  block-layout 2 by 2 RGBA image.
\<close>

definition alphaTexture :: Texture where
  "alphaTexture =
     \<lparr>pixelFormat = GL_RGBA8, magFilter = GL_LINEAR, minFilter = GL_NEAREST,
      linear = True, downscaling = True,
      image = \<lparr>width = 2, height = 1, kind = RGBA,
               pixels = [[1, 2, 3, 0], [4, 5, 6, 255]]\<rparr>\<rparr>"


definition blockTexture :: Texture where
  "blockTexture =
     \<lparr>pixelFormat = GL_RGBA8, magFilter = GL_LINEAR, minFilter = GL_NEAREST,
      linear = False, downscaling = True,
      image = \<lparr>width = 2, height = 2, kind = RGBA,
               pixels = [[1, 2, 3, 255], [4, 5, 6, 255], [7, 8, 9, 255], [10, 11, 12, 255]]\<rparr>\<rparr>"


text \<open>
  An instance of the record codecs in which a record is kept as its kind, tag id and
  payload bytes after a 16-bit resource id, and a matrix or colour as its tag id and
  payload. \<open>resizeHalf\<close> is the identity here.
\<close>

definition rawCodecs ::
  "(ResourceKind \<times> nat \<times> byte list, nat \<times> byte list, nat \<times> byte list) Codecs" where
  "rawCodecs =
     \<lparr>resizeHalf = (\<lambda>img. img),
      kindOf = fst,
      loadResource = (\<lambda>k tag payload.
         case readUInt16 payload of
           Inl e \<Rightarrow> Inl e
         | Inr (i, body) \<Rightarrow> Inr (i, (k, tag, body))),
      saveResource = (\<lambda>i (k, tag, body). (tag, writeUInt16 i @ body)),
      newMatrix = (8, []),
      loadMatrix = (\<lambda>tag payload. Inr (tag, payload)),
      saveMatrix = (\<lambda>m. m),
      newColor = (9, []),
      loadColor = (\<lambda>tag payload. Inr (tag, payload)),
      saveColor = (\<lambda>c. c)\<rparr>"

type_synonym RawSWF =
  "(ResourceKind \<times> nat \<times> byte list, nat \<times> byte list, nat \<times> byte list) SupercellSWF"

text \<open>A 1 by 1 RGBA8 texture tag with its four pixel bytes, and the same without.\<close>

definition dataTag :: TextureTag where
  "dataTag = \<lparr>tagId = 1, pixelTypeIndex = 0, tagWidth = 1, tagHeight = 1,
              pixelBytes = [1, 2, 3, 255]\<rparr>"

definition bareTag :: TextureTag where
  "bareTag = \<lparr>tagId = 1, pixelTypeIndex = 0, tagWidth = 1, tagHeight = 1, pixelBytes = []\<rparr>"

text \<open>
  Documents with external textures in the high and low resolution pair, one with the
  default postfixes and one whose high resolution postfix alone is changed; and file
  systems holding the main file of the former together with texture files.
\<close>

definition customHighres :: RawSWF where
  "customHighres =
     newSupercellSWF\<lparr>hasExternalTexture := True, useUncommonTexture := True,
                     highresPostfix := ''_hd''\<rparr>"

definition uncommonDoc :: RawSWF where
  "uncommonDoc = newSupercellSWF\<lparr>hasExternalTexture := True, useUncommonTexture := True\<rparr>"

definition commonOnly :: FileSystem where
  "commonOnly =
     [''foo.sc'' \<mapsto> ScFile NONE (saveAsset_buffer rawCodecs uncommonDoc),
      ''foo_tex.sc'' \<mapsto> ScFile NONE (saveTag 0 [])]"

definition allThree :: FileSystem where
  "allThree =
     [''foo.sc'' \<mapsto> ScFile NONE (saveAsset_buffer rawCodecs uncommonDoc),
      ''foo_tex.sc'' \<mapsto> ScFile NONE (saveTag 0 []),
      ''foo_lowres_tex.sc'' \<mapsto> ScFile NONE (saveTag 0 []),
      ''foo_highres_tex.sc'' \<mapsto> ScFile NONE (saveTag 0 [])]"



text \<open>
  Two documents over the codecs above. The first has external textures in the high
  and low resolution pair with two custom postfixes, a block-layout texture, an export,
  two banks with matrices and a colour transform, and a movie clip, a shape and a
  modifier that are not in saving order; it is compressed with \<open>ZSTD\<close>. The second
  holds the texture with the zero-alpha pixel inside the main file.
\<close>

definition richDoc :: RawSWF where
  "richDoc =
     newSupercellSWF
       \<lparr>compression := ZSTD, hasExternalTexture := True, useUncommonTexture := True,
        exports := [(5, ''clip'')],
        textures := [blockTexture],
        highresPostfix := ''_hd'', lowresPostfix := ''_sd'',
        banks := [\<lparr>matrices = [(8, [1])], colors = [(9, [2])]\<rparr>,
                  \<lparr>matrices = [(36, [3])], colors = []\<rparr>],
        resources := [(5, (MovieClipKind, 12, [7])), (2, (ShapeKind, 18, [])),
                      (9, (ModifierKind, 38, []))]\<rparr>"

definition alphaDoc :: RawSWF where
  "alphaDoc =
     newSupercellSWF\<lparr>textures := [alphaTexture], banks := [\<lparr>matrices = [], colors = []\<rparr>]\<rparr>"

section \<open>Lemmas\<close>

subsection \<open>The traversals\<close>

lemma linear_coords_Suc:
  "linear_coords w (Suc h) = linear_coords w h @ map (\<lambda>x. (x, h)) [0..<w]"
  by (simp add: linear_coords_def)

lemma length_linear_coords: "length (linear_coords w h) = w * h"
  by (induction h) (simp_all add: linear_coords_Suc, simp add: linear_coords_def)

lemma nth_linear_coords:
  "k < w * h \<Longrightarrow> linear_coords w h ! k = (k mod w, k div w)"
proof (induction h)
  case 0
  then show ?case by simp
next
  case (Suc h)
  show ?case
  proof (cases "k < w * h")
    case True
    with Suc.IH show ?thesis
      by (simp add: linear_coords_Suc nth_append length_linear_coords)
  next
    case False
    define r where "r = k - w * h"
    with Suc.prems False have k: "k = r + h * w" and r: "r < w" by auto
    from r have "k div w = h" "k mod w = r" unfolding k by simp_all
    with False r show ?thesis
      by (simp add: linear_coords_Suc nth_append length_linear_coords r_def)
  qed
qed

lemma takeWhile_less: "takeWhile (\<lambda>x. x < c) [0..<m] = [0..<min m c]"
proof (induction m)
  case 0
  then show ?case by simp
next
  case (Suc m)
  consider "m < c" | "c = m" | "c < m" by linarith
  then show ?case
  proof cases
    case 1
    then have "takeWhile (\<lambda>x. x < c) ([0..<m] @ [m]) = [0..<m] @ takeWhile (\<lambda>x. x < c) [m]"
      by (intro takeWhile_append2) auto
    with 1 show ?thesis by (simp add: min_def)
  next
    case 2
    then have "takeWhile (\<lambda>x. x < c) ([0..<m] @ [m]) = [0..<m] @ takeWhile (\<lambda>x. x < c) [m]"
      by (intro takeWhile_append2) auto
    with 2 show ?thesis by (simp add: min_def)
  next
    case 3
    then have "takeWhile (\<lambda>x. x < c) ([0..<m] @ [m]) = takeWhile (\<lambda>x. x < c) [0..<m]"
      by (intro takeWhile_append1 [of c]) auto
    with 3 Suc.IH show ?thesis by (simp add: min_def)
  qed
qed

lemma takeWhile_break: "takeWhile (\<lambda>x. \<not> a + x \<ge> n) [0..<m] = [0..<min m (n - a)]"
proof -
  have "(\<lambda>x. \<not> a + x \<ge> n) = (\<lambda>x. x < n - a)" by auto
  then show ?thesis by (simp add: takeWhile_less)
qed


lemma sum_blocks: "sum_list (map (\<lambda>b. min 32 (n - b * 32)) [0..<n div 32 + 1]) = (n::nat)"
proof -
  have full: "map (\<lambda>b. min 32 (n - b * 32)) [0..<n div 32] = map (\<lambda>b. 32) [0..<n div 32]"
  proof (rule map_cong [OF refl])
    fix b assume "b \<in> set [0..<n div 32]"
    then have "b < n div 32" by simp
    then have "Suc b \<le> n div 32" by simp
    then have "Suc b * 32 \<le> n div 32 * 32" by (rule mult_le_mono1)
    also have "\<dots> \<le> n" by simp
    finally show "min 32 (n - b * 32) = 32" by simp
  qed
  have tail: "min 32 (n - n div 32 * 32) = n mod 32"
    by (simp add: minus_div_mult_eq_mod)
  have "sum_list (map (\<lambda>b. min 32 (n - b * 32)) [0..<n div 32 + 1])
      = sum_list (map (\<lambda>b. min 32 (n - b * 32)) [0..<n div 32]) + min 32 (n - n div 32 * 32)"
    by simp
  also have "\<dots> = 32 * (n div 32) + n mod 32"
    unfolding full tail by (simp add: sum_list_triv)
  finally show ?thesis by simp
qed

lemma in_concat_map: "a \<in> set xs \<Longrightarrow> c \<in> set (f a) \<Longrightarrow> c \<in> set (concat (map f xs))"
  by auto

lemma in_block_coords:
  "(x, y) \<in> set (block_coords w h) \<longleftrightarrow> x < w \<and> y < h"
proof
  assume "(x, y) \<in> set (block_coords w h)"
  then show "x < w \<and> y < h"
    unfolding block_coords_def takeWhile_break
    by auto
next
  assume xy: "x < w \<and> y < h"
  have "y div 32 \<le> h div 32" "x div 32 \<le> w div 32"
    using xy by (simp_all add: div_le_mono)
  then have 1: "y div 32 \<in> set [0..<h div 32 + 1]"
    and 2: "x div 32 \<in> set [0..<w div 32 + 1]"
    by auto
  have 3: "y mod 32 \<in> set [0..<min 32 (h - y div 32 * 32)]"
  proof -
    have "y mod 32 + y div 32 * 32 < h" using xy by simp
    then have "y mod 32 < h - y div 32 * 32" by (simp only: less_diff_conv)
    then show ?thesis by simp
  qed
  have 4: "x mod 32 \<in> set [0..<min 32 (w - x div 32 * 32)]"
  proof -
    have "x mod 32 + x div 32 * 32 < w" using xy by simp
    then have "x mod 32 < w - x div 32 * 32" by (simp only: less_diff_conv)
    then show ?thesis by simp
  qed
  have 5: "(x, y) \<in> set (map (\<lambda>x'. (x div 32 * 32 + x', y div 32 * 32 + y mod 32))
                 [0..<min 32 (w - x div 32 * 32)])"
  proof -
    have "(x, y) = (x div 32 * 32 + x mod 32, y div 32 * 32 + y mod 32)" by simp
    then show ?thesis
      unfolding set_map using 4 by (rule image_eqI)
  qed
  show "(x, y) \<in> set (block_coords w h)"
    unfolding block_coords_def takeWhile_break
    by (rule in_concat_map [OF 1], rule in_concat_map [OF 2], rule in_concat_map [OF 3], rule 5)
qed

lemma length_row:
  "length (concat (map (\<lambda>y. map (\<lambda>x. (xb * 32 + x, yb * 32 + y)) [0..<a]) [0..<b])) = b * a"
  by (induction b) simp_all

lemma length_blocks_x:
  "length (concat (map (\<lambda>xb. concat (map (\<lambda>y. map (\<lambda>x. (xb * 32 + x, yb * 32 + y))
       [0..<min 32 (w - xb * 32)]) [0..<b])) [0..<n])) =
   b * sum_list (map (\<lambda>xb. min 32 (w - xb * 32)) [0..<n])"
  by (induction n) (simp_all add: length_row distrib_left)

lemma length_blocks_y:
  "length (concat (map (\<lambda>yb. concat (map (\<lambda>xb. concat (map (\<lambda>y. map (\<lambda>x. (xb * 32 + x, yb * 32 + y))
       [0..<min 32 (w - xb * 32)]) [0..<min 32 (h - yb * 32)])) [0..<w div 32 + 1])) [0..<n])) =
   sum_list (map (\<lambda>yb. min 32 (h - yb * 32)) [0..<n]) * w"
proof (induction n)
  case 0
  then show ?case by simp
next
  case (Suc n)
  have "length (concat (map (\<lambda>xb. concat (map (\<lambda>y. map (\<lambda>x. (xb * 32 + x, n * 32 + y))
       [0..<min 32 (w - xb * 32)]) [0..<min 32 (h - n * 32)])) [0..<w div 32 + 1])) =
     min 32 (h - n * 32) * w"
    by (simp only: length_blocks_x sum_blocks)
  with Suc.IH show ?case
    by (simp only: upt_Suc_append [OF le0] map_append concat_append length_append
        sum_list_append list.map concat.simps append_Nil2 sum_list.Cons sum_list.Nil
        distrib_right add_0_right)
qed

lemma length_block_coords: "length (block_coords w h) = w * h"
  unfolding block_coords_def takeWhile_break
  by (simp only: length_blocks_y sum_blocks mult.commute)

subsection \<open>Pixels written and read\<close>

lemma distinct_block_coords: "distinct (block_coords w h)"
proof -
  have "set (block_coords w h) = {..<w} \<times> {..<h}"
    using in_block_coords by auto
  then have "card (set (block_coords w h)) = w * h" by simp
  then show ?thesis
    by (simp add: card_distinct length_block_coords)
qed

lemma index_less: "x < w \<Longrightarrow> y < h \<Longrightarrow> y * w + x < w * (h::nat)"
proof -
  assume "x < w" "y < h"
  then have "y * w + x < Suc y * w" by simp
  also have "\<dots> \<le> h * w" using \<open>y < h\<close> by (intro mult_le_mono1) simp
  finally show ?thesis by (simp add: mult.commute)
qed

lemma written_pixels_nth:
  assumes "x < width img" "y < height img"
  shows "written_pixels img ! (y * width img + x) = zero_alpha img (getPixelXY img x y)"
proof -
  have k: "y * width img + x < width img * height img"
    using assms by (rule index_less)
  have "linear_coords (width img) (height img) ! (y * width img + x) = (x, y)"
    using assms by (simp add: nth_linear_coords [OF k])
  with k show ?thesis
    by (simp add: written_pixels_def length_linear_coords)
qed

lemma length_written_pixels: "length (written_pixels img) = width img * height img"
  by (simp add: written_pixels_def length_linear_coords)

lemma written_pixels_eq:
  assumes "length (pixels img) = width img * height img"
  shows "written_pixels img = map (zero_alpha img) (pixels img)"
proof (rule nth_equalityI)
  show "length (written_pixels img) = length (map (zero_alpha img) (pixels img))"
    using assms by (simp add: length_written_pixels)
next
  fix k assume "k < length (written_pixels img)"
  then have k: "k < width img * height img" by (simp add: length_written_pixels)
  then have w: "0 < width img" by (cases "width img") auto
  have "k div width img * width img + k mod width img = k" by simp
  with k assms show "written_pixels img ! k = map (zero_alpha img) (pixels img) ! k"
    by (simp add: written_pixels_def length_linear_coords nth_linear_coords getPixelXY_def)
qed

lemma addPixels_fields:
  "width (addPixels orig cs img k) = width img \<and>
   height (addPixels orig cs img k) = height img \<and>
   kind (addPixels orig cs img k) = kind img \<and>
   length (pixels (addPixels orig cs img k)) = length (pixels img)"
  by (induction orig cs img k rule: addPixels.induct) (simp_all add: setPixelXY_def)

lemma addPixels_nth:
  "j < length (pixels img) \<Longrightarrow>
   pixels (addPixels orig cs img k) ! j =
     (if k \<le> j \<and> j < k + length cs
      then getPixelXY orig (fst (cs ! (j - k))) (snd (cs ! (j - k)))
      else pixels img ! j)"
proof (induction orig cs img k rule: addPixels.induct)
  case (1 orig img k)
  then show ?case by auto
next
  case (2 orig xPixel yPixel cs img k)
  let ?img = "setPixelXY img (k mod width img) (k div width img) (getPixelXY orig xPixel yPixel)"
  have idx: "k div width img * width img + k mod width img = k" by simp
  have px: "pixels ?img = (pixels img)[k := getPixelXY orig xPixel yPixel]"
    by (simp add: setPixelXY_def idx)
  have len: "j < length (pixels ?img)" using "2.prems" by (simp add: px)
  show ?case
  proof (cases "j = k")
    case True
    with "2.IH" [OF len] "2.prems" show ?thesis by (simp add: px)
  next
    case False
    with "2.IH" [OF len] "2.prems" show ?thesis
      by (auto simp: px nth_Cons' Suc_diff_le)
  qed
qed

lemma save_arranged_fields:
  "width (save_arranged t img) = width img \<and> height (save_arranged t img) = height img \<and>
   kind (save_arranged t img) = kind img \<and>
   length (pixels (save_arranged t img)) = length (pixels img)"
  by (simp add: save_arranged_def addPixels_fields)

lemma save_arranged_nth:
  assumes "\<not> linear t" "length (pixels img) = width img * height img"
    "k < width img * height img"
  shows "pixels (save_arranged t img) ! k =
     getPixelXY img (fst (block_coords (width img) (height img) ! k))
                    (snd (block_coords (width img) (height img) ! k))"
  using assms by (simp add: save_arranged_def addPixels_nth length_block_coords)

lemma zero_alpha_cong:
  "kind a = kind b \<Longrightarrow> zero_alpha a = zero_alpha b"
  by (rule ext) (simp add: zero_alpha_def alpha_def channels_def components_def)


lemma setPixels_fields:
  "width (setPixels cs ps img) = width img \<and> height (setPixels cs ps img) = height img \<and>
   kind (setPixels cs ps img) = kind img \<and>
   length (pixels (setPixels cs ps img)) = length (pixels img)"
  by (induction cs ps img rule: setPixels.induct) (simp_all add: setPixelXY_def)

lemma setPixels_other:
  "\<forall>c\<in>set cs. snd c * width img + fst c \<noteq> j \<Longrightarrow>
   pixels (setPixels cs ps img) ! j = pixels img ! j"
proof (induction cs ps img rule: setPixels.induct)
  case (1 x y cs p ps img) 
  then show ?case by (simp add: setPixelXY_def)
qed simp_all

lemma setPixels_nth:
  assumes "distinct (map (\<lambda>c. snd c * width img + fst c) cs)"
    and "length ps = length cs" and "k < length cs"
    and "snd (cs ! k) * width img + fst (cs ! k) < length (pixels img)"
  shows "getPixelXY (setPixels cs ps img) (fst (cs ! k)) (snd (cs ! k)) = ps ! k"
  using assms
proof (induction cs ps img arbitrary: k rule: setPixels.induct)
  case (1 x y cs p ps img)
  let ?img = "setPixelXY img x y p"
  have w: "width ?img = width img" and l: "length (pixels ?img) = length (pixels img)"
    by (simp_all add: setPixelXY_def)
  show ?case
  proof (cases k)
    case 0
    have "\<forall>c\<in>set cs. snd c * width ?img + fst c \<noteq> y * width img + x"
    proof
      fix c assume c: "c \<in> set cs"
      from "1.prems"(1) have "y * width img + x \<notin> (\<lambda>c. snd c * width img + fst c) ` set cs"
        by simp
      have n: "y * width img + x \<notin> (\<lambda>c. snd c * width img + fst c) ` set cs"
        by fact
      show "snd c * width ?img + fst c \<noteq> y * width img + x"
      proof
        assume e: "snd c * width ?img + fst c = y * width img + x"
        have "y * width img + x \<in> (\<lambda>c. snd c * width img + fst c) ` set cs"
          by (rule image_eqI [OF _ c]) (simp add: e [symmetric] w)
        with n show False by contradiction
      qed
    qed
    then have "pixels (setPixels cs ps ?img) ! (y * width img + x) = pixels ?img ! (y * width img + x)"
      by (rule setPixels_other)
    with 0 "1.prems"(4) show ?thesis
      by (simp add: getPixelXY_def setPixels_fields setPixelXY_def)
  next
    case (Suc k')
    with "1.prems" have "getPixelXY (setPixels cs ps ?img) (fst (cs ! k')) (snd (cs ! k')) = ps ! k'"
      by (intro "1.IH") (simp_all add: w l)
    with Suc show ?thesis by simp
  qed
qed simp_all

lemma load_pixels_written:
  assumes "length ps = length cs"
    and "\<forall>p\<in>set ps. length (writePixel fmt p) = bytesPerPixel fmt"
  shows "load_pixels fmt cs img (concat (map (writePixel fmt) ps) @ rest) =
           Inr (setPixels cs (map (\<lambda>p. decodePixel fmt (writePixel fmt p)) ps) img, rest)"
  using assms
proof (induction cs arbitrary: ps img)
  case Nil
  then show ?case by simp
next
  case (Cons c cs)
  obtain x y where c: "c = (x, y)" by (cases c)
  from Cons.prems obtain p ps' where ps: "ps = p # ps'" by (cases ps) auto
  with Cons.prems have len: "length (writePixel fmt p) = bytesPerPixel fmt" by simp
  then have rp: "readPixel fmt (writePixel fmt p @ concat (map (writePixel fmt) ps') @ rest) =
      Inr (decodePixel fmt (writePixel fmt p), concat (map (writePixel fmt) ps') @ rest)"
    by (simp add: readPixel_def readBytes_def)
  from Cons.prems ps have "load_pixels fmt cs (setPixelXY img x y (decodePixel fmt (writePixel fmt p)))
        (concat (map (writePixel fmt) ps') @ rest) =
      Inr (setPixels cs (map (\<lambda>p. decodePixel fmt (writePixel fmt p)) ps')
            (setPixelXY img x y (decodePixel fmt (writePixel fmt p))), rest)"
    by (intro Cons.IH) simp_all
  with rp show ?case by (simp add: c ps)
qed

lemma index_inj:
  assumes "fst a < w" "fst b < w" "snd a * w + fst a = snd b * w + fst b"
  shows "a = (b :: nat \<times> nat)"
proof -
  have "(snd a * w + fst a) div w = snd a" "(snd b * w + fst b) div w = snd b"
    using assms(1,2) by simp_all
  moreover have "(snd a * w + fst a) mod w = fst a" "(snd b * w + fst b) mod w = fst b"
    using assms(1,2) by simp_all
  ultimately show ?thesis using assms(3) by (metis prod.expand)
qed

lemma distinct_block_index:
  "distinct (map (\<lambda>c. snd c * w + fst c) (block_coords w h))"
proof -
  have "inj_on (\<lambda>c. snd c * w + fst c) (set (block_coords w h))"
  proof (rule inj_onI)
    fix a b assume "a \<in> set (block_coords w h)" "b \<in> set (block_coords w h)"
      and eq: "snd a * w + fst a = snd b * w + fst b"
    then have "fst a < w" "fst b < w"
      using in_block_coords [of "fst a" "snd a" w h] in_block_coords [of "fst b" "snd b" w h]
      by simp_all
    then show "a = b" using eq by (rule index_inj)
  qed
  then show ?thesis by (simp add: distinct_map distinct_block_coords)
qed

lemma distinct_linear_coords: "distinct (map (\<lambda>c. snd c * w + fst c) (linear_coords w h))"
proof -
  have "map (\<lambda>c. snd c * w + fst c) (linear_coords w h) = [0..<w * h]"
  proof (rule nth_equalityI)
    show "length (map (\<lambda>c. snd c * w + fst c) (linear_coords w h)) = length [0..<w * h]"
      by (simp add: length_linear_coords)
  next
    fix k assume "k < length (map (\<lambda>c. snd c * w + fst c) (linear_coords w h))"
    then have k: "k < w * h" by (simp add: length_linear_coords)
    then show "map (\<lambda>c. snd c * w + fst c) (linear_coords w h) ! k = [0..<w * h] ! k"
      by (simp add: length_linear_coords nth_linear_coords)
  qed
  then show ?thesis by simp
qed

lemma writePixel_length:
  assumes "fmt \<in> set (CHANNEL_FORMATS k)"
    and "length p = components_of k + (if alpha_of k then 1 else 0)"
  shows "length (writePixel fmt p) = bytesPerPixel fmt"
proof (cases k)
  case RGBA
  with assms(2) obtain r g b a where "p = [r, g, b, a]"
    by (auto simp: length_Suc_conv numeral_eq_Suc)
  with RGBA assms(1) show ?thesis by (auto simp: writeUInt16_def)
next
  case RGB
  with assms(2) obtain r g b where "p = [r, g, b]"
    by (auto simp: length_Suc_conv numeral_eq_Suc)
  with RGB assms(1) show ?thesis by (auto simp: writeUInt16_def)
next
  case GREYA
  with assms(2) obtain l a where "p = [l, a]"
    by (auto simp: length_Suc_conv numeral_eq_Suc)
  with GREYA assms(1) show ?thesis by auto
next
  case GREY
  with assms(2) obtain l where "p = [l]"
    by (auto simp: length_Suc_conv)
  with GREY assms(1) show ?thesis by auto
qed

lemma replicate_small:
  "replicate 4 x = [x, x, x, x]" "replicate 3 x = [x, x, x]" "replicate 2 x = [x, x]"
  by (simp_all add: numeral_eq_Suc)

lemma scale_down_0: "scale_down k 0 = 0"
  by (simp add: scale_down_def)

lemma writePixel_zero:
  assumes "fmt \<in> set (CHANNEL_FORMATS k)"
  shows "writePixel fmt (replicate (components_of k + (if alpha_of k then 1 else 0)) 0) =
         replicate (bytesPerPixel fmt) 0"
  using assms
  by (cases k) (auto simp: replicate_small writeUInt16_def scale_down_0)

lemma length_zero_alpha:
  "length p = channels img \<Longrightarrow> length (zero_alpha img p) = channels img"
  by (simp add: zero_alpha_def)

lemma pixel_index:
  assumes "j < w * (h::nat)"
  shows "j mod w < w" "j div w < h" "j div w * w + j mod w = j"
proof -
  from assms have "0 < w" by (cases w) auto
  then show "j mod w < w" by simp
  show "j div w < h" using assms by (simp add: less_mult_imp_div_less mult.commute)
  show "j div w * w + j mod w = j" by simp
qed


lemma replicate_4: "replicate 4 (0::byte) = [0, 0, 0, 0]"
  by (simp add: numeral_eq_Suc)


subsection \<open>Reading what was written\<close>

lemma readUInt8_writeUInt8:
  "n < 256 \<Longrightarrow> readUInt8 (writeUInt8 n @ r) = Inr (n, r)"
  by (simp add: readUInt8_def writeUInt8_def unat_of_nat)

lemma readUInt16_writeUInt16:
  "n < 65536 \<Longrightarrow> readUInt16 (writeUInt16 n @ r) = Inr (n, r)"
  by (simp add: readUInt16_def writeUInt16_def unat_of_nat)

lemma writeInt32_nat:
  "writeInt32 (int n) =
     [of_nat n, of_nat (n div 256), of_nat (n div 65536), of_nat (n div 16777216)]"
proof -
  have "int n div 256 = int (n div 256)" "int n div 65536 = int (n div 65536)"
    "int n div 16777216 = int (n div 16777216)"
    by (simp_all add: zdiv_int)
  then show ?thesis by (simp add: writeInt32_def)
qed

lemma bytes_of_nat32:
  assumes "n < 4294967296"
  shows "n mod 256 + 256 * (n div 256 mod 256) + 65536 * (n div 65536 mod 256) +
         16777216 * (n div 16777216 mod 256) = (n::nat)"
proof -
  have a: "n div 65536 = n div 256 div 256" "n div 16777216 = n div 256 div 256 div 256"
    by (simp_all add: div_mult2_eq [symmetric])
  have b: "n div 256 div 256 div 256 < 256" using assms by (simp add: a(2) [symmetric] div_less_iff_less_mult)
  define q1 where "q1 = n div 256"
  define q2 where "q2 = q1 div 256"
  define q3 where "q3 = q2 div 256"
  have "n = n mod 256 + 256 * q1" "q1 = q1 mod 256 + 256 * q2" "q2 = q2 mod 256 + 256 * q3"
    "q3 mod 256 = q3"
    using b by (simp_all add: q1_def q2_def q3_def)
  then show ?thesis unfolding a q1_def [symmetric] q2_def [symmetric] q3_def [symmetric]
    by linarith
qed

lemma readInt32_writeInt32:
  assumes "n < 2147483648"
  shows "readInt32 (writeInt32 (int n) @ r) = Inr (int n, r)"
proof -
  from assms have "n < 4294967296" by simp
  from bytes_of_nat32 [OF this] assms show ?thesis
    by (simp add: writeInt32_nat readInt32_def unat_of_nat Let_def)
qed

lemma payloadOf_append: "payloadOf (int (length p)) (p @ r) = Inr (p, r)"
  by (simp add: payloadOf_def readBytes_def)

lemma parseTag_saveTag:
  assumes "buffer swf = saveTag tag p @ r" "tag < 256" "length p < 2147483648"
  shows "parseTag cd st swf = switchTag cd tag (int (length p)) st (swf\<lparr>buffer := p @ r\<rparr>)"
  using assms
  by (simp add: parseTag_def saveTag_def readUInt8_writeUInt8 readInt32_writeInt32)

lemma readASCII_writeASCII:
  assumes "length s < 255"
  shows "readASCII (writeASCII s @ r) = Inr (s, r)"
proof (cases "s = []")
  case True
  then show ?thesis by (simp add: writeASCII_def readASCII_def readUInt8_def)
next
  case False
  have m: "map (\<lambda>w. char_of (unat w)) (map (\<lambda>c. of_nat (of_char c) :: byte) s) = s"
    by (induction s) (simp_all add: unat_of_nat)
  from assms False show ?thesis
    by (simp add: writeASCII_def readASCII_def readUInt8_def readBytes_def unat_of_nat m
        del: map_map)
qed

lemma tagBytes_Cons: "tagBytes ((tag, p) # ts) = saveTag tag p @ tagBytes ts"
  by (simp add: tagBytes_def)

lemma tagBytes_Nil: "tagBytes [] = []"
  by (simp add: tagBytes_def)

lemma switchTag_shape:
  "tag = 2 \<or> tag = 18 \<Longrightarrow> switchTag cd tag n st swf = caseShape cd tag n st swf"
  by (auto simp: switchTag_def)

lemma switchTag_end: "switchTag cd 0 n st swf = Inr (False, st, swf)"
  by (simp add: switchTag_def)

lemma shape_overflows:
  assumes "buffer swf = tagBytes (t # ts) @ rest"
    and "shapeTagHeader t" "shapeCount swf \<le> shapesLoaded st"
  shows "parseTags_loop cd st swf = Inl (CountOverflow ShapeKind)"
proof -
  obtain tag p where t: "t = (tag, p)" by (cases t)
  with assms(2) have tag: "tag = 2 \<or> tag = 18" "tag < 256" "length p < 2147483648"
    by (auto simp: shapeTagHeader_def)
  have b: "buffer swf = saveTag tag p @ tagBytes ts @ rest"
    using assms(1) by (simp add: t tagBytes_Cons)
  have "parseTag cd st swf = Inl (CountOverflow ShapeKind)"
    using assms(3) tag
    by (simp add: parseTag_saveTag [OF b] switchTag_shape caseShape_def)
  then show ?thesis by simp
qed

lemma shape_loaded:
  assumes "buffer swf = tagBytes ((tag, p) # ts) @ rest"
    and "shapeTag cd (tag, p)" "shapesLoaded st < shapeCount swf"
    and "loadResource cd ShapeKind tag p = Inr (i, x)"
  shows "parseTags_loop cd st swf =
         parseTags_loop cd (st\<lparr>shapesLoaded := shapesLoaded st + 1\<rparr>)
           (swf\<lparr>buffer := tagBytes ts @ rest, resources := AList.update i x (resources swf)\<rparr>)"
proof -
  from assms(2) have tag: "tag = 2 \<or> tag = 18" "tag < 256" "length p < 2147483648"
    by (auto simp: shapeTag_def shapeTagHeader_def)
  have b: "buffer swf = saveTag tag p @ tagBytes ts @ rest"
    using assms(1) by (simp add: tagBytes_Cons)
  have "parseTag cd st swf =
        Inr (True, st\<lparr>shapesLoaded := shapesLoaded st + 1\<rparr>,
             swf\<lparr>buffer := tagBytes ts @ rest, resources := AList.update i x (resources swf)\<rparr>)"
    using assms(3,4) tag
    by (simp add: parseTag_saveTag [OF b] switchTag_shape caseShape_def loadRecord_def
        payloadOf_append)
  then show ?thesis
    by (subst parseTags_loop.simps) simp
qed

lemma shapes_loop:
  assumes "buffer swf = tagBytes ts @ rest"
    and "\<forall>t\<in>set ts. shapeTag cd t" "shapesLoaded st + length ts \<le> shapeCount swf"
  shows "parseTags_loop cd st swf =
         parseTags_loop cd (st\<lparr>shapesLoaded := shapesLoaded st + length ts\<rparr>)
           (swf\<lparr>buffer := rest, resources := loadedResources cd ShapeKind ts (resources swf)\<rparr>)"
  using assms
proof (induction ts arbitrary: st swf)
  case Nil
  then have "swf\<lparr>buffer := rest, resources := resources swf\<rparr> = swf"
    by (intro SupercellSWF.equality) (simp_all add: tagBytes_Nil)
  then show ?case by simp
next
  case (Cons t ts)
  obtain tag p where t: "t = (tag, p)" by (cases t)
  from Cons.prems(2) have st: "shapeTag cd (tag, p)" by (simp add: t)
  then obtain i x where ld: "loadResource cd ShapeKind tag p = Inr (i, x)"
    by (auto simp: shapeTag_def decodes_def split: sum.splits)
  from Cons.prems(3) have lt: "shapesLoaded st < shapeCount swf" by simp
  from Cons.prems(1) have b: "buffer swf = tagBytes ((tag, p) # ts) @ rest" by (simp add: t)
  let ?st = "st\<lparr>shapesLoaded := shapesLoaded st + 1\<rparr>"
  let ?swf = "swf\<lparr>buffer := tagBytes ts @ rest, resources := AList.update i x (resources swf)\<rparr>"
  have "parseTags_loop cd ?st ?swf =
        parseTags_loop cd (?st\<lparr>shapesLoaded := shapesLoaded ?st + length ts\<rparr>)
          (?swf\<lparr>buffer := rest, resources := loadedResources cd ShapeKind ts (resources ?swf)\<rparr>)"
    using Cons.prems by (intro Cons.IH) simp_all
  with shape_loaded [OF b st lt ld] show ?case
    by (simp add: t ld)
qed

lemma readIds_written:
  "\<forall>e\<in>set ex. fst e < 65536 \<Longrightarrow>
   readIds (length ex) (concat (map (\<lambda>(i, a). writeUInt16 i) ex) @ r) = Inr (map fst ex, r)"
proof (induction ex)
  case Nil
  then show ?case by simp
next
  case (Cons e ex)
  obtain i a where e: "e = (i, a)" by (cases e)
  with Cons show ?case by (simp add: readUInt16_writeUInt16)
qed

lemma readNames_written:
  "\<forall>e\<in>set ex. length (snd e) < 255 \<Longrightarrow>
   readNames (length ex) (concat (map (\<lambda>(i, a). writeASCII a) ex) @ r) = Inr (map snd ex, r)"
proof (induction ex)
  case Nil
  then show ?case by simp
next
  case (Cons e ex)
  obtain i a where e: "e = (i, a)" by (cases e)
  with Cons show ?case by (simp add: readASCII_writeASCII)
qed

lemma Exports_load_save:
  assumes "length ex < 65536" "\<forall>e\<in>set ex. fst e < 65536 \<and> length (snd e) < 255"
  shows "Exports_load (swf\<lparr>buffer := Exports_save ex @ r\<rparr>) =
         Inr (swf\<lparr>buffer := r, exports := exports swf @ ex\<rparr>)"
proof -
  have "zip (map fst ex) (map snd ex) = ex" by (simp add: zip_map_fst_snd)
  with assms show ?thesis
    by (simp add: Exports_load_def Exports_save_def readUInt16_writeUInt16 readIds_written
        readNames_written)
qed

lemma TransformBank_load_counts:
  assumes "length (matrices bank) < 65536" "length (colors bank) < 65536"
  shows "TransformBank_load cd (swf\<lparr>buffer := TransformBank_counts bank @ r\<rparr>) =
         Inr (swf\<lparr>buffer := r,
                  banks := banks swf @
                    [\<lparr>matrices = replicate (length (matrices bank)) (newMatrix cd),
                      colors = replicate (length (colors bank)) (newColor cd)\<rparr>]\<rparr>)"
  using assms
  by (simp add: TransformBank_load_def TransformBank_counts_def readUInt16_writeUInt16)

lemma skip_fill: "skip 5 (fill 5 @ r) = Inr r"
  by (simp add: skip_def fill_def)

lemma loadAsset_header:
  assumes f: "files path = Some (ScFile m
        (writeUInt16 shapes @ writeUInt16 movieClips @ writeUInt16 texturesCount @
         writeUInt16 textFields @ TransformBank_counts bank @ fill 5 @ Exports_save ex @ body))"
    and counts: "shapes < 65536" "movieClips < 65536" "texturesCount < 65536"
      "textFields < 65536"
    and bank: "length (matrices bank) < 65536" "length (colors bank) < 65536"
    and ex: "length ex < 65536" "\<forall>e\<in>set ex. fst e < 65536 \<and> length (snd e) < 255"
  shows "loadAsset cd files path swf =
         parseTags cd
           (swf\<lparr>compression := m, shapeCount := shapes, movieClipsCount := movieClips,
                textures := replicate texturesCount newTexture, textFieldsCount := textFields,
                banks := banks swf @
                    [\<lparr>matrices = replicate (length (matrices bank)) (newMatrix cd),
                      colors = replicate (length (colors bank)) (newColor cd)\<rparr>],
                buffer := body,
                exports := exports swf @ ex\<rparr>)"
proof -
  have z: "zip (map fst ex) (map snd ex) = ex" by (simp add: zip_map_fst_snd)
  show ?thesis
    unfolding loadAsset_def f
    using counts bank ex
    by (simp add: readUInt16_writeUInt16 skip_fill TransformBank_load_def
        TransformBank_counts_def Exports_load_def Exports_save_def readIds_written
        readNames_written z)
qed

lemma loadAsset_headerBytes:
  assumes f: "files path = Some (ScFile m (headerBytes shapes movieClips texturesCount textFields @ body))"
    and counts: "shapes < 65536" "movieClips < 65536" "texturesCount < 65536"
      "textFields < 65536"
  shows "loadAsset cd files path swf =
         parseTags cd
           (swf\<lparr>compression := m, shapeCount := shapes, movieClipsCount := movieClips,
                textures := replicate texturesCount newTexture, textFieldsCount := textFields,
                banks := banks swf @ [\<lparr>matrices = [], colors = []\<rparr>],
                buffer := body,
                exports := exports swf\<rparr>)"
proof -
  have "files path = Some (ScFile m
        (writeUInt16 shapes @ writeUInt16 movieClips @ writeUInt16 texturesCount @
         writeUInt16 textFields @ TransformBank_counts \<lparr>matrices = [], colors = []\<rparr> @
         fill 5 @ Exports_save [] @ body))"
    using f by (simp add: headerBytes_def TransformBank_counts_def Exports_save_def)
  from loadAsset_header [where bank = "\<lparr>matrices = [], colors = []\<rparr>" and ex = "[]"
      and body = body and cd = cd and swf = swf and files = files and path = path,
      OF this counts]
  show ?thesis by simp
qed

lemma load_pixels_bytes:
  "length bs = length cs * bytesPerPixel fmt \<Longrightarrow>
   load_pixels fmt cs img (bs @ rest) =
     Inr (setPixels cs (map (decodePixel fmt) (chunks (length cs) (bytesPerPixel fmt) bs)) img,
          rest)"
proof (induction cs arbitrary: bs img)
  case Nil
  then show ?case by simp
next
  case (Cons c cs)
  obtain x y where c: "c = (x, y)" by (cases c)
  let ?n = "bytesPerPixel fmt"
  from Cons.prems have len: "?n \<le> length bs" "length (drop ?n bs) = length cs * ?n"
    by simp_all
  then have rp: "readPixel fmt (bs @ rest) = Inr (decodePixel fmt (take ?n bs), drop ?n bs @ rest)"
    by (simp add: readPixel_def readBytes_def)
  from Cons.IH [OF len(2)] rp show ?case
    by (simp add: c)
qed

lemma newImage_fields:
  "width (newImage w h k) = w" "height (newImage w h k) = h" "kind (newImage w h k) = k"
  "length (pixels (newImage w h k)) = w * h"
  by (simp_all add: newImage_def)

lemma Texture_load_wf:
  assumes "buffer swf = textureBody t @ rest" "wfTextureTag hasData t"
  shows "Texture_load (tagId t) swf hasData slot =
     Inr (swf\<lparr>buffer := rest,
              textures :=
                (case slot of
                   Some i \<Rightarrow> (textures swf)[i := textureOf hasData t]
                 | None \<Rightarrow> if hasData then textures swf @ [textureOf hasData t]
                           else textures swf)\<rparr>)"
proof -
  let ?fmt = "PIXEL_FORMATS ! pixelTypeIndex t"
  let ?coords = "if load_linear (tagId t) then linear_coords (tagWidth t) (tagHeight t)
                    else block_coords (tagWidth t) (tagHeight t)"
  let ?blank = "newImage (tagWidth t) (tagHeight t) (PIXEL_CHANNELS ! pixelTypeIndex t)"
  from assms(2) have wf: "pixelTypeIndex t < 256" "pixelTypeIndex t < length PIXEL_FORMATS"
    "tagWidth t < 65536" "tagHeight t < 65536"
    by (simp_all add: wfTextureTag_def PIXEL_FORMATS_def)
  have hd: "readUInt8 (buffer swf) =
      Inr (pixelTypeIndex t, writeUInt16 (tagWidth t) @ writeUInt16 (tagHeight t) @ pixelBytes t @ rest)"
    using wf(1) by (simp add: assms(1) textureBody_def readUInt8_writeUInt8)
  have lc: "length ?coords = tagWidth t * tagHeight t"
    by (simp add: length_linear_coords length_block_coords)
  show ?thesis
  proof (cases hasData)
    case True
    with assms(2) have "length (pixelBytes t) = length ?coords * bytesPerPixel ?fmt"
      by (simp add: wfTextureTag_def lc)
    from load_pixels_bytes [OF this, of ?blank rest] True wf show ?thesis
      unfolding Texture_load_def hd
      by (simp add: readUInt16_writeUInt16 Let_def textureOf_def newImage_fields
          split del: if_split split: option.splits cong: if_cong)
  next
    case False
    with assms(2) have "pixelBytes t = []" by (simp add: wfTextureTag_def)
    with False wf show ?thesis
      unfolding Texture_load_def hd
      by (simp add: readUInt16_writeUInt16 Let_def textureOf_def newImage_fields
          split del: if_split split: option.splits cong: if_cong)
  qed
qed

lemma switchTag_texture:
  "tag \<in> set [1, 16, 19, 24, 27, 28, 29, 34] \<Longrightarrow>
   switchTag cd tag n st swf = caseTexture tag st swf"
  by (auto simp: switchTag_def)

lemma texture_turn:
  assumes "buffer swf = textureTagBytes t @ rest" "wfTextureTag (hasTextureData st) t"
  shows "parseTags_loop cd st swf =
     parseTags_loop cd (st\<lparr>texturesLoaded := texturesLoaded st + 1\<rparr>)
       (swf\<lparr>buffer := rest,
            textures :=
              (if texturesLoaded st < length (textures swf)
               then (textures swf)[texturesLoaded st := textureOf (hasTextureData st) t]
               else if hasTextureData st
                    then textures swf @ [textureOf (hasTextureData st) t]
                    else textures swf)\<rparr>)"
proof -
  from assms(2) have id: "tagId t \<in> set [1, 16, 19, 24, 27, 28, 29, 34]"
    and len: "length (textureBody t) < 2147483648"
    by (simp_all add: wfTextureTag_def textureBody_def writeUInt8_def writeUInt16_def)
  from id have lt: "tagId t < 256" by auto
  have b: "buffer swf = saveTag (tagId t) (textureBody t) @ rest"
    using assms(1) by (simp add: textureTagBytes_def)
  have "parseTag cd st swf =
      caseTexture (tagId t) st (swf\<lparr>buffer := textureBody t @ rest\<rparr>)"
    by (simp add: parseTag_saveTag [OF b lt len] switchTag_texture [OF id])
  also have "\<dots> = Inr (True, st\<lparr>texturesLoaded := texturesLoaded st + 1\<rparr>,
       swf\<lparr>buffer := rest,
            textures :=
              (if texturesLoaded st < length (textures swf)
               then (textures swf)[texturesLoaded st := textureOf (hasTextureData st) t]
               else if hasTextureData st
                    then textures swf @ [textureOf (hasTextureData st) t]
                    else textures swf)\<rparr>)"
    using Texture_load_wf [where swf = "swf\<lparr>buffer := textureBody t @ rest\<rparr>" and t = t
        and rest = rest and hasData = "hasTextureData st", OF _ assms(2)]
    by (simp add: caseTexture_def)
  finally show ?thesis
    by (subst parseTags_loop.simps) simp
qed

lemma textures_loop:
  assumes "buffer swf = concat (map textureTagBytes tags) @ rest"
    and "\<forall>t\<in>set tags. wfTextureTag (hasTextureData st) t"
  shows "parseTags_loop cd st swf =
     parseTags_loop cd (st\<lparr>texturesLoaded := texturesLoaded st + length tags\<rparr>)
       (swf\<lparr>buffer := rest,
            textures :=
              storeTextures (hasTextureData st) (texturesLoaded st)
                (map (textureOf (hasTextureData st)) tags) (textures swf)\<rparr>)"
  using assms
proof (induction tags arbitrary: st swf)
  case Nil
  then have "swf\<lparr>buffer := rest, textures := textures swf\<rparr> = swf"
    by (intro SupercellSWF.equality) simp_all
  then show ?case by simp
next
  case (Cons t tags)
  let ?d = "hasTextureData st"
  let ?st = "st\<lparr>texturesLoaded := texturesLoaded st + 1\<rparr>"
  let ?xs = "if texturesLoaded st < length (textures swf)
               then (textures swf)[texturesLoaded st := textureOf ?d t]
               else if ?d then textures swf @ [textureOf ?d t] else textures swf"
  let ?swf = "swf\<lparr>buffer := concat (map textureTagBytes tags) @ rest, textures := ?xs\<rparr>"
  have b: "buffer swf = textureTagBytes t @ concat (map textureTagBytes tags) @ rest"
    using Cons.prems(1) by simp
  have wf: "wfTextureTag ?d t" using Cons.prems(2) by simp
  have "parseTags_loop cd ?st ?swf =
     parseTags_loop cd (?st\<lparr>texturesLoaded := texturesLoaded ?st + length tags\<rparr>)
       (?swf\<lparr>buffer := rest,
            textures :=
              storeTextures (hasTextureData ?st) (texturesLoaded ?st)
                (map (textureOf (hasTextureData ?st)) tags) (textures ?swf)\<rparr>)"
    using Cons.prems(2) by (intro Cons.IH) simp_all
  with texture_turn [OF b wf, of cd] show ?case
    by simp
qed

lemma storeTextures_data:
  "j \<le> length xs \<Longrightarrow>
   storeTextures True j ts xs = take j xs @ ts @ drop (j + length ts) xs"
proof (induction ts arbitrary: j xs)
  case Nil
  then show ?case by simp
next
  case (Cons t ts)
  show ?case
  proof (cases "j < length xs")
    case True
    then have "take (Suc j) (xs[j := t]) = take j xs @ [t]"
      by (simp add: take_Suc_conv_app_nth)
    with True Cons.IH [of "Suc j" "xs[j := t]"] show ?thesis by simp
  next
    case False
    with Cons.prems have "j = length xs" by simp
    with Cons.IH [of "Suc j" "xs @ [t]"] show ?thesis by simp
  qed
qed

lemma storeTextures_full:
  "length xs \<le> j \<Longrightarrow> storeTextures False j ts xs = xs"
  by (induction ts arbitrary: j) simp_all

lemma storeTextures_nodata:
  "j \<le> length xs \<Longrightarrow>
   storeTextures False j ts xs = take j xs @ take (length xs - j) ts @ drop (j + length ts) xs"
proof (induction ts arbitrary: j xs)
  case Nil
  then show ?case by simp
next
  case (Cons t ts)
  show ?case
  proof (cases "j < length xs")
    case True
    then have "take (Suc j) (xs[j := t]) = take j xs @ [t]"
      by (simp add: take_Suc_conv_app_nth)
    moreover from True obtain d where "length xs - j = Suc d" "length xs - Suc j = d"
      by (cases "length xs - j") auto
    ultimately show ?thesis
      using True Cons.IH [of "Suc j" "xs[j := t]"] by simp
  next
    case False
    with Cons.prems have "j = length xs" by simp
    then show ?thesis by (simp add: storeTextures_full)
  qed
qed

lemma end_turn:
  assumes "buffer swf = saveTag 0 []"
  shows "parseTags_loop cd st swf = Inr (swf\<lparr>buffer := []\<rparr>)"
proof -
  have "buffer swf = saveTag 0 [] @ []" using assms by simp
  from parseTag_saveTag [OF this, of cd st] show ?thesis
    by (subst parseTags_loop.simps) (simp add: switchTag_end)
qed

lemma external_turn:
  assumes "buffer swf = saveTag 26 [] @ rest"
  shows "parseTags_loop cd st swf =
     parseTags_loop cd (st\<lparr>hasTextureData := False\<rparr>)
       (swf\<lparr>buffer := rest, hasExternalTexture := True\<rparr>)"
proof -
  from parseTag_saveTag [OF assms, of cd st] show ?thesis
    by (subst parseTags_loop.simps) (simp add: switchTag_def)
qed

lemma withoutExtension_foo: "withoutExtension ''foo.sc'' = ''foo''"
  by (simp add: withoutExtension_def)

lemma fill_5: "fill 5 = [0, 0, 0, 0, 0]"
  by (simp add: fill_def numeral_eq_Suc)

lemma saveAsset_buffer_flags:
  "resources swf = [] \<Longrightarrow> banks swf = [] \<Longrightarrow> exports swf = [] \<Longrightarrow> textures swf = [] \<Longrightarrow>
   saveAsset_buffer cd swf =
     headerBytes 0 0 0 0 @ savePostfixTag swf @
     (if useLowresTexture swf then saveTag 23 [] else []) @
     (if useUncommonTexture swf then saveTag 30 [] else []) @
     (if hasExternalTexture swf then saveTag 26 [] else []) @ saveTag 0 []"
  by (simp add: saveAsset_buffer_def headerBytes_def idsOfKind_def TransformBank_save_def
      TransformBank_counts_def Exports_save_def saveTextures_def saveRecords_def saveBanks_def)

lemma flag_turns:
  "buffer swf = saveTag 30 [] @ rest \<Longrightarrow>
   parseTags_loop cd st swf = parseTags_loop cd st (swf\<lparr>buffer := rest, useUncommonTexture := True\<rparr>)"
  "buffer swf = saveTag 23 [] @ rest \<Longrightarrow>
   parseTags_loop cd st swf = parseTags_loop cd st (swf\<lparr>buffer := rest, useLowresTexture := True\<rparr>)"
proof -
  assume b: "buffer swf = saveTag 30 [] @ rest"
  from parseTag_saveTag [OF b, of cd st]
  show "parseTags_loop cd st swf = parseTags_loop cd st (swf\<lparr>buffer := rest, useUncommonTexture := True\<rparr>)"
    by (subst parseTags_loop.simps) (simp add: switchTag_def)
next
  assume b: "buffer swf = saveTag 23 [] @ rest"
  from parseTag_saveTag [OF b, of cd st]
  show "parseTags_loop cd st swf = parseTags_loop cd st (swf\<lparr>buffer := rest, useLowresTexture := True\<rparr>)"
    by (subst parseTags_loop.simps) (simp add: switchTag_def)
qed

lemma loadAsset_uncommon:
  assumes "files ''foo.sc'' = Some (ScFile NONE (saveAsset_buffer rawCodecs uncommonDoc))"
  shows "loadAsset rawCodecs files ''foo.sc'' newSupercellSWF =
     Inr (uncommonDoc\<lparr>banks := [\<lparr>matrices = [], colors = []\<rparr>]\<rparr>)"
proof -
  let ?body = "saveTag 30 [] @ saveTag 26 [] @ saveTag 0 []"
  let ?swf = "\<lambda>body. (newSupercellSWF :: RawSWF)\<lparr>compression := NONE, shapeCount := 0,
                movieClipsCount := 0,
                textures := replicate 0 newTexture, textFieldsCount := 0,
                banks := banks (newSupercellSWF :: RawSWF) @ [\<lparr>matrices = [], colors = []\<rparr>],
                buffer := body,
                exports := exports (newSupercellSWF :: RawSWF)\<rparr>"
  have f: "files ''foo.sc'' = Some (ScFile NONE (headerBytes 0 0 0 0 @ ?body))"
    using assms
    by (simp add: saveAsset_buffer_flags uncommonDoc_def newSupercellSWF_def savePostfixTag_def
        writesPostfixTag_def)
  have "parseTags_loop rawCodecs initialParseState (?swf ?body) =
      parseTags_loop rawCodecs initialParseState
        ((?swf ?body)\<lparr>buffer := saveTag 26 [] @ saveTag 0 [], useUncommonTexture := True\<rparr>)"
    by (rule flag_turns) simp
  also have "\<dots> = parseTags_loop rawCodecs (initialParseState\<lparr>hasTextureData := False\<rparr>)
        ((?swf ?body)\<lparr>buffer := saveTag 26 [] @ saveTag 0 [], useUncommonTexture := True,
           buffer := saveTag 0 [], hasExternalTexture := True\<rparr>)"
    by (rule external_turn) simp
  also have "\<dots> = Inr ((?swf ?body)\<lparr>buffer := saveTag 26 [] @ saveTag 0 [], useUncommonTexture := True,
           buffer := saveTag 0 [], hasExternalTexture := True, buffer := []\<rparr>)"
    by (rule end_turn) simp
  finally have "parseTags rawCodecs (?swf ?body) =
      Inr ((?swf ?body)\<lparr>buffer := saveTag 26 [] @ saveTag 0 [], useUncommonTexture := True,
           buffer := saveTag 0 [], hasExternalTexture := True, buffer := []\<rparr>)"
    by (simp add: parseTags_def)
  moreover have "(?swf ?body)\<lparr>buffer := saveTag 26 [] @ saveTag 0 [], useUncommonTexture := True,
           buffer := saveTag 0 [], hasExternalTexture := True, buffer := []\<rparr> =
      uncommonDoc\<lparr>banks := [\<lparr>matrices = [], colors = []\<rparr>]\<rparr>"
    by (rule SupercellSWF.equality) (simp_all add: uncommonDoc_def newSupercellSWF_def)
  ultimately show ?thesis
    by (simp add: loadAsset_headerBytes [where files = files and path = "''foo.sc''", OF f])
qed

subsection \<open>Saving and loading a document\<close>

lemma chunks_concat:
  "\<forall>p\<in>set ps. length (f p) = n \<Longrightarrow> chunks (length ps) n (concat (map f ps)) = map f ps"
  by (induction ps) simp_all

lemma in_linear_coords: "(x, y) \<in> set (linear_coords w h) \<longleftrightarrow> x < w \<and> y < h"
  by (force simp: linear_coords_def)

lemma setPixels_all:
  assumes d: "distinct (map (\<lambda>c. snd c * w + fst c) cs)"
    and len: "length qs = length cs"
    and cover: "\<And>x y. x < w \<Longrightarrow> y < h \<Longrightarrow> (x, y) \<in> set cs"
    and blank: "width blank = w" "length (pixels blank) = w * h"
    and val: "\<And>k. k < length cs \<Longrightarrow> qs ! k = G (cs ! k)"
  shows "pixels (setPixels cs qs blank) = map (\<lambda>j. G (j mod w, j div w)) [0..<w * h]"
proof (rule nth_equalityI)
  show "length (pixels (setPixels cs qs blank)) = length (map (\<lambda>j. G (j mod w, j div w)) [0..<w * h])"
    by (simp add: setPixels_fields blank)
next
  fix j assume "j < length (pixels (setPixels cs qs blank))"
  then have j: "j < w * h" by (simp add: setPixels_fields blank)
  note ix = pixel_index [OF j]
  from cover [OF ix(1,2)] obtain k where k: "k < length cs" and c: "cs ! k = (j mod w, j div w)"
    by (auto simp: in_set_conv_nth)
  have "getPixelXY (setPixels cs qs blank) (fst (cs ! k)) (snd (cs ! k)) = qs ! k"
    using d len k ix(3) j by (intro setPixels_nth) (simp_all add: blank c)
  then have "pixels (setPixels cs qs blank) ! j = qs ! k"
    by (simp add: getPixelXY_def c setPixels_fields blank ix(3))
  with val [OF k] j show "pixels (setPixels cs qs blank) ! j =
      map (\<lambda>j. G (j mod w, j div w)) [0..<w * h] ! j"
    by (simp add: c)
qed

lemma traversal_facts:
  "length (traversal lin w h) = w * h"
  "distinct (map (\<lambda>c. snd c * w + fst c) (traversal lin w h))"
  "(x, y) \<in> set (traversal lin w h) \<longleftrightarrow> x < w \<and> y < h"
  by (simp_all add: traversal_def length_linear_coords length_block_coords
      distinct_linear_coords distinct_block_index in_linear_coords in_block_coords)

lemma written_at:
  assumes wf: "length (pixels img) = width img * height img"
    and k: "k < width img * height img"
  shows "written_pixels (save_arranged t img) ! k =
     zero_alpha img (getPixelXY img (fst (traversal (linear t) (width img) (height img) ! k))
                                    (snd (traversal (linear t) (width img) (height img) ! k)))"
proof -
  let ?arr = "save_arranged t img"
  have arr: "width ?arr = width img" "height ?arr = height img" "kind ?arr = kind img"
    "length (pixels ?arr) = width img * height img"
    by (simp_all add: save_arranged_fields wf)
  have "written_pixels ?arr = map (zero_alpha img) (pixels ?arr)"
    using written_pixels_eq [of ?arr] zero_alpha_cong [of ?arr img] by (simp add: arr)
  then have w: "written_pixels ?arr ! k = zero_alpha img (pixels ?arr ! k)"
    using k by (simp add: arr)
  show ?thesis
  proof (cases "linear t")
    case True
    then have "pixels ?arr ! k = pixels img ! k" by (simp add: save_arranged_def)
    moreover have "getPixelXY img (k mod width img) (k div width img) = pixels img ! k"
      using pixel_index [OF k] by (simp add: getPixelXY_def)
    ultimately show ?thesis
      using True k by (simp add: w traversal_def nth_linear_coords)
  next
    case False
    with save_arranged_nth [OF False wf k] show ?thesis
      by (simp add: w traversal_def)
  qed
qed

lemma Texture_save_savedTag:
  "snd (Texture_save resize t True False) = textureTagBytes (savedTag t)"
  by (simp add: Texture_save_def textureTagBytes_def textureBody_def savedTag_def
      save_tagBuffer_def save_image_def Let_def)

lemma PIXEL_FORMATS_indexOf: "PIXEL_FORMATS ! indexOf PIXEL_FORMATS fmt = fmt"
  by (cases fmt) (simp_all add: PIXEL_FORMATS_def)

lemma indexOf_less: "indexOf PIXEL_FORMATS fmt < length PIXEL_FORMATS"
  by (cases fmt) (simp_all add: PIXEL_FORMATS_def)

lemma PIXEL_CHANNELS_indexOf:
  "fmt \<in> set (CHANNEL_FORMATS k) \<Longrightarrow> PIXEL_CHANNELS ! indexOf PIXEL_FORMATS fmt = k"
  by (cases k) (auto simp: PIXEL_FORMATS_def PIXEL_CHANNELS_def)

lemma textureKind_kind: "textureKind img = kind img"
  by (cases "kind img") (simp_all add: textureKind_def components_def alpha_def)

lemma save_pixelFormat_fits:
  "pixelFormat t \<in> set (CHANNEL_FORMATS (kind (image t))) \<Longrightarrow> save_pixelFormat t = pixelFormat t"
  by (simp add: save_pixelFormat_def save_pixelTypeIndex_def PIXEL_FORMATS_indexOf
      textureKind_kind)

lemma save_tag_texture_id: "save_tag t hasData \<in> set [1, 16, 19, 24, 27, 28, 29, 34]"
  by (simp add: save_tag_def)

lemma length_concat_const:
  "\<forall>p\<in>set ps. length (f p) = n \<Longrightarrow> length (concat (map f ps)) = length ps * n"
  by (induction ps) simp_all

lemma written_frames:
  assumes "wellFormedTexture t"
  shows "\<forall>p\<in>set (written_pixels (save_arranged t (image t))).
           length (writePixel (pixelFormat t) p) = bytesPerPixel (pixelFormat t)"
proof
  let ?img = "image t"
  let ?cs = "traversal (linear t) (width ?img) (height ?img)"
  from assms have fits: "pixelFormat t \<in> set (CHANNEL_FORMATS (kind ?img))"
    and wf: "length (pixels ?img) = width ?img * height ?img"
    and ch: "\<forall>p\<in>set (pixels ?img). length p = channels ?img"
    by (simp_all add: wellFormedTexture_def)
  fix p assume "p \<in> set (written_pixels (save_arranged t ?img))"
  then obtain k where k: "k < width ?img * height ?img"
    and p: "p = written_pixels (save_arranged t ?img) ! k"
    by (auto simp: in_set_conv_nth length_written_pixels save_arranged_fields)
  let ?c = "?cs ! k"
  have "?c \<in> set ?cs" using k by (simp add: traversal_facts)
  then have "fst ?c < width ?img \<and> snd ?c < height ?img"
    using traversal_facts(3) [of "fst ?c" "snd ?c" "linear t" "width ?img" "height ?img"]
    by simp
  then have "snd ?c * width ?img + fst ?c < width ?img * height ?img"
    by (simp add: index_less)
  then have "getPixelXY ?img (fst ?c) (snd ?c) \<in> set (pixels ?img)"
    by (simp add: getPixelXY_def wf)
  with ch have "length (getPixelXY ?img (fst ?c) (snd ?c)) = channels ?img" by simp
  then have "length p = channels ?img"
    by (simp add: p written_at [OF wf k] length_zero_alpha)
  then show "length (writePixel (pixelFormat t) p) = bytesPerPixel (pixelFormat t)"
    using fits by (intro writePixel_length [of _ "kind ?img"])
      (simp_all add: channels_def components_def alpha_def)
qed

lemma wfTextureTag_savedTag:
  assumes "wellFormedTexture t"
  shows "wfTextureTag True (savedTag t)"
proof -
  from assms have fits: "pixelFormat t \<in> set (CHANNEL_FORMATS (kind (image t)))"
    by (simp add: wellFormedTexture_def)
  have "length (pixelBytes (savedTag t)) =
      width (image t) * height (image t) * bytesPerPixel (pixelFormat t)"
    using length_concat_const [OF written_frames [OF assms]]
    by (simp add: savedTag_def save_pixelFormat_fits [OF fits] length_written_pixels
        save_arranged_fields)
  with assms show ?thesis
    using save_tag_texture_id [of t True]
    by (simp add: wfTextureTag_def savedTag_def save_pixelTypeIndex_def indexOf_less
        PIXEL_FORMATS_indexOf wellFormedTexture_def)
qed

lemma textureOf_savedTag:
  assumes wft: "wellFormedTexture t"
    and layout: "load_linear (save_tag t True) = linear t"
  shows "textureOf True (savedTag t) = reloaded t"
proof -
  let ?img = "image t"
  let ?w = "width ?img" and ?h = "height ?img"
  let ?fmt = "pixelFormat t"
  let ?cs = "traversal (linear t) ?w ?h"
  let ?ps = "written_pixels (save_arranged t ?img)"
  let ?de = "\<lambda>p. decodePixel ?fmt (writePixel ?fmt p)"
  let ?G = "\<lambda>c. ?de (zero_alpha ?img (getPixelXY ?img (fst c) (snd c)))"
  let ?blank = "newImage ?w ?h (kind ?img)"
  let ?loaded = "setPixels ?cs (map ?de ?ps) ?blank"
  from wft have fits: "?fmt \<in> set (CHANNEL_FORMATS (kind ?img))"
    and wf: "length (pixels ?img) = ?w * ?h"
    by (simp_all add: wellFormedTexture_def)
  have lenps: "length ?ps = ?w * ?h"
    by (simp add: length_written_pixels save_arranged_fields)
  have ch: "chunks (length ?cs) (bytesPerPixel ?fmt) (concat (map (writePixel ?fmt) ?ps)) =
      map (writePixel ?fmt) ?ps"
    using chunks_concat [OF written_frames [OF wft]] by (simp add: traversal_facts lenps)
  have px: "pixels ?loaded = map (\<lambda>j. ?G (j mod ?w, j div ?w)) [0..<?w * ?h]"
  proof (rule setPixels_all)
    show "distinct (map (\<lambda>c. snd c * ?w + fst c) ?cs)" by (rule traversal_facts)
    show "length (map ?de ?ps) = length ?cs" by (simp add: lenps traversal_facts)
    show "(x, y) \<in> set ?cs" if "x < ?w" "y < ?h" for x y
      using that by (simp add: traversal_facts)
    show "width ?blank = ?w" "length (pixels ?blank) = ?w * ?h"
      by (simp_all add: newImage_fields)
    show "map ?de ?ps ! k = ?G (?cs ! k)" if "k < length ?cs" for k
      using that written_at [OF wf, of k t] by (simp add: traversal_facts lenps)
  qed
  have "map (\<lambda>j. ?G (j mod ?w, j div ?w)) [0..<?w * ?h] =
      map (\<lambda>p. ?de (zero_alpha ?img p)) (pixels ?img)"
  proof (rule nth_equalityI)
    show "length (map (\<lambda>j. ?G (j mod ?w, j div ?w)) [0..<?w * ?h]) =
        length (map (\<lambda>p. ?de (zero_alpha ?img p)) (pixels ?img))"
      by (simp add: wf)
  next
    fix j assume "j < length (map (\<lambda>j. ?G (j mod ?w, j div ?w)) [0..<?w * ?h])"
    then have j: "j < ?w * ?h" by simp
    from pixel_index [OF j] have "getPixelXY ?img (j mod ?w) (j div ?w) = pixels ?img ! j"
      by (simp add: getPixelXY_def)
    with j show "map (\<lambda>j. ?G (j mod ?w, j div ?w)) [0..<?w * ?h] ! j =
        map (\<lambda>p. ?de (zero_alpha ?img p)) (pixels ?img) ! j"
      by (simp add: wf)
  qed
  with px have px': "pixels ?loaded = map (\<lambda>p. ?de (zero_alpha ?img p)) (pixels ?img)"
    by simp
  have img: "?loaded = \<lparr>width = ?w, height = ?h, kind = kind ?img,
               pixels = map (\<lambda>p. ?de (zero_alpha ?img p)) (pixels ?img)\<rparr>"
    by (rule Image.equality) (simp_all add: setPixels_fields newImage_fields px')
  have img': "setPixels ?cs (map (decodePixel ?fmt) (map (writePixel ?fmt) ?ps)) ?blank =
      \<lparr>width = ?w, height = ?h, kind = kind ?img,
               pixels = map (\<lambda>p. ?de (zero_alpha ?img p)) (pixels ?img)\<rparr>"
    using img by (simp add: comp_def)
  have tr: "(if load_linear (save_tag t True) then linear_coords ?w ?h else block_coords ?w ?h) = ?cs"
    by (simp add: layout traversal_def)
  show ?thesis
    unfolding textureOf_def reloaded_def Let_def
    by (simp add: savedTag_def save_pixelTypeIndex_def PIXEL_FORMATS_indexOf
        PIXEL_CHANNELS_indexOf [OF fits] save_pixelFormat_fits [OF fits] tr ch img'
        del: map_map split del: if_split cong: if_cong)
qed

lemma lowres_opt:
  assumes "buffer swf = (if b then saveTag 23 [] else []) @ rest"
  shows "parseTags_loop cd st swf =
     parseTags_loop cd st
       (swf\<lparr>buffer := rest, useLowresTexture := (b \<or> useLowresTexture swf)\<rparr>)"
proof (cases b)
  case True
  with assms flag_turns(2) [of swf rest cd st] show ?thesis by simp
next
  case False
  with assms have "swf\<lparr>buffer := rest, useLowresTexture := (b \<or> useLowresTexture swf)\<rparr> = swf"
    by (intro SupercellSWF.equality) simp_all
  then show ?thesis by simp
qed

lemma uncommon_opt:
  assumes "buffer swf = (if b then saveTag 30 [] else []) @ rest"
  shows "parseTags_loop cd st swf =
     parseTags_loop cd st
       (swf\<lparr>buffer := rest, useUncommonTexture := (b \<or> useUncommonTexture swf)\<rparr>)"
proof (cases b)
  case True
  with assms flag_turns(1) [of swf rest cd st] show ?thesis by simp
next
  case False
  with assms have "swf\<lparr>buffer := rest, useUncommonTexture := (b \<or> useUncommonTexture swf)\<rparr> = swf"
    by (intro SupercellSWF.equality) simp_all
  then show ?thesis by simp
qed

lemma length_writeASCII: "length (writeASCII s) = (if s = [] then 1 else Suc (length s))"
  by (simp add: writeASCII_def)

lemma postfix_turn:
  assumes b: "buffer swf = saveTag 32 (writeASCII h @ writeASCII l) @ rest"
    and ne: "h \<noteq> []" "l \<noteq> []" and len: "length h < 255" "length l < 255"
  shows "parseTags_loop cd st swf =
     parseTags_loop cd st (swf\<lparr>buffer := rest, highresPostfix := h, lowresPostfix := l\<rparr>)"
proof -
  have "length (writeASCII h @ writeASCII l) < 2147483648"
    using len by (simp add: length_writeASCII)
  from parseTag_saveTag [OF b _ this, of cd st] ne len show ?thesis
    by (subst parseTags_loop.simps)
       (simp add: switchTag_def casePostfix_def readASCII_writeASCII)
qed

lemma postfix_opt:
  assumes b: "buffer swf = savePostfixTag D @ rest" and k: "postfixesKept D"
  shows "parseTags_loop cd st swf =
     parseTags_loop cd st
       (swf\<lparr>buffer := rest,
            highresPostfix := (if writesPostfixTag D then highresPostfix D else highresPostfix swf),
            lowresPostfix := (if writesPostfixTag D then lowresPostfix D else lowresPostfix swf)\<rparr>)"
proof (cases "writesPostfixTag D")
  case True
  with k have "highresPostfix D \<noteq> []" "lowresPostfix D \<noteq> []"
    "length (highresPostfix D) < 255" "length (lowresPostfix D) < 255"
    by (auto simp: postfixesKept_def writesPostfixTag_def)
  from postfix_turn [OF _ this, of swf rest cd st] b True show ?thesis
    by (simp add: savePostfixTag_def)
next
  case False
  with b have "swf\<lparr>buffer := rest, highresPostfix := highresPostfix swf,
      lowresPostfix := lowresPostfix swf\<rparr> = swf"
    by (intro SupercellSWF.equality) (simp_all add: savePostfixTag_def)
  with False show ?thesis by simp
qed

lemma saveTextures_savedTags:
  "snd (saveTextures resize True False ts) = concat (map textureTagBytes (map savedTag ts))"
  by (simp add: saveTextures_def Texture_save_savedTag comp_def)

lemma byte_formats_exact:
  assumes "fmt \<in> {GL_RGBA8, GL_LUMINANCE8_ALPHA8, GL_LUMINANCE8}"
    and "length p = bytesPerPixel fmt"
  shows "decodePixel fmt (writePixel fmt p) = p"
proof -
  have l4: "length p = 4 \<Longrightarrow> \<exists>a b c d. p = [a, b, c, d]"
    by (cases p; simp; cases "tl p"; simp; cases "tl (tl p)"; simp;
        cases "tl (tl (tl p))"; simp)
  have l2: "length p = 2 \<Longrightarrow> \<exists>a b. p = [a, b]"
    by (cases p; simp; cases "tl p"; simp)
  have l1: "length p = 1 \<Longrightarrow> \<exists>a. p = [a]"
    by (cases p; simp)
  from assms l4 l2 l1 show ?thesis by auto
qed

lemma wellFormed_blockTexture: "wellFormedTexture blockTexture"
  by (simp add: wellFormedTexture_def blockTexture_def channels_def components_def alpha_def)

lemma wellFormed_alphaTexture: "wellFormedTexture alphaTexture"
  by (simp add: wellFormedTexture_def alphaTexture_def channels_def components_def alpha_def)

subsection \<open>The block order\<close>

















subsection \<open>Paths of the texture files\<close>

lemma split_not_Nil: "split c s \<noteq> []"
  by (induction s) (auto split: list.splits)

lemma join_Cons: "ws \<noteq> [] \<Longrightarrow> join c (w # ws) = w @ c # join c ws"
  by (cases ws) simp_all

lemma join_split: "join c (split c s) = s"
proof (induction s)
  case Nil
  then show ?case by simp
next
  case (Cons x xs)
  show ?case
  proof (cases "x = c")
    case True
    with Cons split_not_Nil [of c xs] show ?thesis by (simp add: join_Cons)
  next
    case False
    obtain w ws where s: "split c xs = w # ws"
      using split_not_Nil [of c xs] by (cases "split c xs") auto
    with Cons False show ?thesis by (cases ws) simp_all
  qed
qed

lemma split_free: "w \<in> set (split c s) \<Longrightarrow> c \<notin> set w"
proof (induction s arbitrary: w)
  case Nil
  then show ?case by simp
next
  case (Cons x xs)
  show ?case
  proof (cases "x = c")
    case True
    with Cons show ?thesis by auto
  next
    case False
    obtain v vs where s: "split c xs = v # vs"
      using split_not_Nil [of c xs] by (cases "split c xs") auto
    with Cons.prems False have "w = x # v \<or> w \<in> set vs" by simp
    with Cons.IH [of v] Cons.IH [of w] s False show ?thesis by auto
  qed
qed

lemma join_snoc: "ws \<noteq> [] \<Longrightarrow> join c (ws @ [w]) = join c ws @ c # w"
proof (induction ws)
  case Nil
  then show ?case by simp
next
  case (Cons v vs)
  then show ?case by (cases vs) simp_all
qed

lemma texture_path_differs: "withoutExtension path @ s @ ''_tex.sc'' \<noteq> path"
proof
  let ?c = "CHR ''.''"
  let ?segs = "split ?c path"
  let ?init = "butlast ?segs" and ?l = "last ?segs"
  assume eq: "withoutExtension path @ s @ ''_tex.sc'' = path"
  have segs: "?segs = ?init @ [?l]" using split_not_Nil [of ?c path] by simp
  have free: "?c \<notin> set ?l"
    using split_free [of ?l ?c path] split_not_Nil [of ?c path] by simp
  have dot: "?c \<in> set (s @ ''_tex.sc'')" by simp
  show False
  proof (cases "?init = []")
    case True
    then have "path = ?l" using join_split [of ?c path] segs by (metis append_Nil join.simps(2))
    with eq True have "s @ ''_tex.sc'' = ?l"
      by (simp add: withoutExtension_def)
    with free dot show False by metis
  next
    case False
    have "path = join ?c (?init @ [?l])" using join_split [of ?c path] segs by metis
    also have "\<dots> = join ?c ?init @ ?c # ?l" using False by (rule join_snoc)
    finally have p: "path = join ?c ?init @ ?c # ?l" .
    have "join ?c ?init @ s @ ''_tex.sc'' = join ?c ?init @ ?c # ?l"
      using eq p by (simp add: withoutExtension_def)
    then have e: "s @ ''_tex.sc'' = ?c # ?l" by simp
    show False
    proof (cases s)
      case Nil
      with e show False by simp
    next
      case (Cons a s')
      with e have "?l = s' @ ''_tex.sc''" by simp
      then have "?c \<in> set ?l" by simp
      with free show False by simp
    qed
  qed
qed

subsection \<open>Reading the records of a saved document\<close>

lemma countLoaded_fields:
  "hasTextureData (countLoaded k n st) = hasTextureData st"
  "banksLoaded (countLoaded k n st) = banksLoaded st"
  "matricesLoaded (countLoaded k n st) = matricesLoaded st"
  "colorsLoaded (countLoaded k n st) = colorsLoaded st"
  "texturesLoaded (countLoaded k n st) = texturesLoaded st"
  "loadedCount k' (countLoaded k n st) = (if k' = k then loadedCount k st + n else loadedCount k' st)"
  by (cases k; cases k'; simp)+

lemma countLoaded_add: "countLoaded k n (countLoaded k m st) = countLoaded k (m + n) st"
  by (cases k) simp_all

lemma countLoaded_0: "countLoaded k 0 st = st"
  by (cases k) simp_all

lemma declaredCount_other:
  "declaredCount k (swf\<lparr>buffer := b, resources := r\<rparr>) = declaredCount k swf"
  by (cases k) simp_all

lemma record_turn:
  assumes b: "buffer swf = saveTag tag p @ rest"
    and tag: "tag \<in> set (tagsOfKind k)" and len: "length p < 2147483648"
    and ld: "loadResource cd k tag p = Inr (i, x)"
    and room: "loadedCount k st < declaredCount k swf"
  shows "parseTags_loop cd st swf =
     parseTags_loop cd (countLoaded k 1 st)
       (swf\<lparr>buffer := rest, resources := AList.update i x (resources swf)\<rparr>)"
proof -
  have lt: "tag < 256" using tag by (cases k) auto
  note pt = parseTag_saveTag [OF b lt len, of cd st]
  have "parseTag cd st swf =
      Inr (True, countLoaded k 1 st,
           swf\<lparr>buffer := rest, resources := AList.update i x (resources swf)\<rparr>)"
  proof (cases k)
    case ShapeKind
    with tag have sw: "switchTag cd tag n st' swf' = caseShape cd tag n st' swf'" for n st' swf'
      by (auto simp: switchTag_def)
    from ld room show ?thesis
      by (simp add: pt sw caseShape_def loadRecord_def payloadOf_append ShapeKind)
  next
    case MovieClipKind
    with tag have sw: "switchTag cd tag n st' swf' = caseMovieClip cd tag n st' swf'" for n st' swf'
      by (auto simp: switchTag_def)
    from ld room show ?thesis
      by (simp add: pt sw caseMovieClip_def loadRecord_def payloadOf_append MovieClipKind)
  next
    case TextFieldKind
    with tag have sw: "switchTag cd tag n st' swf' = caseTextField cd tag n st' swf'" for n st' swf'
      by (auto simp: switchTag_def)
    from ld room show ?thesis
      by (simp add: pt sw caseTextField_def loadRecord_def payloadOf_append TextFieldKind)
  next
    case ModifierKind
    with tag have sw: "switchTag cd tag n st' swf' = caseModifier cd tag n st' swf'" for n st' swf'
      by (auto simp: switchTag_def)
    from ld room show ?thesis
      by (simp add: pt sw caseModifier_def loadRecord_def payloadOf_append ModifierKind)
  qed
  then show ?thesis
    by (subst parseTags_loop.simps) simp
qed

lemma records_loop:
  assumes "buffer swf = concat (map (recordTag cd) xs) @ rest"
    and "\<forall>e\<in>set xs. storableRecord cd e \<and> kindOf cd (snd e) = k"
    and "loadedCount k st + length xs \<le> declaredCount k swf"
  shows "parseTags_loop cd st swf =
     parseTags_loop cd (countLoaded k (length xs) st)
       (swf\<lparr>buffer := rest,
            resources := foldl (\<lambda>rs e. AList.update (fst e) (snd e) rs) (resources swf) xs\<rparr>)"
  using assms
proof (induction xs arbitrary: st swf)
  case Nil
  then have "swf\<lparr>buffer := rest, resources := resources swf\<rparr> = swf"
    by (intro SupercellSWF.equality) simp_all
  then show ?case by (simp add: countLoaded_0)
next
  case (Cons e xs)
  let ?tag = "fst (saveResource cd (fst e) (snd e))"
  let ?p = "snd (saveResource cd (fst e) (snd e))"
  let ?st = "countLoaded k 1 st"
  let ?swf = "swf\<lparr>buffer := concat (map (recordTag cd) xs) @ rest,
                  resources := AList.update (fst e) (snd e) (resources swf)\<rparr>"
  from Cons.prems(2) have se: "storableRecord cd e" and ke: "kindOf cd (snd e) = k" by simp_all
  from se ke have tag: "?tag \<in> set (tagsOfKind k)" and len: "length ?p < 2147483648"
    and ld: "loadResource cd k ?tag ?p = Inr (fst e, snd e)"
    by (simp_all add: storableRecord_def)
  have rt: "recordTag cd e = saveTag ?tag ?p" by (simp add: recordTag_def)
  have b: "buffer swf = saveTag ?tag ?p @ concat (map (recordTag cd) xs) @ rest"
    using Cons.prems(1) by (simp add: rt)
  from Cons.prems(3) have room: "loadedCount k st < declaredCount k swf" by simp
  have "parseTags_loop cd ?st ?swf =
     parseTags_loop cd (countLoaded k (length xs) ?st)
       (?swf\<lparr>buffer := rest,
            resources := foldl (\<lambda>rs e. AList.update (fst e) (snd e) rs) (resources ?swf) xs\<rparr>)"
    using Cons.prems(2,3)
    by (intro Cons.IH) (simp_all add: countLoaded_fields declaredCount_other)
  with record_turn [OF b tag len ld room] show ?case
    by (simp add: countLoaded_add)
qed

lemma update_fresh: "k \<notin> fst ` set al \<Longrightarrow> AList.update k v al = al @ [(k, v)]"
  by (induction al) auto

lemma foldl_update_fresh:
  "distinct (map fst (rs @ xs)) \<Longrightarrow>
   foldl (\<lambda>rs e. AList.update (fst e) (snd e) rs) rs xs = rs @ xs"
proof (induction xs arbitrary: rs)
  case Nil
  then show ?case by simp
next
  case (Cons e xs)
  from Cons.prems have "fst e \<notin> fst ` set rs" by auto
  then have u: "AList.update (fst e) (snd e) rs = rs @ [e]" by (simp add: update_fresh)
  from Cons.prems have "distinct (map fst ((rs @ [e]) @ xs))" by simp
  from Cons.IH [OF this] u show ?case by simp
qed

lemma idsOfKind_records: "idsOfKind cd k rs = map fst (recordsOfKind cd k rs)"
  by (simp add: idsOfKind_def recordsOfKind_def case_prod_unfold)

lemma set_recordsOfKind: "set (recordsOfKind cd k rs) = {e \<in> set rs. kindOf cd (snd e) = k}"
  by (auto simp: recordsOfKind_def)

lemma distinct_recordsOfKind:
  "distinct (map fst rs) \<Longrightarrow> distinct (map fst (recordsOfKind cd k rs))"
proof -
  assume "distinct (map fst rs)"
  then have "distinct (map fst (sort_key fst rs))"
    by (metis distinct_map distinct_sort set_sort)
  then show ?thesis
    unfolding recordsOfKind_def by (rule distinct_map_filter)
qed

lemma saveRecords_records:
  assumes "distinct (map fst rs)"
  shows "saveRecords cd rs (idsOfKind cd k rs) = concat (map (recordTag cd) (recordsOfKind cd k rs))"
proof -
  have eq: "map (\<lambda>e. case map_of rs (fst e) of None \<Rightarrow> []
        | Some x \<Rightarrow> saveTag (fst (saveResource cd (fst e) x)) (snd (saveResource cd (fst e) x)))
      (recordsOfKind cd k rs) = map (recordTag cd) (recordsOfKind cd k rs)"
  proof (rule map_cong [OF refl])
    fix e assume "e \<in> set (recordsOfKind cd k rs)"
    then have "(fst e, snd e) \<in> set rs" by (simp add: set_recordsOfKind)
    with assms have "map_of rs (fst e) = Some (snd e)" by (rule map_of_is_SomeI)
    then show "(case map_of rs (fst e) of None \<Rightarrow> []
        | Some x \<Rightarrow> saveTag (fst (saveResource cd (fst e) x)) (snd (saveResource cd (fst e) x))) =
      recordTag cd e"
      by (simp add: recordTag_def)
  qed
  show ?thesis
    unfolding saveRecords_def idsOfKind_records map_map comp_def eq ..
qed

lemma set_savedOrder: "set (savedOrder cd rs) = set rs"
proof -
  have "kindOf cd (snd e) = ModifierKind \<or> kindOf cd (snd e) = ShapeKind \<or>
      kindOf cd (snd e) = TextFieldKind \<or> kindOf cd (snd e) = MovieClipKind" for e :: "nat \<times> 'a"
    by (cases "kindOf cd (snd e)") simp_all
  then show ?thesis
    by (auto simp: savedOrder_def set_recordsOfKind)
qed

lemma distinct_savedOrder:
  assumes d: "distinct (map fst rs)"
  shows "distinct (map fst (savedOrder cd rs))"
proof -
  have inj: "e = e'" if "e \<in> set rs" "e' \<in> set rs" "fst e = fst e'" for e e'
    using d that by (meson distinct_map inj_onD)
  have dis: "fst ` set (recordsOfKind cd k rs) \<inter> fst ` set (recordsOfKind cd k' rs) = {}"
    if "k \<noteq> k'" for k k'
  proof (rule ccontr)
    assume "fst ` set (recordsOfKind cd k rs) \<inter> fst ` set (recordsOfKind cd k' rs) \<noteq> {}"
    then obtain e e' where "e \<in> set rs" "kindOf cd (snd e) = k" "e' \<in> set rs"
      "kindOf cd (snd e') = k'" "fst e = fst e'"
      by (auto simp: set_recordsOfKind)
    with inj [of e e'] that show False by simp
  qed
  show ?thesis
    unfolding savedOrder_def
    by (simp add: distinct_recordsOfKind [OF d] dis Int_Un_distrib Int_Un_distrib2 image_Un)
qed

lemma map_of_savedOrder:
  "distinct (map fst rs) \<Longrightarrow> map_of (savedOrder cd rs) = map_of rs"
  by (simp add: map_of_inject_set distinct_savedOrder set_savedOrder)

lemma records_of_kind:
  "\<forall>e\<in>set rs. storableRecord cd e \<Longrightarrow>
   \<forall>e\<in>set (recordsOfKind cd k rs). storableRecord cd e \<and> kindOf cd (snd e) = k"
  by (simp add: set_recordsOfKind)

subsection \<open>Reading the banks of a saved document\<close>

lemma storeFrom_eq:
  "j + length vs \<le> length xs \<Longrightarrow> storeFrom j vs xs = take j xs @ vs @ drop (j + length vs) xs"
proof (induction vs arbitrary: j xs)
  case Nil
  then show ?case by simp
next
  case (Cons v vs)
  then have j: "j < length xs" by simp
  then have "take (Suc j) (xs[j := v]) = take j xs @ [v]"
    by (simp add: take_Suc_conv_app_nth)
  with Cons.IH [of "Suc j" "xs[j := v]"] Cons.prems show ?case by simp
qed

lemma storeFrom_all: "storeFrom 0 vs (replicate (length vs) a) = vs"
  by (simp add: storeFrom_eq)

lemma matrix_turn:
  assumes b: "buffer swf = matrixTag cd m @ rest" and sm: "storableMatrix cd m"
    and bl: "banksLoaded st < length (banks swf)"
    and ml: "matricesLoaded st < length (matrices (banks swf ! banksLoaded st))"
  shows "parseTags_loop cd st swf =
     parseTags_loop cd (st\<lparr>matricesLoaded := matricesLoaded st + 1\<rparr>)
       (swf\<lparr>buffer := rest,
            banks := (banks swf)[banksLoaded st :=
               (banks swf ! banksLoaded st)
                 \<lparr>matrices := (matrices (banks swf ! banksLoaded st))[matricesLoaded st := m]\<rparr>]\<rparr>)"
proof -
  let ?tag = "fst (saveMatrix cd m)" and ?p = "snd (saveMatrix cd m)"
  from sm have tag: "?tag = 8 \<or> ?tag = 36" and len: "length ?p < 2147483648"
    and ld: "loadMatrix cd ?tag ?p = Inr m"
    by (simp_all add: storableMatrix_def)
  from tag have lt: "?tag < 256" by auto
  have b': "buffer swf = saveTag ?tag ?p @ rest" using b by (simp add: matrixTag_def)
  from tag have sw: "switchTag cd ?tag n st' swf' = caseMatrix cd ?tag n st' swf'" for n st' swf'
    by (auto simp: switchTag_def)
  have "parseTag cd st swf =
      Inr (True, st\<lparr>matricesLoaded := matricesLoaded st + 1\<rparr>,
       swf\<lparr>buffer := rest,
            banks := (banks swf)[banksLoaded st :=
               (banks swf ! banksLoaded st)
                 \<lparr>matrices := (matrices (banks swf ! banksLoaded st))[matricesLoaded st := m]\<rparr>]\<rparr>)"
    using ld bl ml
    by (simp add: parseTag_saveTag [OF b' lt len] sw caseMatrix_def payloadOf_append Let_def)
  then show ?thesis
    by (subst parseTags_loop.simps) simp
qed

lemma color_turn:
  assumes b: "buffer swf = colorTag cd c @ rest" and sc: "storableColor cd c"
    and bl: "banksLoaded st < length (banks swf)"
    and cl: "colorsLoaded st < length (colors (banks swf ! banksLoaded st))"
  shows "parseTags_loop cd st swf =
     parseTags_loop cd (st\<lparr>colorsLoaded := colorsLoaded st + 1\<rparr>)
       (swf\<lparr>buffer := rest,
            banks := (banks swf)[banksLoaded st :=
               (banks swf ! banksLoaded st)
                 \<lparr>colors := (colors (banks swf ! banksLoaded st))[colorsLoaded st := c]\<rparr>]\<rparr>)"
proof -
  let ?p = "snd (saveColor cd c)"
  from sc have tag: "fst (saveColor cd c) = 9" and len: "length ?p < 2147483648"
    by (simp_all add: storableColor_def)
  have "loadColor cd (fst (saveColor cd c)) ?p = Inr c"
    using sc unfolding storableColor_def by blast
  then have ld: "loadColor cd 9 ?p = Inr c" by (simp only: tag)
  have b': "buffer swf = saveTag 9 ?p @ rest" using b tag by (simp add: colorTag_def)
  have sw: "switchTag cd 9 n st' swf' = caseColor cd 9 n st' swf'" for n st' swf'
    by (simp add: switchTag_def)
  have "parseTag cd st swf =
      Inr (True, st\<lparr>colorsLoaded := colorsLoaded st + 1\<rparr>,
       swf\<lparr>buffer := rest,
            banks := (banks swf)[banksLoaded st :=
               (banks swf ! banksLoaded st)
                 \<lparr>colors := (colors (banks swf ! banksLoaded st))[colorsLoaded st := c]\<rparr>]\<rparr>)"
    using ld bl cl
    by (simp add: parseTag_saveTag [OF b' _ len] sw caseColor_def payloadOf_append Let_def)
  then show ?thesis
    by (subst parseTags_loop.simps) simp
qed

lemma matrices_loop:
  assumes "buffer swf = concat (map (matrixTag cd) ms) @ rest"
    and "\<forall>m\<in>set ms. storableMatrix cd m"
    and "banksLoaded st < length (banks swf)"
    and "matricesLoaded st + length ms \<le> length (matrices (banks swf ! banksLoaded st))"
  shows "parseTags_loop cd st swf =
     parseTags_loop cd (st\<lparr>matricesLoaded := matricesLoaded st + length ms\<rparr>)
       (swf\<lparr>buffer := rest,
            banks := (banks swf)[banksLoaded st :=
               (banks swf ! banksLoaded st)
                 \<lparr>matrices := storeFrom (matricesLoaded st) ms
                                (matrices (banks swf ! banksLoaded st))\<rparr>]\<rparr>)"
  using assms
proof (induction ms arbitrary: st swf)
  case Nil
  then have "swf\<lparr>buffer := rest,
       banks := (banks swf)[banksLoaded st :=
          (banks swf ! banksLoaded st)\<lparr>matrices := matrices (banks swf ! banksLoaded st)\<rparr>]\<rparr> = swf"
    by (intro SupercellSWF.equality) simp_all
  moreover have "st\<lparr>matricesLoaded := matricesLoaded st\<rparr> = st" by simp
  ultimately show ?case by simp
next
  case (Cons m ms)
  let ?b = "banksLoaded st" and ?j = "matricesLoaded st"
  let ?bank = "banks swf ! ?b"
  let ?st = "st\<lparr>matricesLoaded := ?j + 1\<rparr>"
  let ?swf = "swf\<lparr>buffer := concat (map (matrixTag cd) ms) @ rest,
                  banks := (banks swf)[?b := ?bank\<lparr>matrices := (matrices ?bank)[?j := m]\<rparr>]\<rparr>"
  have b: "buffer swf = matrixTag cd m @ concat (map (matrixTag cd) ms) @ rest"
    using Cons.prems(1) by simp
  from Cons.prems have sm: "storableMatrix cd m" and bl: "?b < length (banks swf)"
    and ml: "?j < length (matrices ?bank)"
    by simp_all
  have "parseTags_loop cd ?st ?swf =
     parseTags_loop cd (?st\<lparr>matricesLoaded := matricesLoaded ?st + length ms\<rparr>)
       (?swf\<lparr>buffer := rest,
            banks := (banks ?swf)[banksLoaded ?st :=
               (banks ?swf ! banksLoaded ?st)
                 \<lparr>matrices := storeFrom (matricesLoaded ?st) ms
                                (matrices (banks ?swf ! banksLoaded ?st))\<rparr>]\<rparr>)"
    using Cons.prems by (intro Cons.IH) simp_all
  with matrix_turn [OF b sm bl ml] bl show ?case
    by simp
qed

lemma colors_loop:
  assumes "buffer swf = concat (map (colorTag cd) cs) @ rest"
    and "\<forall>c\<in>set cs. storableColor cd c"
    and "banksLoaded st < length (banks swf)"
    and "colorsLoaded st + length cs \<le> length (colors (banks swf ! banksLoaded st))"
  shows "parseTags_loop cd st swf =
     parseTags_loop cd (st\<lparr>colorsLoaded := colorsLoaded st + length cs\<rparr>)
       (swf\<lparr>buffer := rest,
            banks := (banks swf)[banksLoaded st :=
               (banks swf ! banksLoaded st)
                 \<lparr>colors := storeFrom (colorsLoaded st) cs
                              (colors (banks swf ! banksLoaded st))\<rparr>]\<rparr>)"
  using assms
proof (induction cs arbitrary: st swf)
  case Nil
  then have "swf\<lparr>buffer := rest,
       banks := (banks swf)[banksLoaded st :=
          (banks swf ! banksLoaded st)\<lparr>colors := colors (banks swf ! banksLoaded st)\<rparr>]\<rparr> = swf"
    by (intro SupercellSWF.equality) simp_all
  moreover have "st\<lparr>colorsLoaded := colorsLoaded st\<rparr> = st" by simp
  ultimately show ?case by simp
next
  case (Cons c cs)
  let ?b = "banksLoaded st" and ?j = "colorsLoaded st"
  let ?bank = "banks swf ! ?b"
  let ?st = "st\<lparr>colorsLoaded := ?j + 1\<rparr>"
  let ?swf = "swf\<lparr>buffer := concat (map (colorTag cd) cs) @ rest,
                  banks := (banks swf)[?b := ?bank\<lparr>colors := (colors ?bank)[?j := c]\<rparr>]\<rparr>"
  have b: "buffer swf = colorTag cd c @ concat (map (colorTag cd) cs) @ rest"
    using Cons.prems(1) by simp
  from Cons.prems have sc: "storableColor cd c" and bl: "?b < length (banks swf)"
    and cl: "?j < length (colors ?bank)"
    by simp_all
  have "parseTags_loop cd ?st ?swf =
     parseTags_loop cd (?st\<lparr>colorsLoaded := colorsLoaded ?st + length cs\<rparr>)
       (?swf\<lparr>buffer := rest,
            banks := (banks ?swf)[banksLoaded ?st :=
               (banks ?swf ! banksLoaded ?st)
                 \<lparr>colors := storeFrom (colorsLoaded ?st) cs
                              (colors (banks ?swf ! banksLoaded ?st))\<rparr>]\<rparr>)"
    using Cons.prems by (intro Cons.IH) simp_all
  with color_turn [OF b sc bl cl] bl show ?case
    by simp
qed

lemma bank_entries_loop:
  assumes b: "buffer swf = bankEntries cd bank @ rest"
    and sb: "storableBank cd bank"
    and bl: "banksLoaded st < length (banks swf)"
    and ph: "banks swf ! banksLoaded st =
        \<lparr>matrices = replicate (length (matrices bank)) (newMatrix cd),
         colors = replicate (length (colors bank)) (newColor cd)\<rparr>"
    and z: "matricesLoaded st = 0" "colorsLoaded st = 0"
  shows "parseTags_loop cd st swf =
     parseTags_loop cd
       (st\<lparr>matricesLoaded := length (matrices bank), colorsLoaded := length (colors bank)\<rparr>)
       (swf\<lparr>buffer := rest, banks := (banks swf)[banksLoaded st := bank]\<rparr>)"
proof -
  let ?ms = "matrices bank" and ?cs = "colors bank"
  let ?b = "banksLoaded st"
  let ?st1 = "st\<lparr>matricesLoaded := matricesLoaded st + length ?ms\<rparr>"
  let ?swf1 = "swf\<lparr>buffer := concat (map (colorTag cd) ?cs) @ rest,
            banks := (banks swf)[?b :=
               (banks swf ! ?b)\<lparr>matrices := storeFrom (matricesLoaded st) ?ms
                                (matrices (banks swf ! ?b))\<rparr>]\<rparr>"
  from sb have sm: "\<forall>m\<in>set ?ms. storableMatrix cd m" and sc: "\<forall>c\<in>set ?cs. storableColor cd c"
    by (simp_all add: storableBank_def)
  have b1: "buffer swf = concat (map (matrixTag cd) ?ms) @ concat (map (colorTag cd) ?cs) @ rest"
    using b by (simp add: bankEntries_def)
  have 1: "parseTags_loop cd st swf = parseTags_loop cd ?st1 ?swf1"
    by (rule matrices_loop [OF b1 sm bl]) (simp add: ph z)
  have 2: "parseTags_loop cd ?st1 ?swf1 =
     parseTags_loop cd (?st1\<lparr>colorsLoaded := colorsLoaded ?st1 + length ?cs\<rparr>)
       (?swf1\<lparr>buffer := rest,
            banks := (banks ?swf1)[banksLoaded ?st1 :=
               (banks ?swf1 ! banksLoaded ?st1)
                 \<lparr>colors := storeFrom (colorsLoaded ?st1) ?cs
                              (colors (banks ?swf1 ! banksLoaded ?st1))\<rparr>]\<rparr>)"
    using bl by (intro colors_loop [OF _ sc]) (simp_all add: ph z)
  have st: "?st1\<lparr>colorsLoaded := colorsLoaded ?st1 + length ?cs\<rparr> =
      st\<lparr>matricesLoaded := length ?ms, colorsLoaded := length ?cs\<rparr>"
    by (simp add: z)
  have bank: "(banks ?swf1)[banksLoaded ?st1 :=
               (banks ?swf1 ! banksLoaded ?st1)
                 \<lparr>colors := storeFrom (colorsLoaded ?st1) ?cs
                              (colors (banks ?swf1 ! banksLoaded ?st1))\<rparr>] =
      (banks swf)[?b := bank]"
  proof -
    have eq: "\<lparr>matrices = matrices bank, colors = colors bank\<rparr> = bank" by simp
    show ?thesis using bl by (simp add: ph z storeFrom_all eq)
  qed
  have "?swf1\<lparr>buffer := rest,
            banks := (banks ?swf1)[banksLoaded ?st1 :=
               (banks ?swf1 ! banksLoaded ?st1)
                 \<lparr>colors := storeFrom (colorsLoaded ?st1) ?cs
                              (colors (banks ?swf1 ! banksLoaded ?st1))\<rparr>]\<rparr> =
      swf\<lparr>buffer := rest, banks := (banks swf)[?b := bank]\<rparr>"
    unfolding bank by simp
  with 1 2 st show ?thesis by simp
qed

lemma bank_turn:
  assumes b: "buffer swf = saveTag 42 (TransformBank_counts bank) @ bankEntries cd bank @ rest"
    and sb: "storableBank cd bank"
    and bl: "banksLoaded st + 1 = length (banks swf)"
  shows "parseTags_loop cd st swf =
     parseTags_loop cd
       (st\<lparr>matricesLoaded := length (matrices bank), colorsLoaded := length (colors bank),
           banksLoaded := banksLoaded st + 1\<rparr>)
       (swf\<lparr>buffer := rest, banks := banks swf @ [bank]\<rparr>)"
proof -
  let ?ph = "\<lparr>matrices = replicate (length (matrices bank)) (newMatrix cd),
              colors = replicate (length (colors bank)) (newColor cd)\<rparr>"
  let ?st1 = "st\<lparr>matricesLoaded := 0, colorsLoaded := 0, banksLoaded := banksLoaded st + 1\<rparr>"
  let ?swf1 = "swf\<lparr>buffer := bankEntries cd bank @ rest, banks := banks swf @ [?ph]\<rparr>"
  from sb have n: "length (matrices bank) < 65536" "length (colors bank) < 65536"
    by (simp_all add: storableBank_def)
  have len: "length (TransformBank_counts bank) < 2147483648"
    by (simp add: TransformBank_counts_def writeUInt16_def)
  have "parseTag cd st swf = Inr (True, ?st1, ?swf1)"
    using TransformBank_load_counts [OF n, where cd = cd and swf = swf
        and r = "bankEntries cd bank @ rest"]
    by (simp add: parseTag_saveTag [OF b _ len] switchTag_def caseBank_def)
  then have 1: "parseTags_loop cd st swf = parseTags_loop cd ?st1 ?swf1"
    by (subst parseTags_loop.simps) simp
  have 2: "parseTags_loop cd ?st1 ?swf1 =
     parseTags_loop cd
       (?st1\<lparr>matricesLoaded := length (matrices bank), colorsLoaded := length (colors bank)\<rparr>)
       (?swf1\<lparr>buffer := rest, banks := (banks ?swf1)[banksLoaded ?st1 := bank]\<rparr>)"
    using bl by (intro bank_entries_loop [OF _ sb])
      (simp_all add: nth_append)
  have "(banks ?swf1)[banksLoaded ?st1 := bank] = banks swf @ [bank]"
    using bl by (simp add: list_update_append)
  then have e1: "?swf1\<lparr>buffer := rest, banks := (banks ?swf1)[banksLoaded ?st1 := bank]\<rparr> =
      swf\<lparr>buffer := rest, banks := banks swf @ [bank]\<rparr>"
    by simp
  have e2: "?st1\<lparr>matricesLoaded := length (matrices bank),
        colorsLoaded := length (colors bank)\<rparr> =
      st\<lparr>matricesLoaded := length (matrices bank), colorsLoaded := length (colors bank),
           banksLoaded := banksLoaded st + 1\<rparr>"
    by simp
  show ?thesis by (simp only: 1 2 e1 e2)
qed

lemma later_banks_loop:
  assumes "buffer swf =
      concat (map (\<lambda>b. saveTag 42 (TransformBank_counts b) @ bankEntries cd b) bs) @ rest"
    and "\<forall>b\<in>set bs. storableBank cd b"
    and "banksLoaded st + 1 = length (banks swf)"
  shows "\<exists>st'. parseTags_loop cd st swf =
       parseTags_loop cd st' (swf\<lparr>buffer := rest, banks := banks swf @ bs\<rparr>) \<and>
     (\<forall>k. loadedCount k st' = loadedCount k st)"
  using assms
proof (induction bs arbitrary: st swf)
  case Nil
  then have "swf\<lparr>buffer := rest, banks := banks swf @ []\<rparr> = swf"
    by (intro SupercellSWF.equality) simp_all
  then show ?case by auto
next
  case (Cons b bs)
  let ?st = "st\<lparr>matricesLoaded := length (matrices b), colorsLoaded := length (colors b),
           banksLoaded := banksLoaded st + 1\<rparr>"
  let ?rest = "concat (map (\<lambda>b. saveTag 42 (TransformBank_counts b) @ bankEntries cd b) bs) @ rest"
  let ?swf = "swf\<lparr>buffer := ?rest, banks := banks swf @ [b]\<rparr>"
  have bb: "buffer swf = saveTag 42 (TransformBank_counts b) @ bankEntries cd b @ ?rest"
    using Cons.prems(1) by simp
  from Cons.prems(2) have sb: "storableBank cd b" by simp
  note 1 = bank_turn [OF bb sb Cons.prems(3)]
  have "\<exists>st'. parseTags_loop cd ?st ?swf =
       parseTags_loop cd st' (?swf\<lparr>buffer := rest, banks := banks ?swf @ bs\<rparr>) \<and>
     (\<forall>k. loadedCount k st' = loadedCount k ?st)"
    using Cons.prems(2,3) by (intro Cons.IH) simp_all
  then obtain st' where 2: "parseTags_loop cd ?st ?swf =
       parseTags_loop cd st' (?swf\<lparr>buffer := rest, banks := banks ?swf @ bs\<rparr>)"
    and 3: "\<forall>k. loadedCount k st' = loadedCount k ?st"
    by blast
  have "?swf\<lparr>buffer := rest, banks := banks ?swf @ bs\<rparr> =
      swf\<lparr>buffer := rest, banks := banks swf @ b # bs\<rparr>"
    by simp
  moreover have "loadedCount k ?st = loadedCount k st" for k by (cases k) simp_all
  ultimately show ?case using 1 2 3 by auto
qed

lemma saveBanks_later:
  "concat (map (\<lambda>(bankIndex, bank).
                    (if bankIndex > 0 then TransformBank_save bank True else []) @
                    concat (map (\<lambda>m. saveTag (fst (saveMatrix cd m)) (snd (saveMatrix cd m)))
                                (matrices bank)) @
                    concat (map (\<lambda>c. saveTag (fst (saveColor cd c)) (snd (saveColor cd c)))
                                (colors bank)))
                 (enumerate (Suc n) bs)) =
   concat (map (\<lambda>b. saveTag 42 (TransformBank_counts b) @ bankEntries cd b) bs)"
proof (induction bs arbitrary: n)
  case Nil
  then show ?case by simp
next
  case (Cons b bs)
  have m: "(\<lambda>m. saveTag (fst (saveMatrix cd m)) (snd (saveMatrix cd m))) = matrixTag cd"
    "(\<lambda>c. saveTag (fst (saveColor cd c)) (snd (saveColor cd c))) = colorTag cd"
    by (simp_all add: matrixTag_def colorTag_def fun_eq_iff)
  from Cons [of "Suc n"] show ?case
    by (simp add: m bankEntries_def TransformBank_save_def)
qed

lemma saveBanks_Cons:
  "saveBanks cd (b # bs) =
     bankEntries cd b @
     concat (map (\<lambda>b. saveTag 42 (TransformBank_counts b) @ bankEntries cd b) bs)"
proof -
  have m: "(\<lambda>m. saveTag (fst (saveMatrix cd m)) (snd (saveMatrix cd m))) = matrixTag cd"
    "(\<lambda>c. saveTag (fst (saveColor cd c)) (snd (saveColor cd c))) = colorTag cd"
    by (simp_all add: matrixTag_def colorTag_def fun_eq_iff)
  show ?thesis
    unfolding saveBanks_def
    using saveBanks_later [of cd 0 bs]
    by (simp add: m bankEntries_def)
qed

lemma saveBanks_Nil: "saveBanks cd [] = []"
  by (simp add: saveBanks_def)

lemma banks_segment:
  assumes b: "buffer swf = saveBanks cd bs @ rest"
    and sb: "\<forall>b\<in>set bs. storableBank cd b"
    and ph: "banks swf =
        [\<lparr>matrices = replicate (length (matrices (primaryBank bs))) (newMatrix cd),
          colors = replicate (length (colors (primaryBank bs))) (newColor cd)\<rparr>]"
    and z: "banksLoaded st = 0" "matricesLoaded st = 0" "colorsLoaded st = 0"
  shows "\<exists>st'. parseTags_loop cd st swf =
       parseTags_loop cd st' (swf\<lparr>buffer := rest, banks := loadedBanks bs\<rparr>) \<and>
     (\<forall>k. loadedCount k st' = loadedCount k st)"
proof (cases bs)
  case Nil
  with b ph have "swf\<lparr>buffer := rest, banks := loadedBanks bs\<rparr> = swf"
    by (intro SupercellSWF.equality) (simp_all add: saveBanks_Nil loadedBanks_def primaryBank_def)
  then show ?thesis by auto
next
  case (Cons b0 bs')
  let ?later = "concat (map (\<lambda>b. saveTag 42 (TransformBank_counts b) @ bankEntries cd b) bs')"
  let ?st1 = "st\<lparr>matricesLoaded := length (matrices b0), colorsLoaded := length (colors b0)\<rparr>"
  let ?swf1 = "swf\<lparr>buffer := ?later @ rest, banks := (banks swf)[banksLoaded st := b0]\<rparr>"
  from sb Cons have s0: "storableBank cd b0" and s': "\<forall>b\<in>set bs'. storableBank cd b"
    by simp_all
  have b1: "buffer swf = bankEntries cd b0 @ ?later @ rest"
    using b Cons by (simp add: saveBanks_Cons)
  have 1: "parseTags_loop cd st swf = parseTags_loop cd ?st1 ?swf1"
    by (rule bank_entries_loop [OF b1 s0])
       (simp_all add: ph z Cons primaryBank_def)
  have "\<exists>st'. parseTags_loop cd ?st1 ?swf1 =
       parseTags_loop cd st' (?swf1\<lparr>buffer := rest, banks := banks ?swf1 @ bs'\<rparr>) \<and>
     (\<forall>k. loadedCount k st' = loadedCount k ?st1)"
    by (rule later_banks_loop [OF _ s']) (simp_all add: ph z)
  then obtain st' where 2: "parseTags_loop cd ?st1 ?swf1 =
       parseTags_loop cd st' (?swf1\<lparr>buffer := rest, banks := banks ?swf1 @ bs'\<rparr>)"
    and 3: "\<forall>k. loadedCount k st' = loadedCount k ?st1"
    by blast
  have "?swf1\<lparr>buffer := rest, banks := banks ?swf1 @ bs'\<rparr> =
      swf\<lparr>buffer := rest, banks := loadedBanks bs\<rparr>"
    by (simp add: ph z Cons loadedBanks_def)
  moreover have "loadedCount k ?st1 = loadedCount k st" for k by (cases k) simp_all
  ultimately show ?thesis using 1 2 3 by auto
qed

subsection \<open>Reading a saved document\<close>

lemma modcount_opt:
  assumes b: "buffer swf = (if 0 < n then saveTag 37 (writeUInt16 n) else []) @ rest"
    and n: "n < 65536"
  shows "parseTags_loop cd st swf =
     parseTags_loop cd st
       (swf\<lparr>buffer := rest, modifiersCount := (if 0 < n then n else modifiersCount swf)\<rparr>)"
proof (cases "0 < n")
  case True
  have len: "length (writeUInt16 n) < 2147483648" by (simp add: writeUInt16_def)
  from b True have b': "buffer swf = saveTag 37 (writeUInt16 n) @ rest" by simp
  have "parseTag cd st swf = Inr (True, st, swf\<lparr>buffer := rest, modifiersCount := n\<rparr>)"
    using n
    by (simp add: parseTag_saveTag [OF b' _ len] switchTag_def caseModifiersCount_def
        readUInt16_writeUInt16)
  with True show ?thesis
    by (subst parseTags_loop.simps) simp
next
  case False
  with b have "swf\<lparr>buffer := rest, modifiersCount := (if 0 < n then n else modifiersCount swf)\<rparr> = swf"
    by (intro SupercellSWF.equality) simp_all
  then show ?thesis by simp
qed

lemma external_opt:
  assumes "buffer swf = (if b then saveTag 26 [] else []) @ rest"
  shows "parseTags_loop cd st swf =
     parseTags_loop cd (st\<lparr>hasTextureData := (hasTextureData st \<and> \<not> b)\<rparr>)
       (swf\<lparr>buffer := rest, hasExternalTexture := (b \<or> hasExternalTexture swf)\<rparr>)"
proof (cases b)
  case True
  with assms external_turn [of swf rest cd st] show ?thesis by simp
next
  case False
  with assms have "swf\<lparr>buffer := rest, hasExternalTexture := (b \<or> hasExternalTexture swf)\<rparr> = swf"
    by (intro SupercellSWF.equality) simp_all
  moreover from False have "st\<lparr>hasTextureData := (hasTextureData st \<and> \<not> b)\<rparr> = st" by simp
  ultimately show ?thesis by simp
qed

lemma tail_loaded:
  assumes b: "buffer swf =
      (if 0 < length (recordsOfKind cd ModifierKind rs)
       then saveTag 37 (writeUInt16 (length (recordsOfKind cd ModifierKind rs))) else []) @
      concat (map (recordTag cd) (recordsOfKind cd ModifierKind rs)) @
      concat (map (recordTag cd) (recordsOfKind cd ShapeKind rs)) @
      concat (map (recordTag cd) (recordsOfKind cd TextFieldKind rs)) @
      saveBanks cd bs @
      concat (map (recordTag cd) (recordsOfKind cd MovieClipKind rs)) @
      saveTag 0 []"
    and d: "distinct (map fst rs)" and sr: "\<forall>e\<in>set rs. storableRecord cd e"
    and n: "length (recordsOfKind cd ModifierKind rs) < 65536"
    and sb: "\<forall>b\<in>set bs. storableBank cd b"
    and res: "resources swf = []" and mc: "modifiersCount swf = 0"
    and sc: "shapeCount swf = length (recordsOfKind cd ShapeKind rs)"
    and cc: "movieClipsCount swf = length (recordsOfKind cd MovieClipKind rs)"
    and tc: "textFieldsCount swf = length (recordsOfKind cd TextFieldKind rs)"
    and ph: "banks swf =
        [\<lparr>matrices = replicate (length (matrices (primaryBank bs))) (newMatrix cd),
          colors = replicate (length (colors (primaryBank bs))) (newColor cd)\<rparr>]"
    and st0: "\<forall>k. loadedCount k st = 0"
    and z: "banksLoaded st = 0" "matricesLoaded st = 0" "colorsLoaded st = 0"
  shows "parseTags_loop cd st swf =
     Inr (swf\<lparr>buffer := [], modifiersCount := length (recordsOfKind cd ModifierKind rs),
              resources := savedOrder cd rs, banks := loadedBanks bs\<rparr>)"
proof -
  let ?M = "recordsOfKind cd ModifierKind rs" and ?S = "recordsOfKind cd ShapeKind rs"
  let ?T = "recordsOfKind cd TextFieldKind rs" and ?C = "recordsOfKind cd MovieClipKind rs"
  let ?F = "\<lambda>rs e. AList.update (fst e) (snd e) rs"
  let ?r5 = "saveTag 0 [] :: byte list"
  let ?r4 = "concat (map (recordTag cd) ?C) @ ?r5"
  let ?r3 = "saveBanks cd bs @ ?r4"
  let ?r2 = "concat (map (recordTag cd) ?T) @ ?r3"
  let ?r1 = "concat (map (recordTag cd) ?S) @ ?r2"
  let ?r0 = "concat (map (recordTag cd) ?M) @ ?r1"
  let ?t1 = "swf\<lparr>buffer := ?r0,
      modifiersCount := (if 0 < length ?M then length ?M else modifiersCount swf)\<rparr>"
  let ?s2 = "countLoaded ModifierKind (length ?M) st"
  let ?t2 = "?t1\<lparr>buffer := ?r1, resources := foldl ?F (resources ?t1) ?M\<rparr>"
  let ?s3 = "countLoaded ShapeKind (length ?S) ?s2"
  let ?t3 = "?t2\<lparr>buffer := ?r2, resources := foldl ?F (resources ?t2) ?S\<rparr>"
  let ?s4 = "countLoaded TextFieldKind (length ?T) ?s3"
  let ?t4 = "?t3\<lparr>buffer := ?r3, resources := foldl ?F (resources ?t3) ?T\<rparr>"
  let ?t5 = "?t4\<lparr>buffer := ?r4, banks := loadedBanks bs\<rparr>"
  from st0 have l0: "loadedCount k st = 0" for k by simp
  have l0s: "shapesLoaded st = 0" "movieclipsLoaded st = 0" "textfieldsLoaded st = 0"
    "modifiersLoaded st = 0"
    using l0 [of ShapeKind] l0 [of MovieClipKind] l0 [of TextFieldKind] l0 [of ModifierKind]
    by simp_all
  have 1: "parseTags_loop cd st swf = parseTags_loop cd st ?t1"
    by (rule modcount_opt [OF _ n]) (simp add: b)
  have 2: "parseTags_loop cd st ?t1 = parseTags_loop cd ?s2 ?t2"
    by (rule records_loop [OF _ records_of_kind [OF sr]]) (simp_all add: l0 l0s mc)
  have 3: "parseTags_loop cd ?s2 ?t2 = parseTags_loop cd ?s3 ?t3"
    by (rule records_loop [OF _ records_of_kind [OF sr]])
       (simp_all add: countLoaded_fields l0 l0s sc)
  have 4: "parseTags_loop cd ?s3 ?t3 = parseTags_loop cd ?s4 ?t4"
    by (rule records_loop [OF _ records_of_kind [OF sr]])
       (simp_all add: countLoaded_fields l0 l0s tc)
  have "\<exists>st'. parseTags_loop cd ?s4 ?t4 =
       parseTags_loop cd st' (?t4\<lparr>buffer := ?r4, banks := loadedBanks bs\<rparr>) \<and>
     (\<forall>k. loadedCount k st' = loadedCount k ?s4)"
    by (rule banks_segment [OF _ sb]) (simp_all add: ph z countLoaded_fields)
  then obtain s5 where 5: "parseTags_loop cd ?s4 ?t4 = parseTags_loop cd s5 ?t5"
    and l5: "\<forall>k. loadedCount k s5 = loadedCount k ?s4"
    by blast
  let ?s6 = "countLoaded MovieClipKind (length ?C) s5"
  let ?t6 = "?t5\<lparr>buffer := ?r5, resources := foldl ?F (resources ?t5) ?C\<rparr>"
  have "loadedCount MovieClipKind s5 = 0"
    using l5 by (simp add: countLoaded_fields l0 l0s)
  then have 6: "parseTags_loop cd s5 ?t5 = parseTags_loop cd ?s6 ?t6"
    by (intro records_loop [OF _ records_of_kind [OF sr]]) (simp_all add: cc)
  have 7: "parseTags_loop cd ?s6 ?t6 = Inr (?t6\<lparr>buffer := []\<rparr>)"
    by (rule end_turn) simp
  have "foldl ?F (foldl ?F (foldl ?F (foldl ?F [] ?M) ?S) ?T) ?C = foldl ?F [] (savedOrder cd rs)"
    by (simp add: savedOrder_def)
  also have "\<dots> = savedOrder cd rs"
    using foldl_update_fresh [of "[]" "savedOrder cd rs"] distinct_savedOrder [OF d, of cd]
    by simp
  finally have rs: "foldl ?F (foldl ?F (foldl ?F (foldl ?F [] ?M) ?S) ?T) ?C = savedOrder cd rs" .
  have m: "(if 0 < length ?M then length ?M else 0) = length ?M" by simp
  have e: "?t6\<lparr>buffer := []\<rparr> =
      swf\<lparr>buffer := [], modifiersCount := length ?M,
          resources := savedOrder cd rs, banks := loadedBanks bs\<rparr>"
    by (rule SupercellSWF.equality) (simp_all add: res mc rs m)
  show ?thesis
    by (simp only: 1 2 3 4 5 6 7 e)
qed

lemma Texture_save_headerTag:
  "snd (Texture_save resize t False False) = textureTagBytes (headerTag t)"
  by (simp add: Texture_save_def save_tagBuffer_def save_image_def textureTagBytes_def
      textureBody_def headerTag_def Let_def)

lemma saveTextures_headerTags:
  "snd (saveTextures resize False False ts) = concat (map textureTagBytes (map headerTag ts))"
  by (simp add: saveTextures_def Texture_save_headerTag comp_def)

lemma wfTextureTag_headerTag:
  assumes "wellFormedTexture t"
  shows "wfTextureTag False (headerTag t)"
  using assms
  by (simp add: wfTextureTag_def headerTag_def save_tag_def save_pixelTypeIndex_def
      indexOf_less PIXEL_FORMATS_indexOf wellFormedTexture_def)

lemma textureOf_headerTag:
  assumes "wellFormedTexture t"
  shows "textureOf False (headerTag t) = headerOnly t"
proof -
  from assms have fits: "pixelFormat t \<in> set (CHANNEL_FORMATS (kind (image t)))"
    by (simp add: wellFormedTexture_def)
  then show ?thesis
    by (simp add: textureOf_def headerTag_def headerOnly_def save_pixelTypeIndex_def
        PIXEL_FORMATS_indexOf PIXEL_CHANNELS_indexOf)
qed

lemma fst_saveTextures:
  assumes "\<forall>t\<in>set ts. wellFormedTexture t"
  shows "fst (saveTextures resize hasData isLowres ts) = ts"
proof -
  have "(\<lambda>t. fst (Texture_save resize t hasData isLowres)) t = t" if "t \<in> set ts" for t
    using that assms
    by (simp add: Texture_save_def save_pixelFormat_fits wellFormedTexture_def)
  then show ?thesis
    by (simp add: saveTextures_def map_idI)
qed

lemma storeTextures_all:
  "length xs = length ts \<Longrightarrow> storeTextures hasData 0 ts xs = ts"
  by (cases hasData) (simp_all add: storeTextures_data storeTextures_nodata)

lemma saveAsset_buffer_tags:
  assumes d: "distinct (map fst (resources D))"
  shows "saveAsset_buffer cd D =
     writeUInt16 (length (recordsOfKind cd ShapeKind (resources D))) @
     writeUInt16 (length (recordsOfKind cd MovieClipKind (resources D))) @
     writeUInt16 (length (textures D)) @
     writeUInt16 (length (recordsOfKind cd TextFieldKind (resources D))) @
     TransformBank_counts (primaryBank (banks D)) @ fill 5 @ Exports_save (exports D) @
     (savePostfixTag D @
      (if useLowresTexture D then saveTag 23 [] else []) @
      (if useUncommonTexture D then saveTag 30 [] else []) @
      (if hasExternalTexture D then saveTag 26 [] else []) @
      concat (map textureTagBytes
        (map (if hasExternalTexture D then headerTag else savedTag) (textures D))) @
      (if 0 < length (recordsOfKind cd ModifierKind (resources D))
       then saveTag 37 (writeUInt16 (length (recordsOfKind cd ModifierKind (resources D))))
       else []) @
      concat (map (recordTag cd) (recordsOfKind cd ModifierKind (resources D))) @
      concat (map (recordTag cd) (recordsOfKind cd ShapeKind (resources D))) @
      concat (map (recordTag cd) (recordsOfKind cd TextFieldKind (resources D))) @
      saveBanks cd (banks D) @
      concat (map (recordTag cd) (recordsOfKind cd MovieClipKind (resources D))) @
      saveTag 0 [])"
proof -
  have tx: "snd (saveTextures (resizeHalf cd) (\<not> hasExternalTexture D) False (textures D)) =
      concat (map textureTagBytes
        (map (if hasExternalTexture D then headerTag else savedTag) (textures D)))"
    by (simp add: saveTextures_headerTags saveTextures_savedTags del: map_map)
  have len: "length (idsOfKind cd k (resources D)) = length (recordsOfKind cd k (resources D))"
    for k by (simp add: idsOfKind_records)
  show ?thesis
    unfolding saveAsset_buffer_def Let_def tx saveRecords_records [OF d] len
      TransformBank_save_def primaryBank_def
    by simp
qed

lemma loadAsset_saved:
  assumes st: "storable cd D"
    and f: "fs path = Some (toCompressed (compression D) (saveAsset_buffer cd D))"
  shows "loadAsset cd fs path newSupercellSWF =
     Inr ((savedCounts cd D)
            \<lparr>textures := map (if hasExternalTexture D then headerOnly else reloaded) (textures D),
             resources := savedOrder cd (resources D),
             banks := loadedBanks (banks D),
             buffer := []\<rparr>)"
proof -
  let ?rs = "resources D" and ?ts = "textures D" and ?bs = "banks D"
  let ?M = "recordsOfKind cd ModifierKind ?rs" and ?S = "recordsOfKind cd ShapeKind ?rs"
  let ?T = "recordsOfKind cd TextFieldKind ?rs" and ?C = "recordsOfKind cd MovieClipKind ?rs"
  let ?tags = "map (if hasExternalTexture D then headerTag else savedTag) ?ts"
  let ?b5 = "(if 0 < length ?M then saveTag 37 (writeUInt16 (length ?M)) else []) @
      concat (map (recordTag cd) ?M) @ concat (map (recordTag cd) ?S) @
      concat (map (recordTag cd) ?T) @ saveBanks cd ?bs @
      concat (map (recordTag cd) ?C) @ saveTag 0 []"
  let ?b4 = "concat (map textureTagBytes ?tags) @ ?b5"
  let ?b3 = "(if hasExternalTexture D then saveTag 26 [] else []) @ ?b4"
  let ?b2 = "(if useUncommonTexture D then saveTag 30 [] else []) @ ?b3"
  let ?b1 = "(if useLowresTexture D then saveTag 23 [] else []) @ ?b2"
  let ?b0 = "savePostfixTag D @ ?b1"
  let ?new = "newSupercellSWF :: ('a, 'b, 'c) SupercellSWF"
  let ?s0 = "?new\<lparr>compression := compression D, shapeCount := length ?S,
                movieClipsCount := length ?C,
                textures := replicate (length ?ts) newTexture, textFieldsCount := length ?T,
                banks := banks ?new @
                    [\<lparr>matrices = replicate (length (matrices (primaryBank ?bs))) (newMatrix cd),
                      colors = replicate (length (colors (primaryBank ?bs))) (newColor cd)\<rparr>],
                buffer := ?b0,
                exports := exports ?new @ exports D\<rparr>"
  from st have ex: "length (exports D) < 65536"
      "\<forall>e\<in>set (exports D). fst e < 65536 \<and> length (snd e) < 255"
    and d: "distinct (map fst ?rs)" and sr: "\<forall>e\<in>set ?rs. storableRecord cd e"
    and sb: "\<forall>b\<in>set ?bs. storableBank cd b"
    and nt: "length ?ts < 65536" and pk: "postfixesKept D"
    and wf: "\<forall>t\<in>set ?ts. wellFormedTexture t \<and> load_linear (save_tag t True) = linear t"
    by (simp_all add: storable_def)
  from st have cnt: "length ?S < 65536" "length ?C < 65536" "length ?T < 65536"
      "length ?M < 65536"
    by (simp_all add: storable_def idsOfKind_records)
  have pb: "length (matrices (primaryBank ?bs)) < 65536"
      "length (colors (primaryBank ?bs)) < 65536"
    using sb by (auto simp: primaryBank_def storableBank_def)
  have f': "fs path = Some (ScFile (compression D)
        (writeUInt16 (length ?S) @ writeUInt16 (length ?C) @ writeUInt16 (length ?ts) @
         writeUInt16 (length ?T) @ TransformBank_counts (primaryBank ?bs) @ fill 5 @
         Exports_save (exports D) @ ?b0))"
    unfolding f toCompressed_def saveAsset_buffer_tags [OF d] ..
  have hdr: "loadAsset cd fs path ?new = parseTags cd ?s0"
    by (rule loadAsset_header [where files = fs and path = path
          and body = ?b0 and ex = "exports D" and bank = "primaryBank ?bs"
          and shapes = "length ?S" and movieClips = "length ?C" and textFields = "length ?T"
          and texturesCount = "length ?ts" and m = "compression D",
          OF f' cnt(1) cnt(2) nt cnt(3) pb ex])
  \<comment> \<open>the tags, one kind after the other\<close>
  let ?s1 = "?s0\<lparr>buffer := ?b1,
            highresPostfix := (if writesPostfixTag D then highresPostfix D else highresPostfix ?s0),
            lowresPostfix := (if writesPostfixTag D then lowresPostfix D else lowresPostfix ?s0)\<rparr>"
  let ?s2 = "?s1\<lparr>buffer := ?b2, useLowresTexture := (useLowresTexture D \<or> useLowresTexture ?s1)\<rparr>"
  let ?s3 = "?s2\<lparr>buffer := ?b3,
            useUncommonTexture := (useUncommonTexture D \<or> useUncommonTexture ?s2)\<rparr>"
  let ?s4 = "?s3\<lparr>buffer := ?b4,
            hasExternalTexture := (hasExternalTexture D \<or> hasExternalTexture ?s3)\<rparr>"
  let ?st = "initialParseState"
  let ?st4 = "?st\<lparr>hasTextureData := (hasTextureData ?st \<and> \<not> hasExternalTexture D)\<rparr>"
  let ?st5 = "?st4\<lparr>texturesLoaded := texturesLoaded ?st4 + length ?tags\<rparr>"
  let ?s5 = "?s4\<lparr>buffer := ?b5,
            textures := storeTextures (hasTextureData ?st4) (texturesLoaded ?st4)
                (map (textureOf (hasTextureData ?st4)) ?tags) (textures ?s4)\<rparr>"
  let ?s6 = "?s5\<lparr>buffer := [], modifiersCount := length ?M,
              resources := savedOrder cd ?rs, banks := loadedBanks ?bs\<rparr>"
  have 1: "parseTags_loop cd ?st ?s0 = parseTags_loop cd ?st ?s1"
    by (rule postfix_opt [OF _ pk]) simp
  have 2: "parseTags_loop cd ?st ?s1 = parseTags_loop cd ?st ?s2"
    by (rule lowres_opt) simp
  have 3: "parseTags_loop cd ?st ?s2 = parseTags_loop cd ?st ?s3"
    by (rule uncommon_opt) simp
  have 4: "parseTags_loop cd ?st ?s3 = parseTags_loop cd ?st4 ?s4"
    by (rule external_opt) simp
  have 5: "parseTags_loop cd ?st4 ?s4 = parseTags_loop cd ?st5 ?s5"
    by (rule textures_loop)
       (simp_all add: initialParseState_def wf wfTextureTag_savedTag wfTextureTag_headerTag)
  have "loadedCount k ?st5 = 0" for k
    by (cases k) (simp_all add: initialParseState_def)
  then have l0: "\<forall>k. loadedCount k ?st5 = 0" ..
  have 6: "parseTags_loop cd ?st5 ?s5 = Inr ?s6"
    by (rule tail_loaded [OF _ d sr cnt(4) sb _ _ _ _ _ _ l0])
       (simp_all add: initialParseState_def newSupercellSWF_def)
  have p: "parseTags cd ?s0 = Inr ?s6"
    unfolding parseTags_def by (simp only: 1 2 3 4 5 6)
  \<comment> \<open>what has been loaded\<close>
  have m: "map (textureOf (\<not> hasExternalTexture D)) ?tags =
      map (if hasExternalTexture D then headerOnly else reloaded) ?ts"
    unfolding map_map
    by (rule map_cong [OF refl])
       (use wf in \<open>simp add: textureOf_savedTag textureOf_headerTag\<close>)
  have hd: "hasTextureData ?st4 = (\<not> hasExternalTexture D)" "texturesLoaded ?st4 = 0"
    by (simp_all add: initialParseState_def)
  have t6: "textures ?s6 =
      storeTextures (hasTextureData ?st4) (texturesLoaded ?st4)
        (map (textureOf (hasTextureData ?st4)) ?tags) (textures ?s4)"
    by simp
  have t4: "textures ?s4 = replicate (length ?ts) newTexture"
    by simp
  have tx: "textures ?s6 =
      map (if hasExternalTexture D then headerOnly else reloaded) ?ts"
    unfolding t6 hd t4 m by (simp add: storeTextures_all)
  have hp: "highresPostfix ?s6 = highresPostfix D" "lowresPostfix ?s6 = lowresPostfix D"
    using pk by (auto simp: postfixesKept_def newSupercellSWF_def)
  have "?s6 = (savedCounts cd D)
            \<lparr>textures := map (if hasExternalTexture D then headerOnly else reloaded) ?ts,
             resources := savedOrder cd ?rs,
             banks := loadedBanks ?bs,
             buffer := []\<rparr>"
    by (rule SupercellSWF.equality)
       (use tx hp in \<open>simp_all add: newSupercellSWF_def savedCounts_def idsOfKind_records\<close>)
  with hdr p show ?thesis by simp
qed

lemma save_main_file:
  "snd (save cd files path D) path =
     Some (toCompressed (compression D) (saveAsset_buffer cd D))"
  using texture_path_differs [of path "highresPostfix D"] texture_path_differs [of path "[]"]
    texture_path_differs [of path "lowresPostfix D"]
  by (simp add: save_def saveAsset_def saveExternalTexture_def Let_def)

lemma saveAsset_main_file:
  "snd (saveAsset cd files path D) path =
     Some (toCompressed (compression D) (saveAsset_buffer cd D))"
  by (simp add: saveAsset_def)

lemma save_texture_file:
  assumes wf: "\<forall>t\<in>set (textures D). wellFormedTexture t" and ext: "hasExternalTexture D"
  shows "snd (save cd files path D) (externalPath path D) =
     Some (toCompressed (compression D)
       (concat (map textureTagBytes (map savedTag (textures D))) @ saveTag 0 []))"
  using ext
  by (simp add: save_def saveAsset_def saveExternalTexture_def Let_def externalPath_def
      fst_saveTextures [OF wf] saveTextures_savedTags del: map_map)

lemma external_file_loaded:
  assumes f: "fs p = Some (toCompressed m
        (concat (map textureTagBytes (map savedTag ts)) @ saveTag 0 []))"
    and wf: "\<forall>t\<in>set ts. wellFormedTexture t \<and> load_linear (save_tag t True) = linear t"
    and len: "length (textures swf) = length ts"
  shows "loadExternalTexture cd fs p swf =
     Inr (swf\<lparr>textures := map reloaded ts, buffer := []\<rparr>)"
proof -
  let ?tags = "map savedTag ts"
  let ?b = "concat (map textureTagBytes ?tags) @ saveTag 0 []"
  let ?st = "initialParseState"
  let ?s0 = "swf\<lparr>buffer := ?b\<rparr>"
  let ?st1 = "?st\<lparr>texturesLoaded := texturesLoaded ?st + length ?tags\<rparr>"
  let ?s1 = "?s0\<lparr>buffer := saveTag 0 [],
            textures := storeTextures (hasTextureData ?st) (texturesLoaded ?st)
                (map (textureOf (hasTextureData ?st)) ?tags) (textures ?s0)\<rparr>"
  have 1: "parseTags_loop cd ?st ?s0 = parseTags_loop cd ?st1 ?s1"
    by (rule textures_loop) (simp_all add: initialParseState_def wf wfTextureTag_savedTag)
  have 2: "parseTags_loop cd ?st1 ?s1 = Inr (?s1\<lparr>buffer := []\<rparr>)"
    by (rule end_turn) simp
  have p: "parseTags cd ?s0 = Inr (?s1\<lparr>buffer := []\<rparr>)"
    unfolding parseTags_def by (simp only: 1 2)
  have m: "map (textureOf True) ?tags = map reloaded ts"
    unfolding map_map
    by (rule map_cong [OF refl]) (use wf in \<open>simp add: textureOf_savedTag\<close>)
  have hd: "hasTextureData ?st = True" "texturesLoaded ?st = 0"
    by (simp_all add: initialParseState_def)
  have tx: "storeTextures (hasTextureData ?st) (texturesLoaded ?st)
                (map (textureOf (hasTextureData ?st)) ?tags) (textures ?s0) = map reloaded ts"
    unfolding hd m by (simp add: storeTextures_all len)
  have e: "?s1\<lparr>buffer := []\<rparr> = swf\<lparr>textures := map reloaded ts, buffer := []\<rparr>"
    unfolding tx by simp
  show ?thesis
    unfolding loadExternalTexture_def f toCompressed_def
    by (simp only: option.case fromCompressed.simps snd_conv p e sum.case) simp
qed

lemma load_save_storable:
  assumes st: "storable cd D"
  shows "load cd (snd (save cd files path D)) path newSupercellSWF =
     Inr ((savedCounts cd D)
            \<lparr>textures := map reloaded (textures D),
             resources := savedOrder cd (resources D),
             banks := loadedBanks (banks D),
             buffer := []\<rparr>)"
proof -
  let ?fs = "snd (save cd files path D)"
  let ?new = "newSupercellSWF :: ('a, 'b, 'c) SupercellSWF"
  let ?D1 = "(savedCounts cd D)
            \<lparr>textures := map (if hasExternalTexture D then headerOnly else reloaded) (textures D),
             resources := savedOrder cd (resources D),
             banks := loadedBanks (banks D),
             buffer := []\<rparr>"
  from st have wf: "\<forall>t\<in>set (textures D).
      wellFormedTexture t \<and> load_linear (save_tag t True) = linear t"
    by (simp add: storable_def)
  then have wf': "\<forall>t\<in>set (textures D). wellFormedTexture t" by simp
  have la: "loadAsset cd ?fs path ?new = Inr ?D1"
    by (rule loadAsset_saved [OF st save_main_file])
  show ?thesis
  proof (cases "hasExternalTexture D")
    case False
    then show ?thesis
      by (simp add: load_def la savedCounts_def)
  next
    case True
    have f: "?fs (externalPath path D) = Some (toCompressed (compression D)
       (concat (map textureTagBytes (map savedTag (textures D))) @ saveTag 0 []))"
      by (rule save_texture_file [OF wf' True])
    have tp: "texturePath ?fs path ?D1 = Some (externalPath path D)"
    proof (cases "useUncommonTexture D")
      case True
      with f have "?fs (withoutExtension path @ highresPostfix D @ ''_tex.sc'') \<noteq> None"
        by (simp add: externalPath_def)
      with True show ?thesis
        by (simp add: texturePath_def Let_def existsSync_def externalPath_def savedCounts_def)
    next
      case False
      with f have "?fs (withoutExtension path @ ''_tex.sc'') \<noteq> None"
        by (simp add: externalPath_def)
      with False show ?thesis
        by (simp add: texturePath_def Let_def existsSync_def externalPath_def savedCounts_def)
    qed
    have le: "loadExternalTexture cd ?fs (externalPath path D) ?D1 =
        Inr (?D1\<lparr>textures := map reloaded (textures D), buffer := []\<rparr>)"
      by (rule external_file_loaded [where fs = ?fs and p = "externalPath path D" and
            m = "compression D" and ts = "textures D", OF f wf]) simp
    have h: "hasExternalTexture ?D1" using True by (simp add: savedCounts_def)
    have "load cd ?fs path ?new =
        Inr (?D1\<lparr>textures := map reloaded (textures D), buffer := []\<rparr>)"
      unfolding load_def la using h tp le by simp
    then show ?thesis by simp
  qed
qed

lemma exact_layout: "exactTexture t \<Longrightarrow> load_linear (save_tag t True) = linear t"
  by (auto simp: exactTexture_def save_tag_def load_linear_def)

lemma reloaded_exact:
  assumes "exactTexture t"
  shows "reloaded t = t"
proof -
  from assms have px: "map (\<lambda>p. decodePixel (pixelFormat t)
        (writePixel (pixelFormat t) (zero_alpha (image t) p))) (pixels (image t)) =
      pixels (image t)"
    by (intro map_idI) (simp add: exactTexture_def)
  have img: "\<lparr>width = width (image t), height = height (image t), kind = kind (image t),
      pixels = pixels (image t)\<rparr> = image t"
    by simp
  from assms have "load_magFilter (save_tag t True) = magFilter t"
    "load_minFilter (save_tag t True) = minFilter t"
    "load_linear (save_tag t True) = linear t"
    "load_downscaling (save_tag t True) = downscaling t"
    by (auto simp: exactTexture_def save_tag_def load_linear_def load_magFilter_def
        load_minFilter_def load_downscaling_def)
  then show ?thesis
    by (intro Texture.equality) (simp_all add: reloaded_def px img)
qed

lemma exactDocument_storable: "exactDocument cd D \<Longrightarrow> storable cd D"
  by (simp add: exactDocument_def storable_def exactTexture_def exact_layout)

lemma exact_blockTexture: "exactTexture blockTexture"
  using wellFormed_blockTexture
  by (simp add: exactTexture_def)
     (simp add: blockTexture_def zero_alpha_def alpha_def)

lemma length_writeUInt16: "length (writeUInt16 n) = 2"
  by (simp add: writeUInt16_def)

lemma storableRecord_raw:
  "i < 65536 \<Longrightarrow> tag \<in> set (tagsOfKind k) \<Longrightarrow> length body < 2147483646 \<Longrightarrow>
   storableRecord rawCodecs (i, (k, tag, body))"
  by (simp add: storableRecord_def rawCodecs_def readUInt16_writeUInt16 length_writeUInt16)

lemma exact_richDoc: "exactDocument rawCodecs richDoc"
proof -
  have r: "\<forall>e\<in>set (resources richDoc). storableRecord rawCodecs e"
    by (simp add: richDoc_def newSupercellSWF_def storableRecord_raw)
  have b: "\<forall>b\<in>set (banks richDoc). storableBank rawCodecs b"
    by (simp add: richDoc_def newSupercellSWF_def storableBank_def storableMatrix_def
        storableColor_def rawCodecs_def)
  have k: "\<forall>k\<in>set [ShapeKind, MovieClipKind, TextFieldKind, ModifierKind].
      length (idsOfKind rawCodecs k (resources richDoc)) < 65536"
    by (simp add: idsOfKind_def richDoc_def)
  have p: "postfixesKept richDoc"
    by (simp add: postfixesKept_def writesPostfixTag_def richDoc_def)
  have o: "distinct (map fst (resources richDoc))" "length (exports richDoc) < 65536"
    "\<forall>e\<in>set (exports richDoc). fst e < 65536 \<and> length (snd e) < 255"
    "length (textures richDoc) < 65536" "\<forall>t\<in>set (textures richDoc). exactTexture t"
    by (simp_all add: richDoc_def exact_blockTexture)
  show ?thesis
    unfolding exactDocument_def by (intro conjI r b k p o)
qed

lemma savedOrder_richDoc:
  "savedOrder rawCodecs (resources richDoc) =
     [(9, (ModifierKind, 38, [])), (2, (ShapeKind, 18, [])), (5, (MovieClipKind, 12, [7]))]"
  by (simp add: savedOrder_def recordsOfKind_def richDoc_def rawCodecs_def)

lemma savedCounts_richDoc:
  "savedCounts rawCodecs richDoc =
     richDoc\<lparr>shapeCount := 1, movieClipsCount := 1, textFieldsCount := 0, modifiersCount := 1\<rparr>"
  by (simp add: savedCounts_def idsOfKind_def richDoc_def rawCodecs_def)

section \<open>Properties\<close>

text \<open>
  C2, evaluated at a texture with mag filter \<^verbatim>\<open>GL_LINEAR\<close>, min filter
  \<^verbatim>\<open>GL_LINEAR_MIPMAP_NEAREST\<close>, block layout (\<open>linear = False\<close>) and
  \<open>downscaling = True\<close>, saved with pixel data: \<^verbatim>\<open>Texture.save\<close> writes tag id 16, the
  first byte of the tag, not 29. The test \<^verbatim>\<open>!this.linear && !this.downscaling\<close> sends
  only block textures without downscaling to tag 29, although \<^verbatim>\<open>Texture.load\<close> reads
  tag 29 as block layout with downscaling.
\<close>

theorem save_tag_block_mipmap_downscaling:
  "save_tag \<lparr>pixelFormat = GL_RGBA8, magFilter = GL_LINEAR,
              minFilter = GL_LINEAR_MIPMAP_NEAREST, linear = False, downscaling = True,
              image = newImage 1 1 RGBA\<rparr> True = 16 \<and>
   hd (snd (Texture_save resize
              \<lparr>pixelFormat = GL_RGBA8, magFilter = GL_LINEAR,
               minFilter = GL_LINEAR_MIPMAP_NEAREST, linear = False, downscaling = True,
               image = newImage 1 1 RGBA\<rparr> True False)) = 16 \<and>
   load_linear 16 \<and> \<not> load_linear 29 \<and> load_downscaling 29"
  by (simp add: save_tag_def Texture_save_def saveTag_def writeUInt8_def
      load_linear_def load_downscaling_def)

text \<open>
  C9: a texture saved without pixel data (\<open>hasData = False\<close>) is written under tag id 1,
  whatever its filters, layout and downscaling flag are: the tag id computed by
  \<^verbatim>\<open>Texture.save\<close> is 1, and so is the first byte of the tag it appends, whose payload
  is the pixel type index, the width and the height only.
\<close>

theorem save_without_data_tag_1:
  "save_tag t False = 1 \<and>
   snd (Texture_save resize t False isLowres) =
     1 # writeInt32 5 @
       writeUInt8 (save_pixelTypeIndex t) @
       writeUInt16 (width (save_image resize t isLowres)) @
       writeUInt16 (height (save_image resize t isLowres))"
  by (simp add: save_tag_def Texture_save_def saveTag_def save_tagBuffer_def Let_def
      writeUInt8_def writeUInt16_def)

text \<open>
  C3, evaluated at tag 34: \<^verbatim>\<open>Texture.load\<close> sets both filters to \<^verbatim>\<open>GL_LINEAR\<close> for a
  tag with id 34, not to \<^verbatim>\<open>GL_NEAREST\<close> as the table of tag ids has it (and as
  \<^verbatim>\<open>Texture.save\<close> assumes when it writes tag 34 for a nearest/nearest texture).
\<close>

theorem load_tag_34_filters:
  "load_magFilter 34 = GL_LINEAR \<and> load_minFilter 34 = GL_LINEAR \<and>
   load_magFilter 34 \<noteq> GL_NEAREST \<and> load_minFilter 34 \<noteq> GL_NEAREST"
  by (simp add: load_magFilter_def load_minFilter_def)

text \<open>
  C7: \<^verbatim>\<open>Texture.save\<close> with pixel data writes the tag buffer as the three header fields
  followed by \<^verbatim>\<open>writePixel\<close> of each array in \<open>written_pixels\<close> of the image (resized when
  \<open>isLowres\<close>, rearranged when the layout is by blocks). For the pixel at \<open>(x, y)\<close> of that
  image: when the image has an alpha channel and the last channel of the pixel is zero,
  the array handed to \<^verbatim>\<open>writePixel\<close> is all zeros (and every format of the image's channel
  kind writes an all-zero array as zero bytes); otherwise the array is the pixel itself.
\<close>

theorem zero_alpha_write:
  assumes "img = save_arranged t (save_image resize t isLowres)"
    and "x < width img" and "y < height img"
    and "pix = getPixelXY img x y"
  shows "save_tagBuffer resize t True isLowres =
           writeUInt8 (save_pixelTypeIndex t) @ writeUInt16 (width img) @
           writeUInt16 (height img) @
           concat (map (writePixel (save_pixelFormat t)) (written_pixels img)) \<and>
         (alpha img \<and> pix \<noteq> [] \<and> last pix = 0 \<longrightarrow>
            written_pixels img ! (y * width img + x) = replicate (channels img) 0) \<and>
         (\<not> (alpha img \<and> pix \<noteq> [] \<and> last pix = 0) \<longrightarrow>
            written_pixels img ! (y * width img + x) = pix) \<and>
         (\<forall>fmt\<in>set (CHANNEL_FORMATS (kind img)).
            writePixel fmt (replicate (channels img) 0) = replicate (bytesPerPixel fmt) 0)"
proof -
  have hdr: "width img = width (save_image resize t isLowres)"
    "height img = height (save_image resize t isLowres)"
    using assms(1) by (simp_all add: save_arranged_fields)
  have a: "save_tagBuffer resize t True isLowres =
           writeUInt8 (save_pixelTypeIndex t) @ writeUInt16 (width img) @
           writeUInt16 (height img) @
           concat (map (writePixel (save_pixelFormat t)) (written_pixels img))"
    unfolding assms(1) by (simp add: save_tagBuffer_def Let_def save_arranged_fields)
  have b: "written_pixels img ! (y * width img + x) = zero_alpha img pix"
    using assms(2,3,4) by (simp add: written_pixels_nth)
  have c: "\<forall>fmt\<in>set (CHANNEL_FORMATS (kind img)).
            writePixel fmt (replicate (channels img) 0) = replicate (bytesPerPixel fmt) 0"
    by (simp add: channels_def components_def alpha_def writePixel_zero)
  from a b c show ?thesis by (simp add: zero_alpha_def)
qed


theorem zero_alpha_write_witness:
  "written_pixels (image alphaTexture) ! 0 = [0, 0, 0, 0] \<and>
   written_pixels (image alphaTexture) ! 1 = [4, 5, 6, 255]"
proof -
  have i: "image alphaTexture =
      save_arranged alphaTexture (save_image (\<lambda>i. i) alphaTexture False)"
    by (simp add: save_arranged_def save_image_def alphaTexture_def)
  have s: "(0::nat) < width (image alphaTexture)" "(1::nat) < width (image alphaTexture)"
    "(0::nat) < height (image alphaTexture)" "width (image alphaTexture) = 2"
    by (simp_all add: alphaTexture_def)
  have p0: "[1, 2, 3, 0] = getPixelXY (image alphaTexture) 0 0"
    and p1: "[4, 5, 6, 255] = getPixelXY (image alphaTexture) 1 0"
    by (simp_all add: alphaTexture_def getPixelXY_def)
  have al: "alpha (image alphaTexture)" "channels (image alphaTexture) = 4"
    by (simp_all add: alphaTexture_def alpha_def channels_def components_def)
  have "written_pixels (image alphaTexture) ! (0 * width (image alphaTexture) + 0) =
      replicate (channels (image alphaTexture)) 0"
    using zero_alpha_write [OF i s(1) s(3) p0, THEN conjunct2, THEN conjunct1] al(1)
    by simp
  moreover have "written_pixels (image alphaTexture) ! (0 * width (image alphaTexture) + 1) =
      [4, 5, 6, 255]"
    using zero_alpha_write [OF i s(2) s(3) p1, THEN conjunct2, THEN conjunct2, THEN conjunct1]
    by simp
  ultimately show ?thesis by (simp add: al(2) replicate_4)
qed



text \<open>
  C4, evaluated at a document with \<^verbatim>\<open>useUncommonTexture\<close> set, high resolution postfix
  \<^verbatim>\<open>"_hd"\<close> and the default low resolution postfix: \<^verbatim>\<open>saveAsset\<close> writes no tag 32,
  because its condition asks both postfixes to differ from their defaults. \<^verbatim>\<open>save\<close>
  still names the high resolution texture file \<^verbatim>\<open>foo_hd_tex.sc\<close>; the main file does
  not record \<^verbatim>\<open>"_hd"\<close>, so a load of what was saved comes back with the default postfixes
  and picks the low resolution file.
\<close>

theorem postfix_tag_one_custom:
  "useUncommonTexture customHighres \<and> highresPostfix customHighres = ''_hd'' \<and>
   lowresPostfix customHighres = ''_lowres'' \<and>
   \<not> writesPostfixTag customHighres \<and> savePostfixTag customHighres = [] \<and>
   saveAsset_buffer rawCodecs customHighres =
     headerBytes 0 0 0 0 @ saveTag 30 [] @ saveTag 26 [] @ saveTag 0 [] \<and>
   existsSync (snd (save rawCodecs Map.empty ''foo.sc'' customHighres)) ''foo_hd_tex.sc'' \<and>
   loadAsset rawCodecs (snd (save rawCodecs Map.empty ''foo.sc'' customHighres)) ''foo.sc''
     newSupercellSWF = Inr (uncommonDoc\<lparr>banks := [\<lparr>matrices = [], colors = []\<rparr>]\<rparr>) \<and>
   texturePath (snd (save rawCodecs Map.empty ''foo.sc'' customHighres)) ''foo.sc''
     (uncommonDoc\<lparr>banks := [\<lparr>matrices = [], colors = []\<rparr>]\<rparr>) = Some ''foo_lowres_tex.sc''"
proof -
  have b: "saveAsset_buffer rawCodecs customHighres =
     headerBytes 0 0 0 0 @ saveTag 30 [] @ saveTag 26 [] @ saveTag 0 []"
    by (simp add: saveAsset_buffer_flags customHighres_def newSupercellSWF_def
        savePostfixTag_def writesPostfixTag_def)
  have b': "saveAsset_buffer rawCodecs uncommonDoc =
     headerBytes 0 0 0 0 @ saveTag 30 [] @ saveTag 26 [] @ saveTag 0 []"
    by (simp add: saveAsset_buffer_flags uncommonDoc_def newSupercellSWF_def
        savePostfixTag_def writesPostfixTag_def)
  let ?files = "snd (save rawCodecs Map.empty ''foo.sc'' customHighres)"
  have files: "?files =
      [''foo.sc'' \<mapsto> ScFile NONE (saveAsset_buffer rawCodecs customHighres),
       ''foo_lowres_tex.sc'' \<mapsto> ScFile NONE (saveTag 0 []),
       ''foo_hd_tex.sc'' \<mapsto> ScFile NONE (saveTag 0 [])]"
    by (simp add: save_def saveAsset_def saveExternalTexture_def saveTextures_def
        customHighres_def newSupercellSWF_def withoutExtension_foo toCompressed_def)
  have ld: "loadAsset rawCodecs ?files ''foo.sc'' newSupercellSWF =
      Inr (uncommonDoc\<lparr>banks := [\<lparr>matrices = [], colors = []\<rparr>]\<rparr>)"
    by (rule loadAsset_uncommon) (simp add: files b b')
  have tp: "texturePath ?files ''foo.sc''
     (uncommonDoc\<lparr>banks := [\<lparr>matrices = [], colors = []\<rparr>]\<rparr>) = Some ''foo_lowres_tex.sc''"
    unfolding files
    by (simp add: texturePath_def withoutExtension_foo uncommonDoc_def newSupercellSWF_def
        existsSync_def)
  have ex: "existsSync ?files ''foo_hd_tex.sc''"
    unfolding files by (simp add: existsSync_def)
  have "\<not> writesPostfixTag customHighres" "savePostfixTag customHighres = []"
    "useUncommonTexture customHighres" "highresPostfix customHighres = ''_hd''"
    "lowresPostfix customHighres = ''_lowres''"
    by (simp_all add: savePostfixTag_def writesPostfixTag_def customHighres_def
        newSupercellSWF_def)
  with b ex ld tp show ?thesis by simp
qed

text \<open>
  C5, as the code has it. After \<^verbatim>\<open>loadAsset\<close> has found \<^verbatim>\<open>hasExternalTexture\<close> set:
  with \<^verbatim>\<open>useUncommonTexture\<close> the high resolution file is loaded if it exists, else the
  low resolution file if it exists; without it the common \<^verbatim>\<open>_tex.sc\<close> file is loaded if
  it exists; when the branch finds no file the load fails with
  \<open>MissingExternalTexture\<close>. The common file is no fallback of the pair.
\<close>

theorem load_texture_choice:
  assumes "loadAsset cd files path swf = Inr swf'" and "hasExternalTexture swf'"
  shows "load cd files path swf =
     (if useUncommonTexture swf' then
        (if existsSync files (withoutExtension path @ highresPostfix swf' @ ''_tex.sc'')
         then loadExternalTexture cd files
                (withoutExtension path @ highresPostfix swf' @ ''_tex.sc'') swf'
         else if existsSync files (withoutExtension path @ lowresPostfix swf' @ ''_tex.sc'')
         then loadExternalTexture cd files
                (withoutExtension path @ lowresPostfix swf' @ ''_tex.sc'') swf'
         else Inl MissingExternalTexture)
      else if existsSync files (withoutExtension path @ ''_tex.sc'')
      then loadExternalTexture cd files (withoutExtension path @ ''_tex.sc'') swf'
      else Inl MissingExternalTexture)"
  using assms by (simp add: load_def texturePath_def Let_def)

theorem load_texture_choice_witness:
  "load rawCodecs allThree ''foo.sc'' newSupercellSWF =
     loadExternalTexture rawCodecs allThree ''foo_highres_tex.sc''
       (uncommonDoc\<lparr>banks := [\<lparr>matrices = [], colors = []\<rparr>]\<rparr>)"
proof -
  have ld: "loadAsset rawCodecs allThree ''foo.sc'' newSupercellSWF =
     Inr (uncommonDoc\<lparr>banks := [\<lparr>matrices = [], colors = []\<rparr>]\<rparr>)"
    by (rule loadAsset_uncommon) (simp add: allThree_def)
  have he: "hasExternalTexture (uncommonDoc\<lparr>banks := [\<lparr>matrices = [], colors = []\<rparr>]\<rparr>)"
    by (simp add: uncommonDoc_def)
  have ex: "existsSync allThree ''foo_highres_tex.sc''"
    by (simp add: existsSync_def allThree_def)
  from load_texture_choice [OF ld he] ex show ?thesis
    by (simp add: withoutExtension_foo uncommonDoc_def newSupercellSWF_def)
qed

text \<open>
  C5 as stated fails: with \<^verbatim>\<open>useUncommonTexture\<close> set, neither file of the pair on disk
  and the common \<^verbatim>\<open>foo_tex.sc\<close> present, \<^verbatim>\<open>load\<close> fails with \<open>MissingExternalTexture\<close>
  and does not load the common file.
\<close>

theorem load_falls_back_to_common_counterexample:
  "existsSync commonOnly ''foo_tex.sc'' \<and>
   \<not> existsSync commonOnly ''foo_highres_tex.sc'' \<and>
   \<not> existsSync commonOnly ''foo_lowres_tex.sc'' \<and>
   load rawCodecs commonOnly ''foo.sc'' newSupercellSWF = Inl MissingExternalTexture \<and>
   load rawCodecs commonOnly ''foo.sc'' newSupercellSWF \<noteq>
     loadExternalTexture rawCodecs commonOnly ''foo_tex.sc''
       (uncommonDoc\<lparr>banks := [\<lparr>matrices = [], colors = []\<rparr>]\<rparr>)"
proof -
  have ld: "loadAsset rawCodecs commonOnly ''foo.sc'' newSupercellSWF =
     Inr (uncommonDoc\<lparr>banks := [\<lparr>matrices = [], colors = []\<rparr>]\<rparr>)"
    by (rule loadAsset_uncommon) (simp add: commonOnly_def)
  have ex: "existsSync commonOnly ''foo_tex.sc''"
    "\<not> existsSync commonOnly ''foo_highres_tex.sc''"
    "\<not> existsSync commonOnly ''foo_lowres_tex.sc''"
    by (simp_all add: existsSync_def commonOnly_def)
  have l: "load rawCodecs commonOnly ''foo.sc'' newSupercellSWF = Inl MissingExternalTexture"
    unfolding load_def ld
    using ex
    by (simp add: texturePath_def withoutExtension_foo uncommonDoc_def newSupercellSWF_def)
  have "loadExternalTexture rawCodecs commonOnly ''foo_tex.sc''
       (uncommonDoc\<lparr>banks := [\<lparr>matrices = [], colors = []\<rparr>]\<rparr>) =
      Inr (uncommonDoc\<lparr>banks := [\<lparr>matrices = [], colors = []\<rparr>], buffer := [], buffer := []\<rparr>)"
    using end_turn [where swf = "uncommonDoc\<lparr>banks := [\<lparr>matrices = [], colors = []\<rparr>],
        buffer := saveTag 0 []\<rparr>" and cd = rawCodecs and st = initialParseState]
    by (simp add: loadExternalTexture_def commonOnly_def parseTags_def)
  with l ex show ?thesis by simp
qed

text \<open>
  C6: a file whose header declares \<open>N\<close> shapes and whose stream holds \<open>N\<close> shape tags
  that decode, followed by one more shape tag, fails with \<open>CountOverflow ShapeKind\<close>,
  whatever follows that tag and whether or not its payload would decode; the same
  file with the terminator in place of the extra tag loads, and its resources are
  those of the \<open>N\<close> shape tags. So the first \<open>N\<close> shape tags are processed and the
  failure comes with the tag number \<open>N + 1\<close>.
\<close>

theorem shape_count_overflow:
  assumes tags: "\<forall>t\<in>set ts. shapeTag cd t" and extra: "shapeTagHeader t"
    and n: "length ts = N" "N < 65536"
    and counts: "movieClips < 65536" "texturesCount < 65536" "textFields < 65536"
  shows "loadAsset cd
           (files(path \<mapsto> ScFile m
              (headerBytes N movieClips texturesCount textFields @ tagBytes (ts @ [t]) @ rest)))
           path swf = Inl (CountOverflow ShapeKind) \<and>
         loadAsset cd
           (files(path \<mapsto> ScFile m
              (headerBytes N movieClips texturesCount textFields @ tagBytes ts @ saveTag 0 [])))
           path swf =
           Inr (swf\<lparr>compression := m, shapeCount := N, movieClipsCount := movieClips,
                    textures := replicate texturesCount newTexture,
                    textFieldsCount := textFields,
                    banks := banks swf @ [\<lparr>matrices = [], colors = []\<rparr>],
                    exports := exports swf,
                    buffer := [],
                    resources := loadedResources cd ShapeKind ts (resources swf)\<rparr>)"
proof -
  let ?swf = "\<lambda>body. swf\<lparr>compression := m, shapeCount := N, movieClipsCount := movieClips,
                textures := replicate texturesCount newTexture, textFieldsCount := textFields,
                banks := banks swf @ [\<lparr>matrices = [], colors = []\<rparr>],
                buffer := body,
                exports := exports swf\<rparr>"
  let ?st = "initialParseState\<lparr>shapesLoaded := shapesLoaded initialParseState + length ts\<rparr>"
  let ?rs = "loadedResources cd ShapeKind ts (resources swf)"
  note all = tags and last = extra
  have full: "shapeCount (?swf body) \<le> shapesLoaded ?st" for body
    by (simp add: initialParseState_def n)
  have fits: "shapesLoaded initialParseState + length ts \<le> shapeCount (?swf body)" for body
    by (simp add: initialParseState_def n)
  \<comment> \<open>one tag too many\<close>
  have "parseTags_loop cd initialParseState (?swf (tagBytes (ts @ [t]) @ rest)) =
        parseTags_loop cd ?st
          ((?swf (tagBytes (ts @ [t]) @ rest))\<lparr>buffer := tagBytes (t # []) @ rest, resources := ?rs\<rparr>)"
    using shapes_loop [where swf = "?swf (tagBytes (ts @ [t]) @ rest)" and ts = ts
        and rest = "tagBytes [t] @ rest" and st = initialParseState and cd = cd] all fits
    by (simp add: tagBytes_def)
  also have "\<dots> = Inl (CountOverflow ShapeKind)"
    using shape_overflows [where t = t and ts = "[]" and rest = rest and cd = cd and st = ?st
        and swf = "(?swf (tagBytes (ts @ [t]) @ rest))\<lparr>buffer := tagBytes (t # []) @ rest,
          resources := ?rs\<rparr>"] last
    by (simp add: initialParseState_def n)
  finally have over: "parseTags cd (?swf (tagBytes (ts @ [t]) @ rest)) =
      Inl (CountOverflow ShapeKind)"
    by (simp add: parseTags_def)
  \<comment> \<open>exactly the declared count\<close>
  have "parseTags_loop cd initialParseState (?swf (tagBytes ts @ saveTag 0 [])) =
        parseTags_loop cd ?st
          ((?swf (tagBytes ts @ saveTag 0 []))\<lparr>buffer := saveTag 0 [] @ [], resources := ?rs\<rparr>)"
    using shapes_loop [where swf = "?swf (tagBytes ts @ saveTag 0 [])" and ts = ts
        and rest = "saveTag 0 [] @ []" and st = initialParseState and cd = cd] all fits
    by simp
  also have "\<dots> = Inr ((?swf [])\<lparr>resources := ?rs\<rparr>)"
    by (subst parseTags_loop.simps)
       (simp add: parseTag_saveTag [where p = "[]" and r = "[]" and tag = 0] switchTag_end)
  finally have ok: "parseTags cd (?swf (tagBytes ts @ saveTag 0 [])) =
      Inr ((?swf [])\<lparr>resources := ?rs\<rparr>)"
    by (simp add: parseTags_def)
  have eq: "(?swf [])\<lparr>resources := ?rs\<rparr> =
      swf\<lparr>compression := m, shapeCount := N, movieClipsCount := movieClips,
          textures := replicate texturesCount newTexture,
          textFieldsCount := textFields,
          banks := banks swf @ [\<lparr>matrices = [], colors = []\<rparr>],
          exports := exports swf,
          buffer := [],
          resources := ?rs\<rparr>"
    by (rule SupercellSWF.equality) simp_all
  show ?thesis
    using over ok n(2) counts
    by (simp add: loadAsset_headerBytes eq)
qed

theorem shape_count_overflow_witness:
  "loadAsset rawCodecs
     (Map.empty(''a.sc'' \<mapsto> ScFile NONE
        (headerBytes 1 0 0 0 @ tagBytes ([(2, [1, 0, 9])] @ [(18, [2, 0])]) @ [])))
     ''a.sc'' (newSupercellSWF :: RawSWF) = Inl (CountOverflow ShapeKind) \<and>
   loadAsset rawCodecs
     (Map.empty(''a.sc'' \<mapsto> ScFile NONE
        (headerBytes 1 0 0 0 @ tagBytes [(2, [1, 0, 9])] @ saveTag 0 [])))
     ''a.sc'' (newSupercellSWF :: RawSWF) =
     Inr (newSupercellSWF\<lparr>compression := NONE, shapeCount := 1, movieClipsCount := 0,
            textures := replicate 0 newTexture,
            textFieldsCount := 0,
            banks := banks (newSupercellSWF :: RawSWF) @ [\<lparr>matrices = [], colors = []\<rparr>],
            exports := exports (newSupercellSWF :: RawSWF),
            buffer := [],
            resources := loadedResources rawCodecs ShapeKind [(2, [1, 0, 9])]
                           (resources (newSupercellSWF :: RawSWF))\<rparr>)"
  by (rule shape_count_overflow)
     (simp_all add: shapeTag_def shapeTagHeader_def decodes_def rawCodecs_def readUInt16_def)

text \<open>
  C10: texture tags are not compared with the declared texture count. A file whose
  header declares \<open>n\<close> textures and whose stream holds more than \<open>n\<close> well-formed
  texture tags with pixel data loads without error, and \<^verbatim>\<open>textures\<close> holds the texture
  of every tag: those beyond the count were appended. When the tags carry no pixel
  data (after tag 26), the file loads as well, and the textures beyond the count are
  parsed and dropped: \<^verbatim>\<open>textures\<close> holds the first \<open>n\<close>.
\<close>

theorem texture_count_not_checked:
  assumes data: "\<forall>t\<in>set tags. wfTextureTag True t"
    and bare: "\<forall>t\<in>set bare. wfTextureTag False t"
    and more: "n < length tags" "n < length bare"
    and counts: "shapes < 65536" "movieClips < 65536" "n < 65536" "textFields < 65536"
  shows "loadAsset cd
           (files(path \<mapsto> ScFile m
              (headerBytes shapes movieClips n textFields @
               concat (map textureTagBytes tags) @ saveTag 0 [])))
           path swf =
           Inr (swf\<lparr>compression := m, shapeCount := shapes, movieClipsCount := movieClips,
                    textures := map (textureOf True) tags,
                    textFieldsCount := textFields,
                    banks := banks swf @ [\<lparr>matrices = [], colors = []\<rparr>],
                    exports := exports swf,
                    buffer := []\<rparr>) \<and>
         loadAsset cd
           (files(path \<mapsto> ScFile m
              (headerBytes shapes movieClips n textFields @ saveTag 26 [] @
               concat (map textureTagBytes bare) @ saveTag 0 [])))
           path swf =
           Inr (swf\<lparr>compression := m, shapeCount := shapes, movieClipsCount := movieClips,
                    hasExternalTexture := True,
                    textures := map (textureOf False) (take n bare),
                    textFieldsCount := textFields,
                    banks := banks swf @ [\<lparr>matrices = [], colors = []\<rparr>],
                    exports := exports swf,
                    buffer := []\<rparr>)"
proof -
  let ?swf = "\<lambda>body. swf\<lparr>compression := m, shapeCount := shapes,
                movieClipsCount := movieClips,
                textures := replicate n newTexture, textFieldsCount := textFields,
                banks := banks swf @ [\<lparr>matrices = [], colors = []\<rparr>],
                buffer := body,
                exports := exports swf\<rparr>"
  \<comment> \<open>texture tags with pixel data\<close>
  let ?b1 = "concat (map textureTagBytes tags) @ saveTag 0 []"
  let ?st1 = "initialParseState\<lparr>texturesLoaded := texturesLoaded initialParseState + length tags\<rparr>"
  have s1: "storeTextures True 0 (map (textureOf True) tags) (replicate n newTexture) =
      map (textureOf True) tags"
    using more(1) by (simp add: storeTextures_data)
  have "parseTags_loop cd initialParseState (?swf ?b1) =
        parseTags_loop cd ?st1
          ((?swf ?b1)\<lparr>buffer := saveTag 0 [], textures := map (textureOf True) tags\<rparr>)"
    using textures_loop [where swf = "?swf ?b1" and tags = tags and rest = "saveTag 0 []"
        and st = initialParseState and cd = cd] data s1
    by (simp add: initialParseState_def)
  also have "\<dots> = Inr ((?swf ?b1)\<lparr>buffer := saveTag 0 [],
      textures := map (textureOf True) tags, buffer := []\<rparr>)"
    by (rule end_turn) simp
  finally have p1: "parseTags cd (?swf ?b1) =
      Inr ((?swf ?b1)\<lparr>buffer := saveTag 0 [],
        textures := map (textureOf True) tags, buffer := []\<rparr>)"
    by (simp add: parseTags_def)
  have e1: "(?swf ?b1)\<lparr>buffer := saveTag 0 [],
        textures := map (textureOf True) tags, buffer := []\<rparr> =
      swf\<lparr>compression := m, shapeCount := shapes, movieClipsCount := movieClips,
                    textures := map (textureOf True) tags,
                    textFieldsCount := textFields,
                    banks := banks swf @ [\<lparr>matrices = [], colors = []\<rparr>],
                    exports := exports swf,
                    buffer := []\<rparr>"
    by (rule SupercellSWF.equality) simp_all
  \<comment> \<open>texture tags without pixel data, after tag 26\<close>
  let ?b2 = "concat (map textureTagBytes bare) @ saveTag 0 []"
  let ?st0 = "initialParseState\<lparr>hasTextureData := False\<rparr>"
  let ?st2 = "?st0\<lparr>texturesLoaded := texturesLoaded ?st0 + length bare\<rparr>"
  let ?ext = "(?swf (saveTag 26 [] @ ?b2))\<lparr>buffer := ?b2, hasExternalTexture := True\<rparr>"
  have s2: "storeTextures False 0 (map (textureOf False) bare) (replicate n newTexture) =
      map (textureOf False) (take n bare)"
    using more(2) by (simp add: storeTextures_nodata take_map)
  have "parseTags_loop cd initialParseState (?swf (saveTag 26 [] @ ?b2)) =
        parseTags_loop cd ?st0 ?ext"
    by (rule external_turn) simp
  also have "\<dots> = parseTags_loop cd ?st2
          (?ext\<lparr>buffer := saveTag 0 [], textures := map (textureOf False) (take n bare)\<rparr>)"
    using textures_loop [where swf = ?ext and tags = bare and rest = "saveTag 0 []"
        and st = ?st0 and cd = cd] bare s2
    by (simp add: initialParseState_def)
  also have "\<dots> = Inr (?ext\<lparr>buffer := saveTag 0 [],
      textures := map (textureOf False) (take n bare), buffer := []\<rparr>)"
    by (rule end_turn) simp
  finally have p2: "parseTags cd (?swf (saveTag 26 [] @ ?b2)) =
      Inr (?ext\<lparr>buffer := saveTag 0 [],
        textures := map (textureOf False) (take n bare), buffer := []\<rparr>)"
    by (simp add: parseTags_def)
  have e2: "?ext\<lparr>buffer := saveTag 0 [],
        textures := map (textureOf False) (take n bare), buffer := []\<rparr> =
      swf\<lparr>compression := m, shapeCount := shapes, movieClipsCount := movieClips,
                    hasExternalTexture := True,
                    textures := map (textureOf False) (take n bare),
                    textFieldsCount := textFields,
                    banks := banks swf @ [\<lparr>matrices = [], colors = []\<rparr>],
                    exports := exports swf,
                    buffer := []\<rparr>"
    by (rule SupercellSWF.equality) simp_all
  show ?thesis
    using p1 p2 counts
    by (simp add: loadAsset_headerBytes e1 e2)
qed

theorem texture_count_not_checked_witness:
  "loadAsset rawCodecs
     (Map.empty(''a.sc'' \<mapsto> ScFile NONE
        (headerBytes 0 0 1 0 @ concat (map textureTagBytes [dataTag, dataTag]) @ saveTag 0 [])))
     ''a.sc'' (newSupercellSWF :: RawSWF) =
     Inr (newSupercellSWF\<lparr>compression := NONE, shapeCount := 0, movieClipsCount := 0,
            textures := map (textureOf True) [dataTag, dataTag],
            textFieldsCount := 0,
            banks := banks (newSupercellSWF :: RawSWF) @ [\<lparr>matrices = [], colors = []\<rparr>],
            exports := exports (newSupercellSWF :: RawSWF),
            buffer := []\<rparr>) \<and>
   loadAsset rawCodecs
     (Map.empty(''a.sc'' \<mapsto> ScFile NONE
        (headerBytes 0 0 1 0 @ saveTag 26 [] @
         concat (map textureTagBytes [bareTag, bareTag]) @ saveTag 0 [])))
     ''a.sc'' (newSupercellSWF :: RawSWF) =
     Inr (newSupercellSWF\<lparr>compression := NONE, shapeCount := 0, movieClipsCount := 0,
            hasExternalTexture := True,
            textures := map (textureOf False) (take 1 [bareTag, bareTag]),
            textFieldsCount := 0,
            banks := banks (newSupercellSWF :: RawSWF) @ [\<lparr>matrices = [], colors = []\<rparr>],
            exports := exports (newSupercellSWF :: RawSWF),
            buffer := []\<rparr>)"
  by (rule texture_count_not_checked)
     (simp_all add: wfTextureTag_def dataTag_def bareTag_def PIXEL_FORMATS_def)




text \<open>
  C1, as the code has it. For a document that is stored exactly (distinct resource
  ids; records, matrices and colour transforms that their own codecs read back; counts,
  export ids and names within their fields; postfixes that are kept; textures with the
  filters \<^verbatim>\<open>GL_LINEAR\<close> / \<^verbatim>\<open>GL_NEAREST\<close> or, in linear layout,
  \<^verbatim>\<open>GL_LINEAR\<close> / \<^verbatim>\<open>GL_LINEAR_MIPMAP_NEAREST\<close>, and pixels that the zero-alpha rule and the
  packing of the pixel format leave unchanged), \<^verbatim>\<open>load\<close> of the files written by
  \<^verbatim>\<open>save\<close> into a fresh document succeeds, whether the textures are inside the main
  file or in a texture file, and gives the document back: every flag, the compression
  method (which is arbitrary), the postfixes, the exports and the textures, pixel by
  pixel, are those of the document saved. The resources come back in saving order
  (modifiers, shapes, text fields, movie clips, each in ascending id) and are the same
  map from ids to records; the banks come back as they are, and as one empty bank when
  the document had none; the read buffer is at its end and the four private counts are
  the numbers of records of each kind. \<^verbatim>\<open>loadAsset\<close> of the main file that
  \<^verbatim>\<open>saveAsset\<close> writes gives the same document when the textures are inside it, and
  the document with blank textures of the saved sizes when they are external.
\<close>

theorem load_save_roundtrip:
  assumes "exactDocument cd D"
  shows "load cd (snd (save cd files path D)) path newSupercellSWF =
       Inr ((savedCounts cd D)
              \<lparr>resources := savedOrder cd (resources D), banks := loadedBanks (banks D),
               buffer := []\<rparr>) \<and>
     loadAsset cd (snd (saveAsset cd files path D)) path newSupercellSWF =
       Inr ((savedCounts cd D)
              \<lparr>textures := (if hasExternalTexture D then map headerOnly (textures D)
                            else textures D),
               resources := savedOrder cd (resources D), banks := loadedBanks (banks D),
               buffer := []\<rparr>) \<and>
     distinct (map fst (savedOrder cd (resources D))) \<and>
     map_of (savedOrder cd (resources D)) = map_of (resources D)"
proof -
  from assms have st: "storable cd D" by (rule exactDocument_storable)
  from assms have re: "map reloaded (textures D) = textures D"
    by (intro map_idI reloaded_exact) (simp add: exactDocument_def)
  from assms have d: "distinct (map fst (resources D))"
    by (simp add: exactDocument_def)
  have tx: "map (if hasExternalTexture D then headerOnly else reloaded) (textures D) =
      (if hasExternalTexture D then map headerOnly (textures D) else textures D)"
    using re by simp
  have 1: "load cd (snd (save cd files path D)) path newSupercellSWF =
       Inr ((savedCounts cd D)
              \<lparr>resources := savedOrder cd (resources D), banks := loadedBanks (banks D),
               buffer := []\<rparr>)"
    using load_save_storable [OF st, of files path] unfolding re
    by (simp add: savedCounts_def)
  have 2: "loadAsset cd (snd (saveAsset cd files path D)) path newSupercellSWF =
       Inr ((savedCounts cd D)
              \<lparr>textures := (if hasExternalTexture D then map headerOnly (textures D)
                            else textures D),
               resources := savedOrder cd (resources D), banks := loadedBanks (banks D),
               buffer := []\<rparr>)"
    using loadAsset_saved [where fs = "snd (saveAsset cd files path D)" and path = path,
        OF st saveAsset_main_file]
    unfolding tx .
  show ?thesis
    by (intro conjI 1 2 distinct_savedOrder [OF d] map_of_savedOrder [OF d])
qed

theorem load_save_roundtrip_witness:
  "load rawCodecs (snd (save rawCodecs Map.empty ''a.sc'' richDoc)) ''a.sc'' newSupercellSWF =
     Inr (richDoc
            \<lparr>resources :=
               [(9, (ModifierKind, 38, [])), (2, (ShapeKind, 18, [])),
                (5, (MovieClipKind, 12, [7]))],
             shapeCount := 1, movieClipsCount := 1, modifiersCount := 1\<rparr>) \<and>
   map_of [(9, (ModifierKind, 38, [])), (2, (ShapeKind, 18, [])),
           (5, (MovieClipKind, 12, [7 :: byte]))] = map_of (resources richDoc)"
proof -
  have b: "loadedBanks (banks richDoc) = banks richDoc"
    by (simp add: loadedBanks_def richDoc_def)
  have e: "(savedCounts rawCodecs richDoc)
              \<lparr>resources :=
                 [(9, (ModifierKind, 38, [])), (2, (ShapeKind, 18, [])),
                  (5, (MovieClipKind, 12, [7]))],
               banks := loadedBanks (banks richDoc), buffer := []\<rparr> =
      richDoc
            \<lparr>resources :=
               [(9, (ModifierKind, 38, [])), (2, (ShapeKind, 18, [])),
                (5, (MovieClipKind, 12, [7]))],
             shapeCount := 1, movieClipsCount := 1, modifiersCount := 1\<rparr>"
    unfolding savedCounts_richDoc b
    by (simp add: richDoc_def newSupercellSWF_def)
  note r = load_save_roundtrip [OF exact_richDoc, of Map.empty "''a.sc''",
      unfolded savedOrder_richDoc e]
  from r [THEN conjunct1] r [THEN conjunct2, THEN conjunct2, THEN conjunct2]
  show ?thesis by (rule conjI)
qed

text \<open>
  C1 as stated fails: a 2 by 1 RGBA8 texture whose first pixel is \<open>[1, 2, 3, 0]\<close> is
  written with that pixel zeroed (the zero-alpha rule of \<^verbatim>\<open>Texture.save\<close>), so the
  document loaded from the saved file holds the pixel \<open>[0, 0, 0, 0]\<close> and differs from
  the document saved.
\<close>

theorem load_save_zero_alpha_counterexample:
  "load rawCodecs (snd (save rawCodecs Map.empty ''a.sc'' alphaDoc)) ''a.sc'' newSupercellSWF =
     Inr (alphaDoc\<lparr>textures :=
            [alphaTexture\<lparr>image := (image alphaTexture)\<lparr>pixels :=
               [[0, 0, 0, 0], [4, 5, 6, 255]]\<rparr>\<rparr>]\<rparr>) \<and>
   load rawCodecs (snd (save rawCodecs Map.empty ''a.sc'' alphaDoc)) ''a.sc'' newSupercellSWF \<noteq>
     Inr alphaDoc"
proof -
  have "load_linear (save_tag alphaTexture True) = linear alphaTexture"
    by (simp add: alphaTexture_def save_tag_def load_linear_def)
  with wellFormed_alphaTexture have st: "storable rawCodecs alphaDoc"
    by (simp add: storable_def alphaDoc_def newSupercellSWF_def postfixesKept_def
        idsOfKind_def storableBank_def)
  have re: "reloaded alphaTexture =
      alphaTexture\<lparr>image := (image alphaTexture)\<lparr>pixels :=
             [[0, 0, 0, 0], [4, 5, 6, 255]]\<rparr>\<rparr>"
    by (simp add: reloaded_def alphaTexture_def save_tag_def load_linear_def
        load_magFilter_def load_minFilter_def load_downscaling_def zero_alpha_def
        alpha_def channels_def components_def replicate_4)
  have ne: "reloaded alphaTexture \<noteq> alphaTexture"
    unfolding re by (simp add: alphaTexture_def)
  have sv: "(savedCounts rawCodecs alphaDoc)
            \<lparr>textures := map reloaded (textures alphaDoc),
             resources := savedOrder rawCodecs (resources alphaDoc),
             banks := loadedBanks (banks alphaDoc),
             buffer := []\<rparr> = alphaDoc\<lparr>textures := [reloaded alphaTexture]\<rparr>"
    by (simp add: savedCounts_def savedOrder_def recordsOfKind_def idsOfKind_def
        loadedBanks_def alphaDoc_def newSupercellSWF_def)
  have ld: "load rawCodecs (snd (save rawCodecs Map.empty ''a.sc'' alphaDoc)) ''a.sc''
     newSupercellSWF = Inr (alphaDoc\<lparr>textures := [reloaded alphaTexture]\<rparr>)"
    using load_save_storable [OF st, of Map.empty "''a.sc''"] unfolding sv .
  have "alphaDoc\<lparr>textures := [reloaded alphaTexture]\<rparr> \<noteq> alphaDoc"
  proof
    assume "alphaDoc\<lparr>textures := [reloaded alphaTexture]\<rparr> = alphaDoc"
    then have "textures (alphaDoc\<lparr>textures := [reloaded alphaTexture]\<rparr>) = textures alphaDoc"
      by simp
    with ne show False by (simp add: alphaDoc_def)
  qed
  with ld show ?thesis
    unfolding re by simp
qed

end
